(* ===== verification/Prelude.thy ===== *)
theory Prelude
  imports Main
begin

section \<open>Prelude: SQL tables, text columns, shared automation\<close>

text \<open>
  What every component shares: tables with an \<open>AUTOINCREMENT\<close> row id as an insertion-ordered
  list of records together with the last id handed out, the statements the repositories run on
  them (INSERT, UPDATE .. WHERE, DELETE .. WHERE, SELECT .. WHERE), unique indexes as a
  \<open>clash\<close> relation between two rows, decimal rendering of integers and the LIKE prefix match.
  Text is a list of characters, one per code point; only equality, concatenation, truncation
  and substring tests are used on it.
\<close>

named_theorems tbl_defs "the table statements, unfolded"
named_theorems inv_intro "an operation keeps an invariant"
named_theorems clash_defs "the unique indexes"

subsection \<open>Tables\<close>

record 'r tbl =
  rows :: "'r list"
  seq :: int

definition empty_tbl :: "'r tbl" where
  "empty_tbl = \<lparr>rows = [], seq = 0\<rparr>"

definition tbl_insert :: "(int \<Rightarrow> 'r) \<Rightarrow> 'r tbl \<Rightarrow> int \<times> 'r tbl" where
  "tbl_insert mk t = (seq t + 1, t\<lparr>rows := rows t @ [mk (seq t + 1)], seq := seq t + 1\<rparr>)"

definition tbl_update :: "('r \<Rightarrow> bool) \<Rightarrow> ('r \<Rightarrow> 'r) \<Rightarrow> 'r tbl \<Rightarrow> 'r tbl" where
  "tbl_update P f t = t\<lparr>rows := map (\<lambda>r. if P r then f r else r) (rows t)\<rparr>"

definition tbl_delete :: "('r \<Rightarrow> bool) \<Rightarrow> 'r tbl \<Rightarrow> 'r tbl" where
  "tbl_delete P t = t\<lparr>rows := filter (\<lambda>r. \<not> P r) (rows t)\<rparr>"

definition tbl_select :: "('r \<Rightarrow> bool) \<Rightarrow> 'r tbl \<Rightarrow> 'r list" where
  "tbl_select P t = filter P (rows t)"

definition tbl_one :: "('r \<Rightarrow> bool) \<Rightarrow> 'r tbl \<Rightarrow> 'r option" where
  "tbl_one P t = find P (rows t)"

definition tbl_count :: "('r \<Rightarrow> bool) \<Rightarrow> 'r tbl \<Rightarrow> int" where
  "tbl_count P t = int (length (filter P (rows t)))"

lemmas [tbl_defs] = tbl_insert_def tbl_update_def tbl_delete_def tbl_select_def tbl_one_def
  tbl_count_def empty_tbl_def

text \<open>
  \<open>clash a b\<close>: the two rows would share an entry of a unique index. A table is well formed when
  its ids are positive, ascending and never above the counter, and no two rows clash.
\<close>

definition no_clash :: "('r \<Rightarrow> 'r \<Rightarrow> bool) \<Rightarrow> 'r list \<Rightarrow> bool" where
  "no_clash clash rs = sorted_wrt (\<lambda>a b. \<not> clash a b) rs"

definition tbl_ok :: "('r \<Rightarrow> int) \<Rightarrow> ('r \<Rightarrow> 'r \<Rightarrow> bool) \<Rightarrow> 'r tbl \<Rightarrow> bool" where
  "tbl_ok rid clash t \<longleftrightarrow>
     sorted_wrt (<) (map rid (rows t)) \<and> (\<forall>r\<in>set (rows t). 0 < rid r \<and> rid r \<le> seq t)
     \<and> 0 \<le> seq t \<and> no_clash clash (rows t)"

lemma tbl_ok_empty [simp]: "tbl_ok rid clash empty_tbl"
  by (simp add: tbl_ok_def empty_tbl_def no_clash_def)

lemma tbl_ok_seq [dest]: "tbl_ok rid clash t \<Longrightarrow> 0 \<le> seq t"
  by (simp add: tbl_ok_def)

lemma tbl_ok_insert:
  assumes ok: "tbl_ok rid clash t" and id: "rid (mk (seq t + 1)) = seq t + 1"
    and free: "\<And>r. r \<in> set (rows t) \<Longrightarrow> \<not> clash r (mk (seq t + 1))"
  shows "tbl_ok rid clash (snd (tbl_insert mk t))"
  using assms by (fastforce simp: tbl_ok_def tbl_insert_def no_clash_def sorted_wrt_append)

lemma tbl_ok_update:
  assumes ok: "tbl_ok rid clash t"
    and id: "\<And>r. r \<in> set (rows t) \<Longrightarrow> P r \<Longrightarrow> rid (f r) = rid r"
    and cl: "no_clash clash (map (\<lambda>r. if P r then f r else r) (rows t))"
  shows "tbl_ok rid clash (tbl_update P f t)"
proof -
  have eq: "map rid (map (\<lambda>r. if P r then f r else r) (rows t)) = map rid (rows t)"
    using id by simp
  have "sorted_wrt (<) (map rid (map (\<lambda>r. if P r then f r else r) (rows t)))"
    unfolding eq using ok by (simp add: tbl_ok_def)
  moreover have "\<forall>r\<in>set (map (\<lambda>r. if P r then f r else r) (rows t)). 0 < rid r \<and> rid r \<le> seq t"
    using ok id by (fastforce simp: tbl_ok_def)
  ultimately show ?thesis using ok cl by (simp add: tbl_ok_def tbl_update_def del: map_map)
qed

lemma no_clash_map:
  assumes "no_clash clash rs" and "\<And>a b. clash (g a) (g b) \<Longrightarrow> clash a b"
  shows "no_clash clash (map g rs)"
  using assms by (auto simp: no_clash_def sorted_wrt_map elim!: sorted_wrt_mono_rel[rotated])

lemma tbl_ok_update_plain:
  assumes "tbl_ok rid clash t" and "\<And>r. rid (f r) = rid r"
    and "\<And>a b. clash (f a) b = clash a b" and "\<And>a b. clash a (f b) = clash a b"
  shows "tbl_ok rid clash (tbl_update P f t)"
  using assms by (intro tbl_ok_update no_clash_map) (auto simp: tbl_ok_def split: if_splits)

lemma tbl_ok_delete [inv_intro]:
  assumes "tbl_ok rid clash t" shows "tbl_ok rid clash (tbl_delete P t)"
  using assms by (auto simp: tbl_ok_def tbl_delete_def no_clash_def sorted_wrt_map sorted_wrt_filter)

lemma tbl_ok_distinct: "tbl_ok rid clash t \<Longrightarrow> distinct (map rid (rows t))"
  using strict_sorted_iff[of "map rid (rows t)"] by (simp add: tbl_ok_def)

lemma tbl_id_unique:
  assumes "tbl_ok rid clash t" "a \<in> set (rows t)" "b \<in> set (rows t)" "rid a = rid b"
  shows "a = b"
  using tbl_ok_distinct[OF assms(1)] assms(2-4) by (auto simp: distinct_map inj_on_def)

lemma tbl_no_clash:
  assumes "tbl_ok rid clash t" "a \<in> set (rows t)" "b \<in> set (rows t)" "clash a b" "clash b a"
  shows "a = b"
proof (rule ccontr)
  assume "a \<noteq> b"
  obtain i j where i: "i < length (rows t)" "rows t ! i = a"
    and j: "j < length (rows t)" "rows t ! j = b"
    using assms(2,3) by (auto simp: in_set_conv_nth)
  from \<open>a \<noteq> b\<close> i j consider "i < j" | "j < i" by (metis linorder_less_linear)
  then show False
    using assms(1,4,5) i j
    by cases (auto simp: tbl_ok_def no_clash_def sorted_wrt_iff_nth_less)
qed

text \<open>
  A statement that may violate a unique index fails as a whole with \<open>IntegrityError\<close> and leaves
  the table as it was, the id counter included.
\<close>

datatype db_error =
    IntegrityError
  | AlbumSettlementError string
  | DatabaseUnavailableError string
  | BridgeIdentityConflictError string
  | StatementError string

definition tbl_try_insert ::
  "('r \<Rightarrow> 'r \<Rightarrow> bool) \<Rightarrow> (int \<Rightarrow> 'r) \<Rightarrow> 'r tbl \<Rightarrow> db_error + (int \<times> 'r tbl)" where
  "tbl_try_insert clash mk t =
     (if list_ex (\<lambda>r. clash r (mk (seq t + 1))) (rows t) then Inl IntegrityError
      else Inr (tbl_insert mk t))"

definition tbl_try_update ::
  "('r \<Rightarrow> 'r \<Rightarrow> bool) \<Rightarrow> ('r \<Rightarrow> bool) \<Rightarrow> ('r \<Rightarrow> 'r) \<Rightarrow> 'r tbl \<Rightarrow> db_error + 'r tbl" where
  "tbl_try_update clash P f t =
     (let t' = tbl_update P f t in if no_clash clash (rows t') then Inr t' else Inl IntegrityError)"

lemma tbl_try_insert_Inr:
  "tbl_try_insert clash mk t = Inr (i, t') \<longleftrightarrow>
     (\<forall>r\<in>set (rows t). \<not> clash r (mk (seq t + 1))) \<and> i = seq t + 1 \<and> t' = snd (tbl_insert mk t)"
  by (auto simp: tbl_try_insert_def list_ex_iff tbl_insert_def)

lemma tbl_try_insert_ok:
  assumes "tbl_ok rid clash t" "tbl_try_insert clash mk t = Inr (i, t')" "\<And>i. rid (mk i) = i"
  shows "tbl_ok rid clash t'"
  using assms tbl_ok_insert[of rid clash t mk] by (auto simp: tbl_try_insert_Inr)

lemma tbl_try_update_Inr:
  "tbl_try_update clash P f t = Inr t' \<longleftrightarrow> t' = tbl_update P f t \<and> no_clash clash (rows (tbl_update P f t))"
  by (auto simp: tbl_try_update_def Let_def)

lemma tbl_try_update_ok:
  assumes "tbl_ok rid clash t" "tbl_try_update clash P f t = Inr t'" "\<And>r. rid (f r) = rid r"
  shows "tbl_ok rid clash t'"
  using assms by (auto simp: tbl_try_update_Inr tbl_update_def[of P f t] intro!: tbl_ok_update[of _ _ _ P f, unfolded tbl_update_def])

lemma no_clash_filter: "no_clash clash rs \<Longrightarrow> no_clash clash (filter P rs)"
  by (simp add: no_clash_def sorted_wrt_filter)

text \<open>Reading back: one row by a predicate, before and after a statement.\<close>

lemma tbl_one_Some: "tbl_one P t = Some r \<Longrightarrow> r \<in> set (rows t) \<and> P r"
  by (auto simp: tbl_one_def find_Some_iff)

lemma tbl_one_None: "tbl_one P t = None \<longleftrightarrow> (\<forall>r\<in>set (rows t). \<not> P r)"
  by (auto simp: tbl_one_def find_None_iff)

lemma tbl_one_by_id:
  assumes "tbl_ok rid clash t" "r \<in> set (rows t)"
  shows "tbl_one (\<lambda>x. rid x = rid r) t = Some r"
proof -
  have "tbl_one (\<lambda>x. rid x = rid r) t \<noteq> None" using assms(2) by (auto simp: tbl_one_None)
  then obtain r' where r': "tbl_one (\<lambda>x. rid x = rid r) t = Some r'" by auto
  then have "r' \<in> set (rows t)" "rid r' = rid r" by (auto dest!: tbl_one_Some)
  then show ?thesis using r' tbl_id_unique[OF assms(1)] assms(2) by auto
qed

lemma rows_update [simp]: "rows (tbl_update P f t) = map (\<lambda>r. if P r then f r else r) (rows t)"
  by (simp add: tbl_update_def)

lemma seq_update [simp]: "seq (tbl_update P f t) = seq t"
  by (simp add: tbl_update_def)

lemma rows_delete [simp]: "rows (tbl_delete P t) = filter (\<lambda>r. \<not> P r) (rows t)"
  by (simp add: tbl_delete_def)

lemma rows_insert [simp]: "rows (snd (tbl_insert mk t)) = rows t @ [mk (seq t + 1)]"
  by (simp add: tbl_insert_def)

lemma fst_insert [simp]: "fst (tbl_insert mk t) = seq t + 1"
  by (simp add: tbl_insert_def)

lemma seq_insert [simp]: "seq (snd (tbl_insert mk t)) = seq t + 1"
  by (simp add: tbl_insert_def)

lemma update_hit: "r \<in> set (rows t) \<Longrightarrow> P r \<Longrightarrow> f r \<in> set (rows (tbl_update P f t))"
  by (force simp: image_iff)

lemma update_miss: "r \<in> set (rows t) \<Longrightarrow> \<not> P r \<Longrightarrow> r \<in> set (rows (tbl_update P f t))"
  by (force simp: image_iff)

lemma tbl_count_split: "tbl_count (\<lambda>r. P r \<and> Q r) t + tbl_count (\<lambda>r. P r \<and> \<not> Q r) t = tbl_count P t"
proof -
  have "length (filter (\<lambda>r. P r \<and> Q r) rs) + length (filter (\<lambda>r. P r \<and> \<not> Q r) rs)
      = length (filter P rs)" for rs
    by (induction rs) auto
  then show ?thesis by (simp add: tbl_count_def flip: of_nat_add)
qed

lemma tbl_count_cong: "(\<And>r. r \<in> set (rows t) \<Longrightarrow> P r = Q r) \<Longrightarrow> tbl_count P t = tbl_count Q t"
  by (simp add: tbl_count_def cong: filter_cong)

lemma tbl_update_cong:
  assumes "\<And>r. r \<in> set (rows t) \<Longrightarrow> P r = Q r" "\<And>r. r \<in> set (rows t) \<Longrightarrow> Q r \<Longrightarrow> f r = g r"
  shows "tbl_update P f t = tbl_update Q g t"
  using assms by (auto simp: tbl_update_def intro!: arg_cong[of _ _ "\<lambda>x. t\<lparr>rows := x\<rparr>"])

lemma tbl_update_twice:
  assumes "\<And>r. r \<in> set (rows t) \<Longrightarrow> P r \<Longrightarrow> \<not> Q (f r)" "\<And>r. r \<in> set (rows t) \<Longrightarrow> P r \<Longrightarrow> \<not> Q r"
  shows "tbl_update Q g (tbl_update P f t) = tbl_update (\<lambda>r. P r \<or> Q r) (\<lambda>r. if P r then f r else g r) t"
  using assms by (auto simp: tbl_update_def)

text \<open>A table in id order: ORDER BY id is the order of the list.\<close>

lemma sort_key_id:
  assumes "tbl_ok rid clash t"
  shows "sort_key rid (tbl_select P t) = tbl_select P t"
proof -
  have "sorted (map rid (filter P (rows t)))"
    using assms unfolding tbl_ok_def
    by (auto simp: sorted_wrt_map intro: sorted_wrt_filter sorted_wrt_mono_rel[of _ "\<lambda>x y. rid x < rid y"])
  then show ?thesis by (simp add: tbl_select_def sort_key_id_if_sorted)
qed

subsection \<open>Decimal rendering and LIKE\<close>

definition digit_char :: "nat \<Rightarrow> char" where
  "digit_char d = char_of (48 + d)"

fun show_nat :: "nat \<Rightarrow> string" where
  "show_nat n = (if n < 10 then [digit_char n] else show_nat (n div 10) @ [digit_char (n mod 10)])"

declare show_nat.simps [simp del]

definition show_int :: "int \<Rightarrow> string" where
  "show_int i = (if i < 0 then CHR ''-'' # show_nat (nat (- i)) else show_nat (nat i))"

definition char_digit :: "char \<Rightarrow> nat" where
  "char_digit c = of_char c - 48"

definition read_nat :: "string \<Rightarrow> nat" where
  "read_nat s = foldl (\<lambda>n c. n * 10 + char_digit c) 0 s"

lemma char_digit_char: "d < 10 \<Longrightarrow> char_digit (digit_char d) = d"
  by (simp add: char_digit_def digit_char_def)

lemma read_show_nat: "read_nat (show_nat n) = n"
proof (induction n rule: show_nat.induct)
  case (1 n)
  show ?case
  proof (cases "n < 10")
    case True
    then show ?thesis by (simp add: show_nat.simps[of n] read_nat_def char_digit_char)
  next
    case False
    then show ?thesis
      using 1 by (simp add: show_nat.simps[of n] read_nat_def char_digit_char)
  qed
qed

lemma show_nat_inject [simp]: "show_nat m = show_nat n \<longleftrightarrow> m = n"
  by (metis read_show_nat)

lemma show_nat_digits: "c \<in> set (show_nat n) \<Longrightarrow> \<exists>d<10. c = digit_char d"
proof (induction n rule: show_nat.induct)
  case (1 n)
  then show ?case
    by (cases "n < 10") (force simp: show_nat.simps[of n])+
qed

lemma digit_char_neq:
  assumes "d < 10" shows "digit_char d \<noteq> CHR '':''" "digit_char d \<noteq> CHR ''-''"
proof -
  have "d = 0 \<or> d = 1 \<or> d = 2 \<or> d = 3 \<or> d = 4 \<or> d = 5 \<or> d = 6 \<or> d = 7 \<or> d = 8 \<or> d = 9"
    using assms by arith
  then show "digit_char d \<noteq> CHR '':''" "digit_char d \<noteq> CHR ''-''"
    by (auto simp: digit_char_def char_of_def)
qed

lemma show_nat_no_sep [simp]:
  "CHR '':'' \<notin> set (show_nat n)" "CHR ''-'' \<notin> set (show_nat n)"
  using digit_char_neq show_nat_digits by metis+

lemma show_int_no_colon [simp]: "CHR '':'' \<notin> set (show_int i)"
  by (simp add: show_int_def)

lemma show_int_inject [simp]: "show_int i = show_int j \<longleftrightarrow> i = j"
proof
  assume eq: "show_int i = show_int j"
  show "i = j"
  proof (cases "i < 0"; cases "j < 0")
    assume "i < 0" "\<not> j < 0"
    with eq have "CHR ''-'' \<in> set (show_nat (nat j))" by (metis list.set_intros(1) show_int_def)
    then show ?thesis by simp
  next
    assume "\<not> i < 0" "j < 0"
    with eq have "CHR ''-'' \<in> set (show_nat (nat i))" by (metis list.set_intros(1) show_int_def)
    then show ?thesis by simp
  qed (use eq in \<open>auto simp: show_int_def\<close>)
qed simp

text \<open>Two texts with a separator neither left part contains are equal only part by part.\<close>

lemma sep_append_inject:
  assumes "c \<notin> set xs" "c \<notin> set xs'"
  shows "xs @ c # ys = xs' @ c # ys' \<longleftrightarrow> xs = xs' \<and> ys = ys'"
  using assms
proof (induction xs arbitrary: xs')
  case Nil
  then show ?case by (cases xs') auto
next
  case (Cons x xs)
  then show ?case by (cases xs') auto
qed

text \<open>
  \<open>LIKE 'prefix%'\<close> where the prefix holds no wildcard: SQLite compares ASCII letters without
  case.
\<close>

definition lower_char :: "char \<Rightarrow> char" where
  "lower_char c = (let n = of_char c :: nat in if 65 \<le> n \<and> n \<le> 90 then char_of (n + 32) else c)"

definition lower :: "string \<Rightarrow> string" where
  "lower s = map lower_char s"

definition like_prefix :: "string \<Rightarrow> string \<Rightarrow> bool" where
  "like_prefix p s = (lower (take (length p) s) = lower p)"

fun is_prefix :: "string \<Rightarrow> string \<Rightarrow> bool" where
  "is_prefix [] s = True"
| "is_prefix (c # p) [] = False"
| "is_prefix (c # p) (d # s) = (c = d \<and> is_prefix p s)"

fun substring :: "string \<Rightarrow> string \<Rightarrow> bool" where
  "substring p [] = (p = [])"
| "substring p (c # s) = (is_prefix p (c # s) \<or> substring p s)"

end
