(* ===== verification/Schema.thy ===== *)
theory Schema
  imports Prelude
begin

section \<open>The rows of the database and its unique indexes\<close>

text \<open>
  The enums and dataclasses of \<open>bridge/storage/models.py\<close> and the tables of
  \<open>bridge/storage/migrations.py\<close> at version 20: one record per table, with every column the
  repositories read or write, and for each table its unique indexes as a clash relation. A
  nullable column is an option. A JSON column is modelled by the value its text denotes
  (\<open>json.dumps\<close> and \<open>json.loads\<close> are inverse on it), so the cleared payload
  \<open>'{}'\<close> is the empty object; a float inside one is kept by its printed form.
  A millisecond timestamp is an int.
\<close>

datatype json =
    JNull
  | JBool bool
  | JInt int
  | JFloat string
  | JStr string
  | JList "json list"
  | JObj "(string \<times> json) list"

abbreviation cleared :: json where "cleared \<equiv> JObj []"

subsection \<open>Enums\<close>

datatype direction = MAX_TO_TG | TG_TO_MAX

datatype source_marker = FROM_MAX | FROM_TG

datatype outbox_state = PENDING | INFLIGHT | DONE | FAILED | AMBIGUOUS | EXPIRED | ARCHIVED

datatype inbox_state = RECEIVED | LEASED | IN_DONE | IN_FAILED

datatype bridge_state = ACTIVE | DISABLED | PROVISIONING

datatype pending_contact_state = NEW | ASKED | IGNORED | BLOCKED | PROVISIONED

datatype inbox_family = SNAPSHOT | DELETE

datatype owner_update_state = OPEN | CLAIMED | ACCOUNTED | DEAD

subsection \<open>message_map\<close>

record message_link =
  ml_id :: int
  ml_bridge_name :: string
  ml_max_chat_id :: int
  ml_max_message_id :: "int option"
  ml_telegram_bot_id :: int
  ml_telegram_chat_id :: int
  ml_telegram_message_id :: "int option"
  ml_direction :: direction
  ml_source_marker :: source_marker
  ml_created_at :: int
  ml_echo_fingerprint :: "string option"
  ml_owner_message_id :: "int option"
  ml_owner_account_id :: "int option"

text \<open>\<open>idx_message_map_max\<close> and \<open>idx_message_map_telegram\<close>, both partial.\<close>

definition ml_clash :: "message_link \<Rightarrow> message_link \<Rightarrow> bool" where
  "ml_clash a b \<longleftrightarrow>
     (ml_max_message_id a \<noteq> None \<and> ml_max_message_id a = ml_max_message_id b
        \<and> ml_max_chat_id a = ml_max_chat_id b \<and> ml_telegram_bot_id a = ml_telegram_bot_id b)
   \<or> (ml_telegram_message_id a \<noteq> None \<and> ml_telegram_message_id a = ml_telegram_message_id b
        \<and> ml_telegram_bot_id a = ml_telegram_bot_id b)"

subsection \<open>outbox\<close>

record outbox_item =
  ob_id :: int
  ob_bridge_name :: string
  ob_direction :: direction
  ob_kind :: string
  ob_payload :: json
  ob_attempts :: int
  ob_next_attempt_at :: int
  ob_state :: outbox_state
  ob_last_error :: "string option"
  ob_created_at :: int
  ob_updated_at :: int
  ob_source_key :: "string option"
  ob_lease_expires_at :: "int option"
  ob_expires_at :: "int option"
  ob_remote_message_id :: "int option"
  ob_ambiguous_at :: "int option"
  ob_send_started_at :: "int option"

text \<open>\<open>idx_outbox_source\<close>, partial on \<open>source_key IS NOT NULL\<close>.\<close>

definition ob_clash :: "outbox_item \<Rightarrow> outbox_item \<Rightarrow> bool" where
  "ob_clash a b \<longleftrightarrow> ob_source_key a \<noteq> None \<and> ob_source_key a = ob_source_key b"

subsection \<open>telegram_inbox, telegram_offset\<close>

record inbox_update =
  iu_id :: int
  iu_bot_id :: int
  iu_update_id :: int
  iu_bridge_name :: "string option"
  iu_payload :: json
  iu_state :: inbox_state
  iu_attempts :: int
  iu_lease_expires_at :: "int option"
  iu_last_error :: "string option"
  iu_created_at :: int
  iu_updated_at :: int

definition iu_clash :: "inbox_update \<Rightarrow> inbox_update \<Rightarrow> bool" where
  "iu_clash a b \<longleftrightarrow> iu_bot_id a = iu_bot_id b \<and> iu_update_id a = iu_update_id b"

subsection \<open>media_group_part\<close>

record media_part =
  mp_id :: int
  mp_media_group_id :: string
  mp_bridge_name :: string
  mp_bot_id :: int
  mp_telegram_message_id :: "int option"
  mp_payload :: json
  mp_created_at :: int
  mp_link_id :: "int option"
  mp_direction :: "direction option"
  mp_part_index :: "int option"
  mp_media_kind :: "string option"
  mp_caption_present :: "bool option"
  mp_fingerprint :: "string option"
  mp_owner_account_id :: "int option"
  mp_owner_message_id :: "int option"
  mp_updated_at :: "int option"

text \<open>
  \<open>idx_media_group_part\<close>, \<open>idx_media_group_part_logical\<close> and \<open>idx_media_group_part_owner\<close>;
  SQLite takes two NULLs in an index as different, so a row without an account never clashes
  on the third.
\<close>

definition mp_clash :: "media_part \<Rightarrow> media_part \<Rightarrow> bool" where
  "mp_clash a b \<longleftrightarrow>
     (mp_media_group_id a = mp_media_group_id b
        \<and> mp_telegram_message_id a \<noteq> None \<and> mp_telegram_message_id a = mp_telegram_message_id b)
   \<or> (mp_media_group_id a = mp_media_group_id b
        \<and> mp_part_index a \<noteq> None \<and> mp_part_index a = mp_part_index b)
   \<or> (mp_owner_message_id a \<noteq> None \<and> mp_owner_message_id a = mp_owner_message_id b
        \<and> mp_owner_account_id a \<noteq> None \<and> mp_owner_account_id a = mp_owner_account_id b)"

subsection \<open>bridges\<close>

record bridge_row =
  br_bridge_name :: string
  br_max_chat_id :: int
  br_max_user_id :: "int option"
  br_telegram_bot_id :: "int option"
  br_token_env :: string
  br_title :: "string option"
  br_source :: string
  br_state :: bridge_state
  br_created_at :: int
  br_updated_at :: int
  br_profile_signature :: "string option"
  br_pin_message_id :: "int option"
  br_pin_text :: "string option"
  br_expected_username :: "string option"
  br_lifecycle_state :: "string option"
  br_health :: "string option"
  br_history_cursor :: "int option"
  br_history_floor :: "int option"

subsection \<open>read_state, reaction_state\<close>

record read_marks =
  rm_bridge_name :: string
  rm_contact_read_mark :: int
  rm_own_read_mark :: int
  rm_last_ticked_message_id :: "int option"
  rm_status_message_id :: "int option"
  rm_status_text :: "string option"
  rm_delivered_at :: int

record reaction_snapshot =
  rs_max_chat_id :: int
  rs_max_message_id :: int
  rs_counters :: "(string \<times> int) list"
  rs_your_reaction :: "string option"

subsection \<open>pending_contacts, pending_inbox\<close>

record pending_contact =
  pc_max_chat_id :: int
  pc_max_user_id :: "int option"
  pc_display_name :: "string option"
  pc_state :: pending_contact_state
  pc_first_seen_at :: int
  pc_asked_at :: "int option"

record buffered_message =
  bm_id :: int
  bm_max_chat_id :: int
  bm_payload :: json
  bm_created_at :: int

subsection \<open>owner_message_state, owner_update_inbox\<close>

text \<open>The owner's own reactions on a message, in the order they were chosen: the column holds their JSON
  text and is read as the list it stands for.\<close>

datatype reaction_kind = EMOJI | CUSTOM

type_synonym chosen = "(reaction_kind \<times> string) list"

record owner_message_state =
  os_account_id :: int
  os_bot_id :: int
  os_message_id :: int
  os_content_fingerprint :: string
  os_chosen :: chosen
  os_pts :: int
  os_updated_at :: int

record inbox_key =
  ik_account_id :: int
  ik_bot_id :: int
  ik_message_id :: int
  ik_family :: inbox_family
  ik_pts :: int

record owner_update =
  ou_key :: inbox_key
  ou_content_text :: "string option"
  ou_content_fingerprint :: "string option"
  ou_chosen :: "chosen option"
  ou_state :: owner_update_state
  ou_attempts :: int
  ou_next_attempt_at :: int
  ou_lease_expires_at :: "int option"
  ou_last_error :: "string option"
  ou_created_at :: int
  ou_updated_at :: int
  ou_accounted_at :: "int option"

lemmas [clash_defs] = ml_clash_def ob_clash_def iu_clash_def mp_clash_def

end
