(* ===== verification/Outbox.thy ===== *)
theory Outbox
  imports Schema
begin

section \<open>The delivery queue\<close>

text \<open>
  \<open>OutboxRepository\<close> of \<open>bridge/storage/repositories.py\<close>: one definition per method, in the
  source's order, over the outbox table. \<open>now\<close> is what \<open>now_ms()\<close> answers during the call (one
  value for a call that reads the clock twice within one statement). A method that reads and then
  writes in one transaction is one function; \<open>error[:500]\<close> is \<open>take 500\<close>.
\<close>

type_synonym outbox = "outbox_item tbl"

definition DEFAULT_LEASE_MS :: int where "DEFAULT_LEASE_MS = 120000"

definition DEFAULT_TTL_MS :: int where "DEFAULT_TTL_MS = 24 * 60 * 60 * 1000"

abbreviation outbox_ok :: "outbox \<Rightarrow> bool" where
  "outbox_ok \<equiv> tbl_ok ob_id ob_clash"

definition has_key :: "string \<Rightarrow> outbox_item \<Rightarrow> bool" where
  "has_key k r = (ob_source_key r = Some k)"

definition by_source_key :: "string \<Rightarrow> outbox \<Rightarrow> outbox_item option" where
  "by_source_key k ob = tbl_one (has_key k) ob"

text \<open>The row an INSERT of \<open>enqueue\<close>, \<open>enqueue_batch\<close> or \<open>claim_for_attempt\<close> writes.\<close>

definition new_item ::
  "int \<Rightarrow> string \<Rightarrow> direction \<Rightarrow> string \<Rightarrow> json \<Rightarrow> int \<Rightarrow> outbox_state \<Rightarrow> string option \<Rightarrow> int option
   \<Rightarrow> int option \<Rightarrow> int \<Rightarrow> outbox_item" where
  "new_item now bridge dir kind payload due st key ttl lease i =
     \<lparr>ob_id = i, ob_bridge_name = bridge, ob_direction = dir, ob_kind = kind, ob_payload = payload,
      ob_attempts = 0, ob_next_attempt_at = due, ob_state = st, ob_last_error = None,
      ob_created_at = now, ob_updated_at = now, ob_source_key = key, ob_lease_expires_at = lease,
      ob_expires_at = map_option (\<lambda>m. now + m) ttl, ob_remote_message_id = None,
      ob_ambiguous_at = None, ob_send_started_at = None\<rparr>"

definition enqueue ::
  "int \<Rightarrow> string \<Rightarrow> direction \<Rightarrow> string \<Rightarrow> json \<Rightarrow> int \<Rightarrow> string option \<Rightarrow> int option \<Rightarrow> outbox
   \<Rightarrow> int \<times> outbox" where
  "enqueue now bridge dir kind payload delay key ttl ob =
     (case (case key of None \<Rightarrow> None | Some k \<Rightarrow> by_source_key k ob) of
        Some r \<Rightarrow> (ob_id r, ob)
      | None \<Rightarrow> tbl_insert (new_item now bridge dir kind payload (now + delay) PENDING key ttl None) ob)"

fun enqueue_batch ::
  "int \<Rightarrow> string \<Rightarrow> direction \<Rightarrow> (string \<times> json \<times> string) list \<Rightarrow> int option \<Rightarrow> outbox
   \<Rightarrow> int list \<times> outbox" where
  "enqueue_batch now bridge dir [] ttl ob = ([], ob)"
| "enqueue_batch now bridge dir ((kind, payload, key) # items) ttl ob =
     (let (i, ob1) =
        (case by_source_key key ob of
           Some r \<Rightarrow> (ob_id r, ob)
         | None \<Rightarrow> tbl_insert (new_item now bridge dir kind payload now PENDING (Some key) ttl None) ob);
        (is, ob2) = enqueue_batch now bridge dir items ttl ob1
      in (i # is, ob2))"

definition claim_for_attempt ::
  "int \<Rightarrow> string \<Rightarrow> direction \<Rightarrow> string \<Rightarrow> json \<Rightarrow> string \<Rightarrow> int option \<Rightarrow> int \<Rightarrow> outbox
   \<Rightarrow> (int \<times> bool) \<times> outbox" where
  "claim_for_attempt now bridge dir kind payload key ttl lease ob =
     (case by_source_key key ob of
        Some r \<Rightarrow>
          (let held = ob_state r = INFLIGHT
                        \<and> (case ob_lease_expires_at r of None \<Rightarrow> 0 | Some e \<Rightarrow> e) > now;
               takeable = ob_state r = PENDING \<or> (ob_state r = INFLIGHT \<and> \<not> held)
           in if \<not> takeable then ((ob_id r, False), ob)
              else ((ob_id r, True),
                    tbl_update (\<lambda>x. ob_id x = ob_id r)
                      (\<lambda>x. x\<lparr>ob_state := INFLIGHT, ob_lease_expires_at := Some (now + lease),
                             ob_updated_at := now\<rparr>) ob))
      | None \<Rightarrow>
          (let (i, ob1) = tbl_insert (new_item now bridge dir kind payload now INFLIGHT (Some key) ttl
                                        (Some (now + lease))) ob
           in ((i, True), ob1)))"

text \<open>
  \<open>claim_due\<close>: the first \<open>limit\<close> pending rows of the bridge by id, cut at the first one whose
  time has not come (the loop's \<open>break\<close>), are leased; the items returned carry the columns as read
  and the state INFLIGHT.
\<close>

definition due_prefix :: "int \<Rightarrow> string \<Rightarrow> nat \<Rightarrow> outbox \<Rightarrow> outbox_item list" where
  "due_prefix now bridge limit ob =
     takeWhile (\<lambda>r. \<not> ob_next_attempt_at r > now)
       (take limit (sort_key ob_id
          (tbl_select (\<lambda>r. ob_bridge_name r = bridge \<and> ob_state r = PENDING) ob)))"

definition claim_due :: "int \<Rightarrow> string \<Rightarrow> nat \<Rightarrow> int \<Rightarrow> outbox \<Rightarrow> outbox_item list \<times> outbox" where
  "claim_due now bridge limit lease ob =
     (let taken = due_prefix now bridge limit ob in
      (map (\<lambda>r. r\<lparr>ob_state := INFLIGHT\<rparr>) taken,
       if taken = [] then ob
       else tbl_update (\<lambda>x. ob_id x \<in> set (map ob_id taken))
              (\<lambda>x. x\<lparr>ob_state := INFLIGHT, ob_lease_expires_at := Some (now + lease),
                     ob_updated_at := now\<rparr>) ob))"

definition on_id :: "int \<Rightarrow> (outbox_item \<Rightarrow> outbox_item) \<Rightarrow> outbox \<Rightarrow> outbox" where
  "on_id i f ob = tbl_update (\<lambda>r. ob_id r = i) f ob"

definition mark_done :: "int \<Rightarrow> int \<Rightarrow> int option \<Rightarrow> outbox \<Rightarrow> outbox" where
  "mark_done now i remote =
     on_id i (\<lambda>r. r\<lparr>ob_state := DONE, ob_last_error := None, ob_remote_message_id := remote,
                    ob_lease_expires_at := None, ob_send_started_at := None, ob_payload := cleared,
                    ob_updated_at := now\<rparr>)"

definition mark_sending :: "int \<Rightarrow> int \<Rightarrow> outbox \<Rightarrow> outbox" where
  "mark_sending now i = on_id i (\<lambda>r. r\<lparr>ob_send_started_at := Some now, ob_updated_at := now\<rparr>)"

definition mark_ambiguous :: "int \<Rightarrow> int \<Rightarrow> string \<Rightarrow> outbox \<Rightarrow> outbox" where
  "mark_ambiguous now i error =
     on_id i (\<lambda>r. r\<lparr>ob_state := AMBIGUOUS, ob_attempts := ob_attempts r + 1,
                    ob_ambiguous_at := Some now, ob_lease_expires_at := None,
                    ob_last_error := Some (take 500 error), ob_updated_at := now\<rparr>)"

definition TTL_EXPIRED :: string where
  "TTL_EXPIRED = ''ttl expired: the job waited its whole life undelivered''"

definition mark_expired :: "int \<Rightarrow> int \<Rightarrow> outbox \<Rightarrow> outbox" where
  "mark_expired now i =
     on_id i (\<lambda>r. r\<lparr>ob_state := EXPIRED, ob_lease_expires_at := None, ob_payload := cleared,
                    ob_last_error := Some TTL_EXPIRED, ob_updated_at := now\<rparr>)"

definition DIED_SENDING :: string where
  "DIED_SENDING = ''the process died while sending; the result is unknown''"

text \<open>The loop both recovery methods share: one interrupted row, judged by its mark.\<close>

definition back_to_pending :: "int \<Rightarrow> int \<Rightarrow> outbox \<Rightarrow> outbox" where
  "back_to_pending now i =
     on_id i (\<lambda>r. r\<lparr>ob_state := PENDING, ob_lease_expires_at := None, ob_updated_at := now\<rparr>)"

fun recover_rows :: "int \<Rightarrow> outbox_item list \<Rightarrow> int \<times> int \<Rightarrow> outbox \<Rightarrow> (int \<times> int) \<times> outbox" where
  "recover_rows now [] counts ob = (counts, ob)"
| "recover_rows now (r # rs) (requeued, ambiguous) ob =
     (if ob_send_started_at r \<noteq> None
      then recover_rows now rs (requeued, ambiguous + 1) (mark_ambiguous now (ob_id r) DIED_SENDING ob)
      else recover_rows now rs (requeued + 1, ambiguous) (back_to_pending now (ob_id r) ob))"

definition reclaim_expired_leases :: "int \<Rightarrow> outbox \<Rightarrow> (int \<times> int) \<times> outbox" where
  "reclaim_expired_leases now ob =
     recover_rows now
       (tbl_select (\<lambda>r. ob_state r = INFLIGHT
          \<and> (case ob_lease_expires_at r of None \<Rightarrow> False | Some e \<Rightarrow> e \<le> now)) ob) (0, 0) ob"

definition requeue_inflight :: "int \<Rightarrow> outbox \<Rightarrow> (int \<times> int) \<times> outbox" where
  "requeue_inflight now ob =
     recover_rows now (tbl_select (\<lambda>r. ob_state r = INFLIGHT) ob) (0, 0) ob"

definition overdue :: "int \<Rightarrow> outbox_item \<Rightarrow> bool" where
  "overdue now r \<longleftrightarrow> ob_state r = PENDING
     \<and> (case ob_expires_at r of None \<Rightarrow> False | Some e \<Rightarrow> e \<le> now)"

definition expire_overdue :: "int \<Rightarrow> outbox \<Rightarrow> int \<times> outbox" where
  "expire_overdue now ob =
     (let ids = map ob_id (tbl_select (overdue now) ob)
      in (int (length ids), fold (mark_expired now) ids ob))"

subsection \<open>The owner's decisions\<close>

definition retry_now :: "int \<Rightarrow> int \<Rightarrow> outbox \<Rightarrow> bool \<times> outbox" where
  "retry_now now i ob =
     (case tbl_one (\<lambda>r. ob_id r = i) ob of
        None \<Rightarrow> (False, ob)
      | Some r \<Rightarrow>
          if ob_state r \<notin> {FAILED, AMBIGUOUS} then (False, ob)
          else if ob_payload r = cleared then (False, ob)
          else (True, on_id i (\<lambda>r. r\<lparr>ob_state := PENDING, ob_next_attempt_at := now,
                                     ob_lease_expires_at := None, ob_updated_at := now\<rparr>) ob))"

definition resolve :: "int \<Rightarrow> int \<Rightarrow> outbox \<Rightarrow> bool \<times> outbox" where
  "resolve now i ob =
     (case tbl_one (\<lambda>r. ob_id r = i) ob of
        None \<Rightarrow> (False, ob)
      | Some r \<Rightarrow>
          if ob_state r \<noteq> AMBIGUOUS then (False, ob)
          else (True, on_id i (\<lambda>r. r\<lparr>ob_state := DONE, ob_payload := cleared,
                                     ob_updated_at := now\<rparr>) ob))"

definition archive :: "int \<Rightarrow> int \<Rightarrow> string \<Rightarrow> outbox \<Rightarrow> bool \<times> outbox" where
  "archive now i reason ob =
     (case tbl_one (\<lambda>r. ob_id r = i) ob of
        None \<Rightarrow> (False, ob)
      | Some r \<Rightarrow>
          if ob_state r \<notin> {FAILED, AMBIGUOUS, EXPIRED} then (False, ob)
          else
            (let previous = (case ob_last_error r of
                               None \<Rightarrow> ''no error recorded''
                             | Some e \<Rightarrow> if e = [] then ''no error recorded'' else e)
             in (True, on_id i (\<lambda>r. r\<lparr>ob_state := ARCHIVED,
                   ob_last_error := Some (take 500 (previous @ '' | archived: '' @ reason)),
                   ob_updated_at := now\<rparr>) ob)))"

subsection \<open>What \<open>/status\<close> and the lists read\<close>

definition in_states :: "string \<Rightarrow> outbox_state set \<Rightarrow> outbox_item \<Rightarrow> bool" where
  "in_states bridge sts r \<longleftrightarrow> ob_bridge_name r = bridge \<and> ob_state r \<in> sts"

definition archived :: "string \<Rightarrow> outbox \<Rightarrow> outbox_item list" where
  "archived bridge ob = sort_key ob_id (tbl_select (in_states bridge {ARCHIVED}) ob)"

definition counts :: "string \<Rightarrow> outbox \<Rightarrow> (outbox_state \<times> int) list" where
  "counts bridge ob =
     filter (\<lambda>(s, n). n \<noteq> 0)
       (map (\<lambda>s. (s, tbl_count (in_states bridge {s}) ob))
          [AMBIGUOUS, ARCHIVED, DONE, EXPIRED, FAILED, INFLIGHT, PENDING])"

definition oldest_pending_ms :: "int \<Rightarrow> string \<Rightarrow> outbox \<Rightarrow> int option" where
  "oldest_pending_ms now bridge ob =
     (case map ob_created_at (tbl_select (in_states bridge {PENDING, INFLIGHT}) ob) of
        [] \<Rightarrow> None
      | t # ts \<Rightarrow> Some (now - fold min ts t))"

definition needing_attention :: "string \<Rightarrow> outbox \<Rightarrow> outbox_item list" where
  "needing_attention bridge ob =
     sort_key ob_id (tbl_select (in_states bridge {FAILED, AMBIGUOUS, EXPIRED}) ob)"

definition failed :: "string \<Rightarrow> outbox \<Rightarrow> outbox_item list" where
  "failed bridge ob = sort_key ob_id (tbl_select (in_states bridge {FAILED}) ob)"

definition queue_size :: "string \<Rightarrow> outbox \<Rightarrow> int" where
  "queue_size bridge ob = tbl_count (in_states bridge {PENDING, INFLIGHT}) ob"

subsection \<open>Settling an attempt\<close>

definition mark_retry :: "int \<Rightarrow> int \<Rightarrow> int \<Rightarrow> string \<Rightarrow> bool \<Rightarrow> outbox \<Rightarrow> outbox" where
  "mark_retry now i delay error costs =
     on_id i (\<lambda>r. r\<lparr>ob_state := PENDING, ob_attempts := ob_attempts r + (if costs then 1 else 0),
                    ob_lease_expires_at := None, ob_send_started_at := None,
                    ob_next_attempt_at := now + delay, ob_last_error := Some (take 500 error),
                    ob_updated_at := now\<rparr>)"

definition mark_failed :: "int \<Rightarrow> int \<Rightarrow> string \<Rightarrow> outbox \<Rightarrow> outbox" where
  "mark_failed now i error =
     on_id i (\<lambda>r. r\<lparr>ob_state := FAILED, ob_attempts := ob_attempts r + 1,
                    ob_lease_expires_at := None, ob_last_error := Some (take 500 error),
                    ob_updated_at := now\<rparr>)"

definition defer_job :: "int \<Rightarrow> int \<Rightarrow> int \<Rightarrow> outbox \<Rightarrow> outbox" where
  "defer_job now i delay =
     on_id i (\<lambda>r. r\<lparr>ob_state := PENDING, ob_lease_expires_at := None, ob_send_started_at := None,
                    ob_next_attempt_at := now + delay, ob_updated_at := now\<rparr>)"

subsection \<open>Order and dependency queries, conditional writes\<close>

definition older_undelivered :: "string \<Rightarrow> direction \<Rightarrow> int \<Rightarrow> outbox \<Rightarrow> bool" where
  "older_undelivered bridge dir before ob =
     (tbl_one (\<lambda>r. ob_bridge_name r = bridge \<and> ob_direction r = dir \<and> ob_id r < before
                   \<and> ob_state r \<in> {PENDING, INFLIGHT}) ob \<noteq> None)"

definition older_undelivered_kind :: "string \<Rightarrow> direction \<Rightarrow> string \<Rightarrow> int \<Rightarrow> outbox \<Rightarrow> bool" where
  "older_undelivered_kind bridge dir kind before ob =
     (tbl_one (\<lambda>r. ob_bridge_name r = bridge \<and> ob_direction r = dir \<and> ob_kind r = kind
                   \<and> ob_id r < before \<and> ob_state r \<in> {PENDING, INFLIGHT}) ob \<noteq> None)"

definition max_prefix :: "int \<Rightarrow> string" where
  "max_prefix chat = ''max:'' @ show_int chat @ '':''"

definition settled_from_max :: "string \<Rightarrow> int \<Rightarrow> outbox_item \<Rightarrow> bool" where
  "settled_from_max bridge chat r \<longleftrightarrow>
     ob_bridge_name r = bridge
     \<and> (case ob_source_key r of None \<Rightarrow> False | Some k \<Rightarrow> like_prefix (max_prefix chat) k)
     \<and> ob_state r \<notin> {PENDING, INFLIGHT}"

definition forget_settled_from_max :: "string \<Rightarrow> int \<Rightarrow> outbox \<Rightarrow> int \<times> outbox" where
  "forget_settled_from_max bridge chat ob =
     (tbl_count (settled_from_max bridge chat) ob, tbl_delete (settled_from_max bridge chat) ob)"

definition unsent :: "string \<Rightarrow> outbox_item \<Rightarrow> bool" where
  "unsent k r \<longleftrightarrow> ob_source_key r = Some k \<and> ob_state r = PENDING \<and> ob_send_started_at r = None"

definition cancel_pending :: "int \<Rightarrow> string \<Rightarrow> string \<Rightarrow> outbox \<Rightarrow> bool \<times> outbox" where
  "cancel_pending now key reason ob =
     (tbl_count (unsent key) ob > 0,
      tbl_update (unsent key)
        (\<lambda>r. r\<lparr>ob_state := ARCHIVED, ob_last_error := Some (take 500 reason),
               ob_updated_at := now\<rparr>) ob)"

definition replace_pending_payload :: "int \<Rightarrow> string \<Rightarrow> json \<Rightarrow> outbox \<Rightarrow> bool \<times> outbox" where
  "replace_pending_payload now key payload ob =
     (tbl_count (unsent key) ob > 0,
      tbl_update (unsent key) (\<lambda>r. r\<lparr>ob_payload := payload, ob_updated_at := now\<rparr>) ob)"

definition replace_failed_payload :: "int \<Rightarrow> string \<Rightarrow> json \<Rightarrow> outbox \<Rightarrow> bool \<times> outbox" where
  "replace_failed_payload now key payload ob =
     (let P = (\<lambda>r. ob_source_key r = Some key \<and> ob_state r = FAILED) in
      (tbl_count P ob > 0,
       tbl_update P (\<lambda>r. r\<lparr>ob_payload := payload, ob_updated_at := now\<rparr>) ob))"

end
