(* ===== verification/SourceKeys.thy ===== *)
theory SourceKeys
  imports Prelude
begin

section \<open>Source keys: the identity of an event in the queue\<close>

text \<open>
  The functions that build \<open>outbox.source_key\<close>: the router's own keys, \<open>routing/owner_mutation.py\<close>,
  \<open>routing/max_mutation.py\<close>, \<open>routing/echo.py\<close>, \<open>routing/owner_echo.py\<close> and
  \<open>routing/text_chunks.py\<close>, with the album namespaces they embed. A hash (a fingerprint, an emoji
  digest) is a text argument. An owner mutation names a single message by its id and an album by its
  namespace, which is the type \<open>msg_ref\<close>.
\<close>

subsection \<open>Album namespaces\<close>

definition owner_album_namespace :: "int \<Rightarrow> int \<Rightarrow> int \<Rightarrow> string" where
  "owner_album_namespace account peer grouped =
     ''own:'' @ show_int account @ '':'' @ show_int peer @ '':'' @ show_int grouped"

definition expected_album_namespace :: "int \<Rightarrow> string" where
  "expected_album_namespace link = ''max:'' @ show_int link"

definition echo_album_namespace :: "int \<Rightarrow> int \<Rightarrow> int \<Rightarrow> string" where
  "echo_album_namespace account bot_id grouped =
     ''echo:'' @ show_int account @ '':'' @ show_int bot_id @ '':'' @ show_int grouped"

datatype namespace = Own int int int | Expected int | Echo int int int

fun ns_text :: "namespace \<Rightarrow> string" where
  "ns_text (Own a p g) = owner_album_namespace a p g"
| "ns_text (Expected l) = expected_album_namespace l"
| "ns_text (Echo a b g) = echo_album_namespace a b g"

datatype msg_ref = Single int | Album namespace

fun ref_text :: "msg_ref \<Rightarrow> string" where
  "ref_text (Single m) = show_int m"
| "ref_text (Album n) = ns_text n"

subsection \<open>The keys\<close>

definition max_source_key :: "int \<Rightarrow> int \<Rightarrow> string" where
  "max_source_key chat msg = ''max:'' @ show_int chat @ '':'' @ show_int msg"

definition send_source_key :: "int \<Rightarrow> int \<Rightarrow> string" where
  "send_source_key account msg = ''tg-owner-msg:'' @ show_int account @ '':'' @ show_int msg"

definition router_source_key :: "int \<Rightarrow> int \<Rightarrow> int option \<Rightarrow> string" where
  "router_source_key bot_id msg owner_account =
     (case owner_account of
        Some a \<Rightarrow> ''tg-owner-msg:'' @ show_int a @ '':'' @ show_int msg
      | None \<Rightarrow> ''tg:'' @ show_int bot_id @ '':'' @ show_int msg)"

definition edit_source_key :: "int \<Rightarrow> msg_ref \<Rightarrow> int \<Rightarrow> string \<Rightarrow> string" where
  "edit_source_key account m pts fp =
     ''tg-owner-edit:'' @ show_int account @ '':'' @ ref_text m @ '':'' @ show_int pts @ '':'' @ fp"

definition delete_source_key :: "int \<Rightarrow> msg_ref \<Rightarrow> string" where
  "delete_source_key account m = ''tg-owner-delete:'' @ show_int account @ '':'' @ ref_text m"

definition album_sweep_source_key :: "namespace \<Rightarrow> string" where
  "album_sweep_source_key n = ''tg-album-sweep:'' @ ns_text n"

definition max_delete_source_key :: "int \<Rightarrow> int \<Rightarrow> string" where
  "max_delete_source_key chat msg = ''max-del:'' @ show_int chat @ '':'' @ show_int msg"

definition max_edit_source_key :: "int \<Rightarrow> int \<Rightarrow> string \<Rightarrow> string" where
  "max_edit_source_key chat msg version =
     ''max-edit:'' @ show_int chat @ '':'' @ show_int msg @ '':'' @ version"

definition owner_reaction_source_key :: "int \<Rightarrow> int \<Rightarrow> int \<Rightarrow> int \<Rightarrow> string" where
  "owner_reaction_source_key account bot_id msg pts =
     ''tg-owner-react:'' @ show_int account @ '':'' @ show_int bot_id @ '':'' @ show_int msg @ '':''
       @ show_int pts"

definition owner_emoji_note_source_key :: "int \<Rightarrow> int \<Rightarrow> int \<Rightarrow> int \<Rightarrow> string \<Rightarrow> string" where
  "owner_emoji_note_source_key account bot_id msg pts reaction =
     ''tg-owner-note:'' @ show_int account @ '':'' @ show_int bot_id @ '':'' @ show_int msg @ '':''
       @ show_int pts @ '':'' @ reaction"

definition max_reaction_note_source_key :: "int \<Rightarrow> int \<Rightarrow> string \<Rightarrow> string" where
  "max_reaction_note_source_key chat msg digest =
     ''max-react-note:'' @ show_int chat @ '':'' @ show_int msg @ '':'' @ digest"

definition owner_album_source_key :: "namespace \<Rightarrow> string" where
  "owner_album_source_key n = ''tg-owner-msg:'' @ ns_text n"

definition echo_source_key :: "int \<Rightarrow> int \<Rightarrow> string" where
  "echo_source_key account msg = ''tg-owner-echo:'' @ show_int account @ '':'' @ show_int msg"

definition album_echo_source_key :: "namespace \<Rightarrow> string" where
  "album_echo_source_key n = ''tg-owner-echo:'' @ ns_text n"

definition text_part_source_key :: "string \<Rightarrow> int \<Rightarrow> int \<Rightarrow> string" where
  "text_part_source_key base index parts =
     (if parts = 1 then base
      else base @ '':text-part:'' @ show_int (index + 1) @ '':'' @ show_int parts)"

subsection \<open>Every event has its own key\<close>

text \<open>The events that become jobs, as the code names them. \<open>Text_part\<close> is a piece of a long text, of
  more than one piece; the whole text is the \<open>Tg_message\<close> or \<open>Owner_message\<close> itself.\<close>

datatype event =
    Max_message int int
  | Tg_message int int
  | Owner_message int int
  | Tg_text_part int int int int
  | Owner_text_part int int int int
  | Owner_album int int int
  | Owner_edit int msg_ref int string
  | Owner_delete int msg_ref
  | Album_sweep namespace
  | Max_delete int int
  | Max_edit int int string
  | Owner_reaction int int int int
  | Owner_note int int int int string
  | Max_note int int string
  | Owner_echo int int
  | Album_echo int int int

fun event_key :: "event \<Rightarrow> string" where
  "event_key (Max_message c m) = max_source_key c m"
| "event_key (Tg_message b m) = router_source_key b m None"
| "event_key (Owner_message a m) = send_source_key a m"
| "event_key (Tg_text_part b m i n) = text_part_source_key (router_source_key b m None) i n"
| "event_key (Owner_text_part a m i n) = text_part_source_key (send_source_key a m) i n"
| "event_key (Owner_album a p g) = owner_album_source_key (Own a p g)"
| "event_key (Owner_edit a r p f) = edit_source_key a r p f"
| "event_key (Owner_delete a r) = delete_source_key a r"
| "event_key (Album_sweep n) = album_sweep_source_key n"
| "event_key (Max_delete c m) = max_delete_source_key c m"
| "event_key (Max_edit c m v) = max_edit_source_key c m v"
| "event_key (Owner_reaction a b m p) = owner_reaction_source_key a b m p"
| "event_key (Owner_note a b m p r) = owner_emoji_note_source_key a b m p r"
| "event_key (Max_note c m d) = max_reaction_note_source_key c m d"
| "event_key (Owner_echo a m) = echo_source_key a m"
| "event_key (Album_echo a b g) = album_echo_source_key (Echo a b g)"

fun real_part :: "event \<Rightarrow> bool" where
  "real_part (Tg_text_part b m i n) = (n \<noteq> 1)"
| "real_part (Owner_text_part a m i n) = (n \<noteq> 1)"
| "real_part e = True"

lemma show_nat_Cons: "\<exists>d<10. \<exists>cs. show_nat n = digit_char d # cs"
proof (induction n rule: show_nat.induct)
  case (1 n)
  then show ?case by (cases "n < 10") (auto simp: show_nat.simps[of n])
qed

lemma digit_char_letter:
  assumes "d < 10" shows "digit_char d \<noteq> CHR ''o''" "digit_char d \<noteq> CHR ''m''" "digit_char d \<noteq> CHR ''e''"
proof -
  have "d = 0 \<or> d = 1 \<or> d = 2 \<or> d = 3 \<or> d = 4 \<or> d = 5 \<or> d = 6 \<or> d = 7 \<or> d = 8 \<or> d = 9"
    using assms by arith
  then show "digit_char d \<noteq> CHR ''o''" "digit_char d \<noteq> CHR ''m''" "digit_char d \<noteq> CHR ''e''"
    by (auto simp: digit_char_def char_of_def)
qed

lemma show_int_letter [simp]:
  "show_int i @ xs \<noteq> CHR ''o'' # ys" "show_int i @ xs \<noteq> CHR ''m'' # ys" "show_int i @ xs \<noteq> CHR ''e'' # ys"
  "show_int i \<noteq> CHR ''o'' # ys" "show_int i \<noteq> CHR ''m'' # ys" "show_int i \<noteq> CHR ''e'' # ys"
  "CHR ''o'' # ys \<noteq> show_int i @ xs" "CHR ''m'' # ys \<noteq> show_int i @ xs" "CHR ''e'' # ys \<noteq> show_int i @ xs"
  "CHR ''o'' # ys \<noteq> show_int i" "CHR ''m'' # ys \<noteq> show_int i" "CHR ''e'' # ys \<noteq> show_int i"
proof -
  consider cs where "show_int i = CHR ''-'' # cs"
    | d cs where "d < 10" "show_int i = digit_char d # cs"
    by (metis show_int_def show_nat_Cons)
  then show "show_int i @ xs \<noteq> CHR ''o'' # ys" "show_int i @ xs \<noteq> CHR ''m'' # ys"
    "show_int i @ xs \<noteq> CHR ''e'' # ys" "show_int i \<noteq> CHR ''o'' # ys" "show_int i \<noteq> CHR ''m'' # ys"
    "show_int i \<noteq> CHR ''e'' # ys" "CHR ''o'' # ys \<noteq> show_int i @ xs" "CHR ''m'' # ys \<noteq> show_int i @ xs"
    "CHR ''e'' # ys \<noteq> show_int i @ xs" "CHR ''o'' # ys \<noteq> show_int i" "CHR ''m'' # ys \<noteq> show_int i"
    "CHR ''e'' # ys \<noteq> show_int i"
    by (cases; auto simp: digit_char_letter dest: sym)+
qed

lemma show_int_sep [simp]:
  "show_int i @ CHR '':'' # xs = show_int j @ CHR '':'' # ys \<longleftrightarrow> i = j \<and> xs = ys"
  by (simp add: sep_append_inject)

lemma show_int_no_sep [simp]:
  "show_int i \<noteq> show_int j @ CHR '':'' # ys" "show_int j @ CHR '':'' # ys \<noteq> show_int i"
  using show_int_no_colon[of i] by (metis in_set_conv_decomp)+

lemmas key_defs = max_source_key_def send_source_key_def router_source_key_def edit_source_key_def
  delete_source_key_def album_sweep_source_key_def max_delete_source_key_def max_edit_source_key_def
  owner_reaction_source_key_def owner_emoji_note_source_key_def max_reaction_note_source_key_def
  owner_album_source_key_def echo_source_key_def album_echo_source_key_def text_part_source_key_def
  owner_album_namespace_def expected_album_namespace_def echo_album_namespace_def

lemma ns_text_inject [simp]: "ns_text m = ns_text n \<longleftrightarrow> m = n"
  by (cases m; cases n) (auto simp: key_defs)

lemma ns_text_sep:
  "ns_text m @ CHR '':'' # show_int p @ CHR '':'' # f = ns_text n @ CHR '':'' # show_int q @ CHR '':'' # g
     \<longleftrightarrow> m = n \<and> p = q \<and> f = g"
  by (cases m; cases n) (auto simp: key_defs)

lemma ns_text_int [simp]:
  "show_int i \<noteq> ns_text n" "ns_text n \<noteq> show_int i"
  "show_int i @ CHR '':'' # xs \<noteq> ns_text n" "ns_text n \<noteq> show_int i @ CHR '':'' # xs"
  "show_int i @ CHR '':'' # xs \<noteq> ns_text n @ ys" "ns_text n @ ys \<noteq> show_int i @ CHR '':'' # xs"
  by (cases n; auto simp: key_defs)+

lemma ref_text_inject [simp]: "ref_text r = ref_text s \<longleftrightarrow> r = s"
  by (cases r; cases s) auto

lemma ref_text_sep:
  "ref_text r @ CHR '':'' # show_int p @ CHR '':'' # f = ref_text s @ CHR '':'' # show_int q @ CHR '':'' # g
     \<longleftrightarrow> r = s \<and> p = q \<and> f = g"
  by (cases r; cases s) (auto simp: ns_text_sep)

text \<open>C9. No two events share a queue key: over every kind of job the bridge files - messages of both
  directions and both intakes, text parts, albums, edits, deletes, reactions, notes, echoes, sweeps
  - equal source keys mean the same event. A replay therefore finds its own job and never another
  event's.\<close>

theorem source_keys_injective:
  assumes "event_key e = event_key e'" "real_part e" "real_part e'"
  shows "e = e'"
  using assms by (cases e; cases e') (auto simp: key_defs ref_text_sep)

theorem source_keys_injective_witness:
  "event_key (Owner_text_part 5 7 0 2) \<noteq> event_key (Owner_text_part 5 7 1 2)"
  using source_keys_injective[of "Owner_text_part 5 7 0 2" "Owner_text_part 5 7 1 2"] by fastforce

end
