(* ===== verification/Outbox_Laws.thy ===== *)
theory Outbox_Laws
  imports Outbox SourceKeys
begin

section \<open>Laws of the delivery queue\<close>

text \<open>
  The invariant every repository method keeps, the loops of the recovery methods as single
  updates, and the properties the two senders rely on: one job per source event, exclusive
  claims, order, settled jobs left alone, recovery by the send mark.
\<close>

subsection \<open>The invariant\<close>

text \<open>
  A job is leased exactly while it is in flight, a delivered or expired job holds no payload and
  attempts are never negative.
\<close>

definition item_ok :: "outbox_item \<Rightarrow> bool" where
  "item_ok r \<longleftrightarrow> (ob_lease_expires_at r \<noteq> None \<longleftrightarrow> ob_state r = INFLIGHT)
     \<and> (ob_state r \<in> {DONE, EXPIRED} \<longrightarrow> ob_payload r = cleared) \<and> 0 \<le> ob_attempts r"

definition queue_ok :: "outbox \<Rightarrow> bool" where
  "queue_ok ob \<longleftrightarrow> outbox_ok ob \<and> (\<forall>r\<in>set (rows ob). item_ok r)"

lemma queue_okD [dest]: "queue_ok ob \<Longrightarrow> outbox_ok ob"
  by (simp add: queue_ok_def)

lemma queue_ok_item: "queue_ok ob \<Longrightarrow> r \<in> set (rows ob) \<Longrightarrow> item_ok r"
  by (simp add: queue_ok_def)

lemma queue_ok_empty [simp, intro]: "queue_ok empty_tbl"
  by (simp add: queue_ok_def empty_tbl_def tbl_ok_def no_clash_def)

lemma ob_id_unique:
  "queue_ok ob \<Longrightarrow> a \<in> set (rows ob) \<Longrightarrow> b \<in> set (rows ob) \<Longrightarrow> ob_id a = ob_id b \<Longrightarrow> a = b"
  by (metis queue_okD tbl_id_unique)

lemma ob_key_unique:
  "queue_ok ob \<Longrightarrow> a \<in> set (rows ob) \<Longrightarrow> b \<in> set (rows ob) \<Longrightarrow> ob_source_key a = Some k
     \<Longrightarrow> ob_source_key b = Some k \<Longrightarrow> a = b"
  by (rule tbl_no_clash[of ob_id ob_clash ob]) (auto simp: ob_clash_def)

lemma one_by_id: "queue_ok ob \<Longrightarrow> r \<in> set (rows ob) \<Longrightarrow> tbl_one (\<lambda>x. ob_id x = ob_id r) ob = Some r"
  by (metis queue_okD tbl_one_by_id)

lemma by_source_key_SomeD:
  "by_source_key k ob = Some r \<Longrightarrow> r \<in> set (rows ob) \<and> ob_source_key r = Some k"
  by (auto simp: by_source_key_def has_key_def dest: tbl_one_Some)

lemma by_source_key_None:
  "by_source_key k ob = None \<longleftrightarrow> (\<forall>r\<in>set (rows ob). ob_source_key r \<noteq> Some k)"
  by (auto simp: by_source_key_def has_key_def tbl_one_None)

lemma by_source_key_eq:
  assumes "queue_ok ob" "r \<in> set (rows ob)" "ob_source_key r = Some k"
  shows "by_source_key k ob = Some r"
proof -
  obtain r' where "by_source_key k ob = Some r'"
    using assms by (cases "by_source_key k ob") (auto simp: by_source_key_None)
  then show ?thesis using by_source_key_SomeD ob_key_unique[OF assms(1)] assms(2,3) by metis
qed

text \<open>An UPDATE that leaves id and key alone and keeps each row well formed keeps the invariant.\<close>

lemma queue_ok_update [inv_intro]:
  assumes "queue_ok ob"
    and keep: "\<And>r. ob_id (f r) = ob_id r" "\<And>r. ob_source_key (f r) = ob_source_key r"
    and item: "\<And>r. r \<in> set (rows ob) \<Longrightarrow> P r \<Longrightarrow> item_ok r \<Longrightarrow> item_ok (f r)"
  shows "queue_ok (tbl_update P f ob)"
proof -
  have "outbox_ok (tbl_update P f ob)"
    using assms(1) keep by (intro tbl_ok_update_plain) (auto simp: ob_clash_def)
  then show ?thesis using assms(1) item by (auto simp: queue_ok_def)
qed

lemma queue_ok_on_id [inv_intro]:
  assumes "queue_ok ob" "\<And>r. ob_id (f r) = ob_id r" "\<And>r. ob_source_key (f r) = ob_source_key r"
    and "\<And>r. r \<in> set (rows ob) \<Longrightarrow> ob_id r = i \<Longrightarrow> item_ok r \<Longrightarrow> item_ok (f r)"
  shows "queue_ok (on_id i f ob)"
  using assms unfolding on_id_def by (intro queue_ok_update) auto

lemma queue_ok_insert:
  assumes "queue_ok ob" and id: "\<And>i. ob_id (mk i) = i" and item: "\<And>i. item_ok (mk i)"
    and free: "\<And>r i. r \<in> set (rows ob) \<Longrightarrow> ob_source_key r = None \<or> ob_source_key r \<noteq> ob_source_key (mk i)"
  shows "queue_ok (snd (tbl_insert mk ob))"
proof -
  have "outbox_ok (snd (tbl_insert mk ob))"
    using assms by (intro tbl_ok_insert) (auto simp: ob_clash_def)
  then show ?thesis using assms(1) item by (auto simp: queue_ok_def)
qed

lemma queue_ok_delete [inv_intro]: "queue_ok ob \<Longrightarrow> queue_ok (tbl_delete P ob)"
  by (auto simp: queue_ok_def intro: tbl_ok_delete)

lemma new_item_simps [simp]:
  "ob_id (new_item now b d k p due st key ttl lease i) = i"
  "ob_source_key (new_item now b d k p due st key ttl lease i) = key"
  "ob_state (new_item now b d k p due st key ttl lease i) = st"
  "ob_bridge_name (new_item now b d k p due st key ttl lease i) = b"
  "ob_direction (new_item now b d k p due st key ttl lease i) = d"
  "ob_lease_expires_at (new_item now b d k p due st key ttl lease i) = lease"
  "ob_attempts (new_item now b d k p due st key ttl lease i) = 0"
  "ob_payload (new_item now b d k p due st key ttl lease i) = p"
  "ob_send_started_at (new_item now b d k p due st key ttl lease i) = None"
  by (simp_all add: new_item_def)

lemma queue_ok_enqueue: "queue_ok ob \<Longrightarrow> queue_ok (snd (enqueue now b d k p dl key ttl ob))"
  by (auto simp: enqueue_def by_source_key_None item_ok_def split: option.splits
      intro!: queue_ok_insert)

text \<open>One step of the batch is \<open>enqueue\<close> without a delay.\<close>

lemma enqueue_batch_Cons:
  "enqueue_batch now b d ((k, p, key) # items) ttl ob =
     (let (i, ob1) = enqueue now b d k p 0 (Some key) ttl ob;
          (is, ob2) = enqueue_batch now b d items ttl ob1 in (i # is, ob2))"
  by (simp add: enqueue_def split: option.split)

declare enqueue_batch.simps(2) [simp del]

lemma queue_ok_enqueue_batch: "queue_ok ob \<Longrightarrow> queue_ok (snd (enqueue_batch now b d items ttl ob))"
proof (induction items arbitrary: ob)
  case (Cons x items)
  obtain k p key where x: "x = (k, p, key)" by (cases x)
  have "queue_ok (snd (enqueue now b d k p 0 (Some key) ttl ob))"
    using Cons.prems by (rule queue_ok_enqueue)
  then show ?case by (simp add: x enqueue_batch_Cons split_beta Let_def Cons.IH)
qed simp

lemma queue_ok_claim: "queue_ok ob \<Longrightarrow> queue_ok (snd (claim_for_attempt now b d k p key ttl l ob))"
  by (auto simp: claim_for_attempt_def Let_def by_source_key_None item_ok_def split_beta
      split: option.splits intro!: queue_ok_update queue_ok_insert)

lemma due_prefixD:
  assumes "r \<in> set (due_prefix now b n ob)"
  shows "r \<in> set (rows ob) \<and> ob_bridge_name r = b \<and> ob_state r = PENDING \<and> ob_next_attempt_at r \<le> now"
  using assms by (auto simp: due_prefix_def tbl_select_def dest!: set_takeWhileD in_set_takeD)

lemma queue_ok_claim_due: "queue_ok ob \<Longrightarrow> queue_ok (snd (claim_due now b n l ob))"
proof -
  assume ok: "queue_ok ob"
  have "item_ok (x\<lparr>ob_state := INFLIGHT, ob_lease_expires_at := Some (now + l), ob_updated_at := now\<rparr>)"
    if "item_ok x" for x using that by (simp add: item_ok_def)
  with ok show ?thesis by (simp add: claim_due_def Let_def queue_ok_update)
qed

lemma queue_ok_marks:
  assumes "queue_ok ob"
  shows "queue_ok (mark_done now i rid ob)" "queue_ok (mark_sending now i ob)"
    "queue_ok (mark_ambiguous now i e ob)" "queue_ok (mark_expired now i ob)"
    "queue_ok (back_to_pending now i ob)" "queue_ok (mark_retry now i dl e c ob)"
    "queue_ok (mark_failed now i e ob)" "queue_ok (defer_job now i dl ob)"
  using assms
  by (auto simp: mark_done_def mark_sending_def mark_ambiguous_def mark_expired_def back_to_pending_def
      mark_retry_def mark_failed_def defer_job_def item_ok_def intro!: queue_ok_on_id)

lemma queue_ok_recover: "queue_ok ob \<Longrightarrow> queue_ok (snd (recover_rows now rs n ob))"
proof (induction rs arbitrary: n ob)
  case Nil then show ?case by simp
next
  case (Cons r rs) then show ?case by (cases n) (simp add: queue_ok_marks)
qed

lemma queue_ok_expire: "queue_ok ob \<Longrightarrow> queue_ok (fold (mark_expired now) ids ob)"
  by (induction ids arbitrary: ob) (simp_all add: queue_ok_marks)

lemma queue_ok_decisions:
  assumes ok: "queue_ok ob"
  shows "queue_ok (snd (retry_now now i ob))" "queue_ok (snd (resolve now i ob))"
    "queue_ok (snd (archive now i why ob))"
proof -
  have one: "x = r" if "tbl_one (\<lambda>r. ob_id r = i) ob = Some r" "x \<in> set (rows ob)" "ob_id x = i" for r x
    using that ok by (auto dest!: tbl_one_Some intro: ob_id_unique)
  show "queue_ok (snd (retry_now now i ob))"
    using ok by (auto simp: retry_now_def item_ok_def split: option.splits intro!: queue_ok_on_id)
  show "queue_ok (snd (resolve now i ob))"
  proof (cases "tbl_one (\<lambda>r. ob_id r = i) ob")
    case (Some r)
    then show ?thesis using ok one[OF Some]
      by (auto simp: resolve_def intro!: queue_ok_on_id) (auto simp: item_ok_def)
  qed (simp add: resolve_def ok)
  show "queue_ok (snd (archive now i why ob))"
  proof (cases "tbl_one (\<lambda>r. ob_id r = i) ob")
    case (Some r)
    then show ?thesis using ok one[OF Some]
      by (auto simp: archive_def Let_def intro!: queue_ok_on_id) (auto simp: item_ok_def)
  qed (simp add: archive_def ok)
qed

lemma queue_ok_conditional:
  assumes "queue_ok ob"
  shows "queue_ok (snd (cancel_pending now key why ob))"
    "queue_ok (snd (replace_pending_payload now key p ob))"
    "queue_ok (snd (replace_failed_payload now key p ob))"
  using assms
  by (auto simp: cancel_pending_def replace_pending_payload_def replace_failed_payload_def unsent_def
      item_ok_def Let_def intro!: queue_ok_update)

lemmas queue_ok_ops = queue_ok_enqueue queue_ok_enqueue_batch queue_ok_claim queue_ok_claim_due
  queue_ok_marks queue_ok_recover queue_ok_expire queue_ok_decisions queue_ok_conditional queue_ok_delete

subsection \<open>Sequences of calls\<close>

text \<open>
  Every method that writes, as a value, and the state after one call and after a run of calls,
  each with its own clock reading. The run is the table's history as the database lock
  serialises it.
\<close>

datatype ob_call =
    C_enqueue string direction string json int "string option" "int option"
  | C_enqueue_batch string direction "(string \<times> json \<times> string) list" "int option"
  | C_claim_for_attempt string direction string json string "int option" int
  | C_claim_due string nat int
  | C_done int "int option"
  | C_sending int
  | C_ambiguous int string
  | C_expired int
  | C_reclaim
  | C_requeue
  | C_expire_overdue
  | C_retry_now int
  | C_resolve int
  | C_archive int string
  | C_retry int int string bool
  | C_failed int string
  | C_defer int int
  | C_forget string int
  | C_cancel string string
  | C_replace_pending string json
  | C_replace_failed string json

fun ob_exec :: "int \<Rightarrow> ob_call \<Rightarrow> outbox \<Rightarrow> outbox" where
  "ob_exec now (C_enqueue b d k p dl key ttl) ob = snd (enqueue now b d k p dl key ttl ob)"
| "ob_exec now (C_enqueue_batch b d items ttl) ob = snd (enqueue_batch now b d items ttl ob)"
| "ob_exec now (C_claim_for_attempt b d k p key ttl l) ob =
     snd (claim_for_attempt now b d k p key ttl l ob)"
| "ob_exec now (C_claim_due b n l) ob = snd (claim_due now b n l ob)"
| "ob_exec now (C_done i r) ob = mark_done now i r ob"
| "ob_exec now (C_sending i) ob = mark_sending now i ob"
| "ob_exec now (C_ambiguous i e) ob = mark_ambiguous now i e ob"
| "ob_exec now (C_expired i) ob = mark_expired now i ob"
| "ob_exec now C_reclaim ob = snd (reclaim_expired_leases now ob)"
| "ob_exec now C_requeue ob = snd (requeue_inflight now ob)"
| "ob_exec now C_expire_overdue ob = snd (expire_overdue now ob)"
| "ob_exec now (C_retry_now i) ob = snd (retry_now now i ob)"
| "ob_exec now (C_resolve i) ob = snd (resolve now i ob)"
| "ob_exec now (C_archive i why) ob = snd (archive now i why ob)"
| "ob_exec now (C_retry i dl e c) ob = mark_retry now i dl e c ob"
| "ob_exec now (C_failed i e) ob = mark_failed now i e ob"
| "ob_exec now (C_defer i dl) ob = defer_job now i dl ob"
| "ob_exec now (C_forget b chat) ob = snd (forget_settled_from_max b chat ob)"
| "ob_exec now (C_cancel key why) ob = snd (cancel_pending now key why ob)"
| "ob_exec now (C_replace_pending key p) ob = snd (replace_pending_payload now key p ob)"
| "ob_exec now (C_replace_failed key p) ob = snd (replace_failed_payload now key p ob)"

fun ob_run :: "(int \<times> ob_call) list \<Rightarrow> outbox \<Rightarrow> outbox" where
  "ob_run [] ob = ob"
| "ob_run ((now, c) # cs) ob = ob_run cs (ob_exec now c ob)"

lemma queue_ok_exec [inv_intro]: "queue_ok ob \<Longrightarrow> queue_ok (ob_exec now c ob)"
  by (cases c) (simp_all add: queue_ok_ops reclaim_expired_leases_def requeue_inflight_def
      expire_overdue_def forget_settled_from_max_def Let_def)

lemma queue_ok_run [inv_intro]: "queue_ok ob \<Longrightarrow> queue_ok (ob_run cs ob)"
  by (induction cs ob rule: ob_run.induct) (simp_all add: queue_ok_exec)

text \<open>C7. Whatever sequence of queue methods runs, starting from the empty table, the queue stays
  well formed: row ids ascend and are unique, no two jobs share a source key, a job holds a lease
  exactly while it is in flight, a delivered or expired job keeps no payload, and attempt counts
  never go negative.\<close>

theorem outbox_invariant: "queue_ok (ob_run cs empty_tbl)"
  by (rule queue_ok_run) simp

text \<open>A small queue the witnesses below use: a pending job, one in flight whose remote call has begun,
  and one in flight whose call has not.\<close>

definition example_queue :: outbox where
  "example_queue = ob_run
     [(0, C_enqueue ''b'' MAX_TO_TG ''max_to_tg_text'' (JStr ''one'') 0 (Some ''max:1:1'') (Some 100)),
      (1, C_claim_for_attempt ''b'' MAX_TO_TG ''max_to_tg_text'' (JStr ''two'') ''max:1:2'' None 50),
      (2, C_sending 2),
      (3, C_claim_for_attempt ''b'' TG_TO_MAX ''tg_to_max_text'' (JStr ''three'') ''tg:7:3'' None 50)] empty_tbl"

lemma example_queue_ok: "queue_ok example_queue"
  unfolding example_queue_def by (rule queue_ok_run) simp

subsection \<open>Recovery loops as single updates\<close>

definition recover_item :: "int \<Rightarrow> outbox_item \<Rightarrow> outbox_item" where
  "recover_item now r =
     (if ob_send_started_at r \<noteq> None
      then r\<lparr>ob_state := AMBIGUOUS, ob_attempts := ob_attempts r + 1, ob_ambiguous_at := Some now,
             ob_lease_expires_at := None, ob_last_error := Some DIED_SENDING, ob_updated_at := now\<rparr>
      else r\<lparr>ob_state := PENDING, ob_lease_expires_at := None, ob_updated_at := now\<rparr>)"

lemma recover_item_keep [simp]:
  "ob_id (recover_item now r) = ob_id r" "ob_source_key (recover_item now r) = ob_source_key r"
  "ob_send_started_at (recover_item now r) = ob_send_started_at r"
  "ob_state (recover_item now r) \<noteq> INFLIGHT" "INFLIGHT \<noteq> ob_state (recover_item now r)"
  by (simp_all add: recover_item_def)

lemma take_died [simp]: "take 500 DIED_SENDING = DIED_SENDING"
  by (simp add: DIED_SENDING_def)

lemma recover_one:
  assumes "queue_ok ob" "r \<in> set (rows ob)"
  shows "(if ob_send_started_at r \<noteq> None then mark_ambiguous now (ob_id r) DIED_SENDING ob
          else back_to_pending now (ob_id r) ob) = tbl_update (\<lambda>x. ob_id x = ob_id r) (recover_item now) ob"
proof -
  have same: "x = r" if "x \<in> set (rows ob)" "ob_id x = ob_id r" for x
    using that assms by (auto intro: ob_id_unique)
  show ?thesis
    by (auto simp: mark_ambiguous_def back_to_pending_def on_id_def recover_item_def
        intro!: tbl_update_cong dest: same)
qed

lemma recover_rows_update:
  assumes "queue_ok ob" "set rs \<subseteq> set (rows ob)" "distinct (map ob_id rs)"
  shows "recover_rows now rs (q, a) ob =
    ((q + int (length (filter (\<lambda>r. ob_send_started_at r = None) rs)),
      a + int (length (filter (\<lambda>r. ob_send_started_at r \<noteq> None) rs))),
     tbl_update (\<lambda>x. ob_id x \<in> ob_id ` set rs) (recover_item now) ob)"
  using assms
proof (induction rs arbitrary: q a ob)
  case Nil
  then show ?case by (simp add: tbl_update_def)
next
  case (Cons r rs)
  let ?ob1 = "tbl_update (\<lambda>x. ob_id x = ob_id r) (recover_item now) ob"
  have r: "r \<in> set (rows ob)" using Cons.prems by simp
  have ok1: "queue_ok ?ob1"
    unfolding recover_one[OF Cons.prems(1) r, symmetric] using Cons.prems(1) by (simp add: queue_ok_marks)
  have "set rs \<subseteq> set (rows ?ob1)"
  proof
    fix x assume "x \<in> set rs"
    then have "x \<in> set (rows ob)" "ob_id x \<noteq> ob_id r" using Cons.prems(2,3) by (auto simp: image_iff)
    then show "x \<in> set (rows ?ob1)" by (auto simp: image_iff intro!: bexI[of _ x])
  qed
  note IH = Cons.IH[OF ok1 this]
  have merge: "tbl_update (\<lambda>x. ob_id x \<in> ob_id ` set rs) (recover_item now) ?ob1
      = tbl_update (\<lambda>x. ob_id x \<in> ob_id ` set (r # rs)) (recover_item now) ob"
    using Cons.prems(3) by (subst tbl_update_twice) (auto intro!: tbl_update_cong)
  show ?case
    using Cons.prems(3) recover_one[OF Cons.prems(1) r, of now] IH merge
    by (cases "ob_send_started_at r") simp_all
qed

lemma select_ids:
  assumes "queue_ok ob" "x \<in> set (rows ob)"
  shows "ob_id x \<in> ob_id ` set (tbl_select P ob) \<longleftrightarrow> P x"
proof
  assume "ob_id x \<in> ob_id ` set (tbl_select P ob)"
  then obtain y where "y \<in> set (rows ob)" "P y" "ob_id x = ob_id y" by (auto simp: tbl_select_def)
  then show "P x" using ob_id_unique[OF assms(1,2)] by metis
qed (use assms(2) in \<open>auto simp: tbl_select_def\<close>)

lemma distinct_select: "queue_ok ob \<Longrightarrow> distinct (map ob_id (tbl_select P ob))"
  by (metis distinct_map_filter queue_okD tbl_ok_distinct tbl_select_def)

lemma recover_select:
  assumes "queue_ok ob"
  shows "recover_rows now (tbl_select P ob) (0, 0) ob =
    ((tbl_count (\<lambda>r. P r \<and> ob_send_started_at r = None) ob,
      tbl_count (\<lambda>r. P r \<and> ob_send_started_at r \<noteq> None) ob),
     tbl_update P (recover_item now) ob)"
proof -
  have eq: "tbl_update (\<lambda>x. ob_id x \<in> ob_id ` set (tbl_select P ob)) (recover_item now) ob
      = tbl_update P (recover_item now) ob"
    by (rule tbl_update_cong) (simp_all add: select_ids assms)
  have "set (tbl_select P ob) \<subseteq> set (rows ob)" by (auto simp: tbl_select_def)
  then show ?thesis
    by (simp only: recover_rows_update[OF assms _ distinct_select[OF assms]] eq)
      (simp add: tbl_count_def tbl_select_def)
qed

lemmas recover_as_update = reclaim_expired_leases_def requeue_inflight_def recover_select

text \<open>C6. Startup recovery judges every interrupted job by its mark and nothing else: after
  \<open>requeue_inflight\<close> no job is in flight; a job whose remote call had begun (\<open>send_started_at\<close>
  set) is AMBIGUOUS, one whose call had not is PENDING again with its attempts unspent, every other
  row is untouched, and the two counts returned are exactly those two populations.\<close>

theorem crash_recovery_by_mark:
  assumes "queue_ok ob" and "requeue_inflight now ob = ((requeued, ambiguous), ob')"
  shows "rows ob' = map (\<lambda>r. if ob_state r = INFLIGHT then recover_item now r else r) (rows ob)
    \<and> (\<forall>r\<in>set (rows ob'). ob_state r \<noteq> INFLIGHT)
    \<and> requeued = tbl_count (\<lambda>r. ob_state r = INFLIGHT \<and> ob_send_started_at r = None) ob
    \<and> ambiguous = tbl_count (\<lambda>r. ob_state r = INFLIGHT \<and> ob_send_started_at r \<noteq> None) ob"
  using assms(2) recover_select[OF assms(1)] by (auto simp: requeue_inflight_def)

theorem crash_recovery_by_mark_witness:
  "fst (requeue_inflight 9 example_queue) = (1, 1)
   \<and> filter (\<lambda>r. ob_state r = INFLIGHT) (rows (snd (requeue_inflight 9 example_queue))) = []"
proof -
  have c: "fst (requeue_inflight 9 example_queue) = (1, 1)" by code_simp
  then have e: "requeue_inflight 9 example_queue = ((1, 1), snd (requeue_inflight 9 example_queue))"
    by (simp add: prod_eq_iff)
  show ?thesis using crash_recovery_by_mark[OF example_queue_ok e] c unfolding filter_empty_conv by blast
qed

text \<open>Lease recovery while the process is up takes exactly the in-flight jobs whose lease has run
  out and judges them by the same mark; a job whose lease still holds is untouched. Since a job is
  in flight exactly while it has a lease, no in-flight job is beyond its reach: once the clock has
  passed every lease, none is left in flight.\<close>

theorem lease_recovery:
  assumes "queue_ok ob" and "reclaim_expired_leases now ob = ((requeued, ambiguous), ob')"
  shows "rows ob' = map (\<lambda>r. if ob_state r = INFLIGHT \<and> the (ob_lease_expires_at r) \<le> now
                              then recover_item now r else r) (rows ob)
    \<and> requeued + ambiguous = tbl_count (\<lambda>r. ob_state r = INFLIGHT \<and> the (ob_lease_expires_at r) \<le> now) ob
    \<and> (\<forall>r\<in>set (rows ob'). ob_state r = INFLIGHT \<longrightarrow> now < the (ob_lease_expires_at r))"
proof -
  let ?P = "\<lambda>r. ob_state r = INFLIGHT \<and> (case ob_lease_expires_at r of None \<Rightarrow> False | Some e \<Rightarrow> e \<le> now)"
  have P: "?P r \<longleftrightarrow> ob_state r = INFLIGHT \<and> the (ob_lease_expires_at r) \<le> now" if "r \<in> set (rows ob)" for r
    using queue_ok_item[OF assms(1) that] by (auto simp: item_ok_def split: option.splits)
  have ob': "ob' = tbl_update ?P (recover_item now) ob"
    and q: "requeued = tbl_count (\<lambda>r. ?P r \<and> ob_send_started_at r = None) ob"
    and a: "ambiguous = tbl_count (\<lambda>r. ?P r \<and> ob_send_started_at r \<noteq> None) ob"
    using assms(2) recover_select[OF assms(1), of now ?P] by (auto simp: reclaim_expired_leases_def)
  have "requeued + ambiguous = tbl_count ?P ob"
    unfolding q a by (rule tbl_count_split)
  moreover have "tbl_count ?P ob = tbl_count (\<lambda>r. ob_state r = INFLIGHT \<and> the (ob_lease_expires_at r) \<le> now) ob"
    by (rule tbl_count_cong) (rule P)
  ultimately show ?thesis
    using P by (auto simp: ob' not_le)
qed

theorem lease_recovery_witness:
  "fst (reclaim_expired_leases 52 example_queue) = (0, 1)
   \<and> filter (\<lambda>r. ob_state r = INFLIGHT \<and> the (ob_lease_expires_at r) \<le> 52)
        (rows (snd (reclaim_expired_leases 52 example_queue))) = []"
proof -
  have c: "fst (reclaim_expired_leases 52 example_queue) = (0, 1)" by code_simp
  then have e: "reclaim_expired_leases 52 example_queue = ((0, 1), snd (reclaim_expired_leases 52 example_queue))"
    by (simp add: prod_eq_iff)
  show ?thesis using lease_recovery[OF example_queue_ok e] c unfolding filter_empty_conv not_le[symmetric] by blast
qed

subsection \<open>Expiry\<close>

definition expired_item :: "int \<Rightarrow> outbox_item \<Rightarrow> outbox_item" where
  "expired_item now r = r\<lparr>ob_state := EXPIRED, ob_lease_expires_at := None, ob_payload := cleared,
     ob_last_error := Some TTL_EXPIRED, ob_updated_at := now\<rparr>"

lemma fold_on_id:
  assumes "\<And>r. ob_id (f r) = ob_id r" "distinct ids"
  shows "fold (\<lambda>i. on_id i f) ids ob = tbl_update (\<lambda>r. ob_id r \<in> set ids) f ob"
  using assms(2)
proof (induction ids arbitrary: ob)
  case Nil
  then show ?case by (simp add: tbl_update_def)
next
  case (Cons i ids)
  then show ?case
    using assms(1) by (auto simp: on_id_def tbl_update_twice intro!: tbl_update_cong)
qed

text \<open>The TTL sweep retires exactly the pending jobs past their \<open>expires_at\<close>, clearing their
  payload and saying why; a job in flight, settled or without a TTL is untouched, and the number
  returned is the number retired.\<close>

theorem expire_overdue_exact:
  assumes "queue_ok ob"
  shows "expire_overdue now ob = (tbl_count (overdue now) ob, tbl_update (overdue now) (expired_item now) ob)"
proof -
  have "mark_expired now = (\<lambda>i. on_id i (expired_item now))"
    by (simp add: mark_expired_def expired_item_def[abs_def] fun_eq_iff)
  moreover have "tbl_update (\<lambda>x. ob_id x \<in> set (map ob_id (tbl_select (overdue now) ob))) (expired_item now) ob
      = tbl_update (overdue now) (expired_item now) ob"
    using select_ids[OF assms] by (intro tbl_update_cong) simp_all
  ultimately show ?thesis
    using fold_on_id[of "expired_item now", OF _ distinct_select[OF assms]]
    by (simp add: expire_overdue_def Let_def expired_item_def tbl_count_def tbl_select_def)
qed


subsection \<open>Settled jobs\<close>

definition settled :: "outbox_item \<Rightarrow> bool" where
  "settled r \<longleftrightarrow> ob_state r \<notin> {PENDING, INFLIGHT}"

text \<open>The calls the machinery makes on its own: intake, both senders' claims, recovery, expiry and the
  pre-remote conditional writes; not the settling of one attempt and not an owner's decision.\<close>

fun automatic :: "ob_call \<Rightarrow> bool" where
  "automatic (C_enqueue b d k p dl key ttl) = True"
| "automatic (C_enqueue_batch b d items ttl) = True"
| "automatic (C_claim_for_attempt b d k p key ttl l) = True"
| "automatic (C_claim_due b n l) = True"
| "automatic C_reclaim = True"
| "automatic C_requeue = True"
| "automatic C_expire_overdue = True"
| "automatic (C_cancel key why) = True"
| "automatic (C_replace_pending key p) = True"
| "automatic c = False"

lemma enqueue_keeps: "r \<in> set (rows ob) \<Longrightarrow> r \<in> set (rows (snd (enqueue now b d k p dl key ttl ob)))"
  by (auto simp: enqueue_def split: option.splits)

lemma enqueue_batch_keeps:
  "r \<in> set (rows ob) \<Longrightarrow> r \<in> set (rows (snd (enqueue_batch now b d items ttl ob)))"
proof (induction items arbitrary: ob)
  case (Cons x items)
  obtain k p key where x: "x = (k, p, key)" by (cases x)
  have "r \<in> set (rows (snd (enqueue now b d k p 0 (Some key) ttl ob)))"
    using Cons.prems by (rule enqueue_keeps)
  then show ?case by (simp add: x enqueue_batch_Cons split_beta Let_def Cons.IH)
qed simp

lemma update_keeps: "r \<in> set (rows t) \<Longrightarrow> \<not> P r \<Longrightarrow> r \<in> set (rows (tbl_update P f t))"
  by (auto simp: image_iff intro!: bexI[of _ r])

lemma settled_other_id:
  assumes "queue_ok ob" "r \<in> set (rows ob)" "settled r" "x \<in> set (rows ob)" "\<not> settled x"
  shows "ob_id r \<noteq> ob_id x"
  using assms ob_id_unique by metis

lemma settled_keep_exec:
  assumes "queue_ok ob" "r \<in> set (rows ob)" "settled r" "automatic c"
  shows "r \<in> set (rows (ob_exec now c ob))"
proof (cases c)
  case (C_claim_for_attempt b d k p key ttl l)
  show ?thesis
  proof (cases "by_source_key key ob")
    case (Some x)
    then have "x \<in> set (rows ob)" by (auto dest: by_source_key_SomeD)
    then show ?thesis
      using assms Some settled_other_id[OF assms(1-3), of x]
      by (auto simp: C_claim_for_attempt claim_for_attempt_def Let_def settled_def simp del: rows_update
          intro!: update_keeps)
  qed (use assms in \<open>simp add: C_claim_for_attempt claim_for_attempt_def split_beta\<close>)
next
  case (C_claim_due b n l)
  have "ob_id r \<notin> ob_id ` set (due_prefix now b n ob)"
    using settled_other_id[OF assms(1-3)] by (auto dest!: due_prefixD simp: settled_def)
  then show ?thesis
    using assms by (auto simp: C_claim_due claim_due_def Let_def simp del: rows_update intro!: update_keeps)
next
  case C_expire_overdue
  then show ?thesis
    using assms by (auto simp: expire_overdue_exact settled_def overdue_def simp del: rows_update
        intro!: update_keeps)
qed (use assms in \<open>auto simp: enqueue_keeps enqueue_batch_keeps recover_as_update settled_def unsent_def
      cancel_pending_def replace_pending_payload_def simp del: rows_update intro!: update_keeps\<close>)



subsection \<open>Exclusive claims\<close>

lemma claimed_row:
  assumes "claim_for_attempt now b d k p key ttl l ob = ((i, True), ob1)"
  shows "\<exists>r\<in>set (rows ob1). ob_id r = i \<and> ob_source_key r = Some key \<and> ob_state r = INFLIGHT
           \<and> ob_lease_expires_at r = Some (now + l)"
proof (cases "by_source_key key ob")
  case None
  then show ?thesis using assms by (auto simp: claim_for_attempt_def tbl_insert_def new_item_def)
next
  case (Some r)
  then have r: "r \<in> set (rows ob)" "ob_source_key r = Some key" by (auto dest: by_source_key_SomeD)
  let ?r = "r\<lparr>ob_state := INFLIGHT, ob_lease_expires_at := Some (now + l), ob_updated_at := now\<rparr>"
  have "?r \<in> set (rows ob1)" and "ob_id r = i"
    using assms Some r(1) by (auto simp: claim_for_attempt_def Let_def image_iff split: if_splits
        intro!: bexI[of _ r])
  then show ?thesis using r(2) by (intro bexI[of _ ?r]) auto
qed

text \<open>C4. A claim is exclusive: once an inline caller has been told the job is its own, no second
  caller with the same source event is told so before the lease has run out, the worker's
  \<open>claim_due\<close> does not hand the job out, and the job can be neither cancelled nor have its payload
  swapped any more.\<close>

theorem claim_is_exclusive:
  assumes "queue_ok ob" and "claim_for_attempt now b d k p key ttl l ob = ((i, True), ob1)"
  shows "(now' < now + l \<longrightarrow> claim_for_attempt now' b' d' k' p' key ttl' l' ob1 = ((i, False), ob1))
    \<and> i \<notin> set (map ob_id (fst (claim_due now'' bridge n l'' ob1)))
    \<and> \<not> fst (cancel_pending now'' key why ob1) \<and> \<not> fst (replace_pending_payload now'' key q ob1)"
proof -
  have ok: "queue_ok ob1" using queue_ok_claim[OF assms(1)] assms(2) by (metis snd_conv)
  obtain r where r: "r \<in> set (rows ob1)" "ob_id r = i" "ob_source_key r = Some key"
      "ob_state r = INFLIGHT" "ob_lease_expires_at r = Some (now + l)"
    using claimed_row[OF assms(2)] by blast
  have key: "by_source_key key ob1 = Some r" using by_source_key_eq[OF ok r(1,3)] .
  have "i \<notin> set (map ob_id (due_prefix now'' bridge n ob1))"
    using ob_id_unique[OF ok r(1)] r(2,4) by (auto dest!: due_prefixD)
  moreover have "\<not> unsent key x" if "x \<in> set (rows ob1)" for x
    using that ob_key_unique[OF ok that r(1), of key] r by (auto simp: unsent_def)
  ultimately show ?thesis
    using key r
    by (auto simp: claim_for_attempt_def claim_due_def Let_def cancel_pending_def
        replace_pending_payload_def tbl_count_def filter_empty_conv)
qed


theorem claim_is_exclusive_witness:
  "claim_for_attempt 10 ''b'' MAX_TO_TG ''k'' JNull ''max:1:5'' None 50
       (snd (claim_for_attempt 0 ''b'' MAX_TO_TG ''k'' JNull ''max:1:5'' None 50 example_queue))
     = ((4, False), snd (claim_for_attempt 0 ''b'' MAX_TO_TG ''k'' JNull ''max:1:5'' None 50 example_queue))"
proof -
  have "fst (claim_for_attempt 0 ''b'' MAX_TO_TG ''k'' JNull ''max:1:5'' None 50 example_queue) = (4, True)" by code_simp
  then have e: "claim_for_attempt 0 ''b'' MAX_TO_TG ''k'' JNull ''max:1:5'' None 50 example_queue
      = ((4, True), snd (claim_for_attempt 0 ''b'' MAX_TO_TG ''k'' JNull ''max:1:5'' None 50 example_queue))"
    by (simp add: prod_eq_iff)
  show ?thesis using claim_is_exclusive[OF example_queue_ok e] by simp
qed

subsection \<open>Order\<close>

lemma due_prefix_split:
  assumes "queue_ok ob"
  shows "\<exists>rest. filter (\<lambda>r. ob_bridge_name r = b \<and> ob_state r = PENDING) (rows ob) = due_prefix now b n ob @ rest"
proof -
  let ?F = "filter (\<lambda>r. ob_bridge_name r = b \<and> ob_state r = PENDING) (rows ob)"
  have "sort_key ob_id (tbl_select (\<lambda>r. ob_bridge_name r = b \<and> ob_state r = PENDING) ob) = ?F"
    using sort_key_id[OF queue_okD[OF assms]] by (simp add: tbl_select_def)
  then have T: "due_prefix now b n ob = takeWhile (\<lambda>r. \<not> ob_next_attempt_at r > now) (take n ?F)"
    by (simp add: due_prefix_def)
  show ?thesis unfolding T
    by (rule exI[of _ "dropWhile (\<lambda>r. \<not> ob_next_attempt_at r > now) (take n ?F) @ drop n ?F"])
      (simp only: append_assoc[symmetric] takeWhile_dropWhile_id append_take_drop_id)
qed

lemma filter_ids_sorted:
  assumes "queue_ok ob" shows "sorted_wrt (<) (map ob_id (filter P (rows ob)))"
  using assms by (auto simp: queue_ok_def tbl_ok_def sorted_wrt_map intro: sorted_wrt_filter)

text \<open>The worker takes the head of the line: what \<open>claim_due\<close> hands out is at most \<open>limit\<close> pending
  jobs of the bridge, every one of them due, in id order, and with no gap - each pending job of the
  bridge older than a claimed one is claimed with it, so a head that is not due yet (a backoff)
  blocks everything behind it. Afterwards exactly these jobs are in flight under a lease until
  \<open>now + lease\<close> and every other row is unchanged.\<close>

theorem claim_due_takes_the_head:
  assumes "queue_ok ob" and "claim_due now b n l ob = (items, ob')"
  shows "length items \<le> n \<and> sorted_wrt (<) (map ob_id items)
    \<and> (\<forall>x\<in>set items. ob_bridge_name x = b \<and> ob_next_attempt_at x \<le> now)
    \<and> (\<forall>x\<in>set items. \<forall>r\<in>set (rows ob). ob_bridge_name r = b \<and> ob_state r = PENDING \<and> ob_id r < ob_id x
          \<longrightarrow> ob_id r \<in> set (map ob_id items))
    \<and> rows ob' = map (\<lambda>r. if ob_id r \<in> set (map ob_id items)
          then r\<lparr>ob_state := INFLIGHT, ob_lease_expires_at := Some (now + l), ob_updated_at := now\<rparr>
          else r) (rows ob)"
proof -
  let ?T = "due_prefix now b n ob" and ?F = "filter (\<lambda>r. ob_bridge_name r = b \<and> ob_state r = PENDING) (rows ob)"
  have items: "items = map (\<lambda>r. r\<lparr>ob_state := INFLIGHT\<rparr>) ?T"
    and ob': "rows ob' = map (\<lambda>r. if ob_id r \<in> set (map ob_id ?T)
          then r\<lparr>ob_state := INFLIGHT, ob_lease_expires_at := Some (now + l), ob_updated_at := now\<rparr>
          else r) (rows ob)"
    using assms(2) by (auto simp: claim_due_def Let_def split: if_splits)
  obtain rest where F: "?F = ?T @ rest" using due_prefix_split[OF assms(1)] by blast
  have sorted: "sorted_wrt (<) (map ob_id (?T @ rest))" using filter_ids_sorted[OF assms(1)] F by metis
  have "length (takeWhile P (take n xs)) \<le> n" for P :: "outbox_item \<Rightarrow> bool" and xs
    using length_takeWhile_le[of P "take n xs"] by simp
  then have len: "length ?T \<le> n" by (simp add: due_prefix_def)
  have gap: "ob_id r \<in> set (map ob_id ?T)"
    if "x \<in> set ?T" "r \<in> set (rows ob)" "ob_bridge_name r = b" "ob_state r = PENDING" "ob_id r < ob_id x"
    for x r
  proof -
    have "r \<in> set ?F" using that(2-4) by simp
    then have "r \<in> set (?T @ rest)" unfolding F .
    moreover have "r \<notin> set rest" using sorted that(1,5) by (force simp: sorted_wrt_append)
    ultimately show ?thesis by auto
  qed
  have ids: "map ob_id items = map ob_id ?T" by (simp add: items)
  show ?thesis
    using len sorted gap ob' unfolding ids by (auto simp: items sorted_wrt_append dest: due_prefixD)
qed

theorem claim_due_takes_the_head_witness:
  "map ob_id (fst (claim_due 5 ''b'' 3 50 example_queue)) = [1]
   \<and> list_all (\<lambda>x. ob_bridge_name x = ''b'' \<and> ob_next_attempt_at x \<le> 5)
        (fst (claim_due 5 ''b'' 3 50 example_queue))"
proof -
  have c: "map ob_id (fst (claim_due 5 ''b'' 3 50 example_queue)) = [1]" by code_simp
  have e: "claim_due 5 ''b'' 3 50 example_queue
      = (fst (claim_due 5 ''b'' 3 50 example_queue), snd (claim_due 5 ''b'' 3 50 example_queue))" by simp
  show ?thesis using claim_due_takes_the_head[OF example_queue_ok e] c unfolding list_all_iff by blast
qed

subsection \<open>One job per source event\<close>

text \<open>A job keeps its id and its source key through every call but a re-pull's \<open>forget\<close>.\<close>

fun forgets :: "ob_call \<Rightarrow> bool" where
  "forgets (C_forget b chat) = True"
| "forgets c = False"

definition holds_key :: "outbox \<Rightarrow> int \<Rightarrow> string \<Rightarrow> bool" where
  "holds_key ob i key \<longleftrightarrow> (\<exists>r\<in>set (rows ob). ob_id r = i \<and> ob_source_key r = Some key)"

lemma holds_key_update:
  assumes "holds_key ob i key" "\<And>r. ob_id (f r) = ob_id r" "\<And>r. ob_source_key (f r) = ob_source_key r"
  shows "holds_key (tbl_update P f ob) i key"
proof -
  obtain r where "r \<in> set (rows ob)" "ob_id r = i" "ob_source_key r = Some key"
    using assms(1) by (auto simp: holds_key_def)
  then show ?thesis
    unfolding holds_key_def by (intro bexI[of _ "if P r then f r else r"]) (auto simp: assms(2,3))
qed

lemma holds_key_on_id:
  assumes "holds_key ob i key" "\<And>r. ob_id (f r) = ob_id r" "\<And>r. ob_source_key (f r) = ob_source_key r"
  shows "holds_key (on_id j f ob) i key"
  unfolding on_id_def by (rule holds_key_update) (use assms in auto)

lemma holds_key_insert: "holds_key ob i key \<Longrightarrow> holds_key (snd (tbl_insert mk ob)) i key"
  by (auto simp: holds_key_def)

lemma holds_key_enqueue: "holds_key ob i key \<Longrightarrow> holds_key (snd (enqueue now b d k p dl ky ttl ob)) i key"
  by (auto simp: holds_key_def intro: enqueue_keeps)

lemma holds_key_batch: "holds_key ob i key \<Longrightarrow> holds_key (snd (enqueue_batch now b d items ttl ob)) i key"
  by (auto simp: holds_key_def intro: enqueue_batch_keeps)

lemma holds_key_exec:
  assumes "queue_ok ob" "holds_key ob i key" "\<not> forgets c"
  shows "holds_key (ob_exec now c ob) i key"
proof (cases c)
  case (C_claim_for_attempt b d k p ky ttl l)
  then show ?thesis using assms(2)
    by (auto simp: claim_for_attempt_def Let_def split_beta split: option.splits
        intro!: holds_key_update holds_key_insert)
next
  case (C_claim_due b n l)
  then show ?thesis using assms(2) by (simp add: claim_due_def Let_def holds_key_update)
next
  case C_expire_overdue
  then show ?thesis using assms by (simp add: expire_overdue_exact holds_key_update expired_item_def)
qed (use assms in \<open>auto simp: holds_key_enqueue holds_key_batch recover_as_update cancel_pending_def
      replace_pending_payload_def replace_failed_payload_def Let_def retry_now_def resolve_def archive_def
      mark_done_def mark_sending_def mark_ambiguous_def mark_expired_def mark_retry_def mark_failed_def
      defer_job_def split: option.splits intro!: holds_key_update holds_key_on_id\<close>)

lemma holds_key_run:
  "queue_ok ob \<Longrightarrow> holds_key ob i key \<Longrightarrow> list_all (\<lambda>(now, c). \<not> forgets c) cs
     \<Longrightarrow> holds_key (ob_run cs ob) i key"
  by (induction cs ob rule: ob_run.induct) (simp_all add: queue_ok_exec holds_key_exec)

lemma holds_key_lookup:
  "queue_ok ob \<Longrightarrow> holds_key ob i key \<Longrightarrow> \<exists>r. by_source_key key ob = Some r \<and> ob_id r = i"
  by (auto simp: holds_key_def dest: by_source_key_eq)

lemma enqueue_holds:
  "enqueue now b d k p dl (Some key) ttl ob = (i, ob1) \<Longrightarrow> holds_key ob1 i key"
  by (auto simp: enqueue_def holds_key_def tbl_insert_def dest: by_source_key_SomeD split: option.splits)

text \<open>One source event is one job: after \<open>enqueue\<close> with a source key, whatever queue methods run
  (claims, settling, recovery, owner decisions - everything but the re-pull that forgets a chat's
  settled keys), enqueueing the same source key again, with any payload, kind, delay and time,
  answers the id of that job and changes nothing.\<close>

theorem enqueue_idempotent:
  assumes "queue_ok ob" and "enqueue now b d k p dl (Some key) ttl ob = (i, ob1)"
    and "list_all (\<lambda>(now, c). \<not> forgets c) cs"
  shows "enqueue now' b' d' k' p' dl' (Some key) ttl' (ob_run cs ob1) = (i, ob_run cs ob1)"
proof -
  have ok1: "queue_ok ob1" using queue_ok_enqueue[OF assms(1)] assms(2) by (metis snd_conv)
  have "holds_key (ob_run cs ob1) i key"
    using ok1 enqueue_holds[OF assms(2)] assms(3) by (rule holds_key_run)
  then obtain r where "by_source_key key (ob_run cs ob1) = Some r" "ob_id r = i"
    using holds_key_lookup queue_ok_run[OF ok1] by metis
  then show ?thesis by (simp add: enqueue_def)
qed


theorem enqueue_idempotent_witness:
  "fst (enqueue 9 ''b'' MAX_TO_TG ''other'' JNull 0 (Some ''max:1:9'') None
      (ob_run [(5, C_claim_due ''b'' 1 50), (6, C_done 4 None)]
        (snd (enqueue 4 ''b'' MAX_TO_TG ''k'' (JStr ''x'') 0 (Some ''max:1:9'') None example_queue)))) = 4"
proof -
  have "fst (enqueue 4 ''b'' MAX_TO_TG ''k'' (JStr ''x'') 0 (Some ''max:1:9'') None example_queue) = 4" by code_simp
  then have e: "enqueue 4 ''b'' MAX_TO_TG ''k'' (JStr ''x'') 0 (Some ''max:1:9'') None example_queue
      = (4, snd (enqueue 4 ''b'' MAX_TO_TG ''k'' (JStr ''x'') 0 (Some ''max:1:9'') None example_queue))"
    by (simp add: prod_eq_iff)
  have "list_all (\<lambda>(now, c). \<not> forgets c) [(5::int, C_claim_due ''b'' 1 50), (6, C_done 4 None)]" by simp
  from enqueue_idempotent[OF example_queue_ok e this] show ?thesis by simp
qed

lemma batch_holds:
  assumes "queue_ok ob" "enqueue_batch now b d items ttl ob = (ids, ob1)"
  shows "list_all2 (\<lambda>(k, p, key) i. holds_key ob1 i key) items ids"
  using assms
proof (induction items arbitrary: ob ids ob1)
  case (Cons x items)
  obtain k p key where x: "x = (k, p, key)" by (cases x)
  obtain i obx where e: "enqueue now b d k p 0 (Some key) ttl ob = (i, obx)" by fastforce
  obtain js oby where r: "enqueue_batch now b d items ttl obx = (js, oby)" by fastforce
  have ok: "queue_ok obx" using queue_ok_enqueue[OF Cons.prems(1)] e by (metis snd_conv)
  have res: "ids = i # js" "ob1 = oby" using Cons.prems(2) e r by (auto simp: x enqueue_batch_Cons)
  have "holds_key oby i key"
    using holds_key_batch[OF enqueue_holds[OF e], of now b d items ttl] r by simp
  then show ?case using Cons.IH[OF ok r] by (simp add: x res)
qed simp

lemma batch_replay:
  assumes "queue_ok ob" "list_all2 (\<lambda>(k, p, key) i. holds_key ob i key) items ids"
  shows "enqueue_batch now b d items ttl ob = (ids, ob)"
  using assms(2)
proof (induction items ids rule: list_all2_induct)
  case (Cons x xs i js)
  obtain k p key where x: "x = (k, p, key)" by (cases x)
  obtain r where "by_source_key key ob = Some r" "ob_id r = i"
    using holds_key_lookup[OF assms(1)] Cons(1) by (auto simp: x)
  then show ?case using Cons by (simp add: x enqueue_batch_Cons enqueue_def)
qed simp

lemma fresh_batch_ids:
  assumes "queue_ok ob" "\<forall>(k, p, key)\<in>set items. by_source_key key ob = None"
    and "distinct (map (\<lambda>(k, p, key). key) items)"
  shows "fst (enqueue_batch now b d items ttl ob) = map (\<lambda>n. seq ob + 1 + int n) [0..<length items]"
  using assms
proof (induction items arbitrary: ob)
  case (Cons x items)
  obtain k p key where x: "x = (k, p, key)" by (cases x)
  let ?e = "enqueue now b d k p 0 (Some key) ttl ob"
  have ins: "?e = tbl_insert (new_item now b d k p (now + 0) PENDING (Some key) ttl None) ob"
    using Cons.prems(2) by (simp add: x enqueue_def)
  have new: "by_source_key key' (snd ?e) = None" if "(k', p', key') \<in> set items" for k' p' key'
  proof -
    have "key' \<noteq> key" using Cons.prems(3) that by (force simp: x)
    moreover have "by_source_key key' ob = None" using Cons.prems(2) that by (auto simp: x)
    ultimately show ?thesis by (auto simp: ins by_source_key_None)
  qed
  have fst_e: "fst ?e = seq ob + 1" and seq_e: "seq (snd ?e) = seq ob + 1" by (simp_all add: ins)
  have "fst (enqueue_batch now b d items ttl (snd ?e)) = map (\<lambda>n. seq (snd ?e) + 1 + int n) [0..<length items]"
    using new Cons.prems by (intro Cons.IH queue_ok_enqueue) (auto simp: x)
  then show ?case
    by (simp add: x enqueue_batch_Cons split_beta Let_def fst_e seq_e upt_conv_Cons map_Suc_upt[symmetric]
        comp_def del: upt_Suc)
qed simp

text \<open>A long text reaches the queue whole and in order: the parts of a batch of new events take
  consecutive ids in the order given, so nothing can ever stand between them in the line; each part
  is findable by its key, and replaying the batch - after a restart, at any later time - answers
  the same ids and adds nothing.\<close>

theorem batch_whole_and_in_order:
  assumes "queue_ok ob" and "enqueue_batch now b d items ttl ob = (ids, ob1)"
    and "distinct (map (\<lambda>(k, p, key). key) items)" and "\<forall>(k, p, key)\<in>set items. by_source_key key ob = None"
  shows "ids = map (\<lambda>n. seq ob + 1 + int n) [0..<length items]
    \<and> list_all2 (\<lambda>(k, p, key) i. holds_key ob1 i key) items ids
    \<and> enqueue_batch now' b' d' items ttl' ob1 = (ids, ob1)"
proof -
  have "queue_ok ob1" using queue_ok_enqueue_batch[OF assms(1)] assms(2) by (metis snd_conv)
  then show ?thesis
    using fresh_batch_ids[OF assms(1,4,3), of now b d ttl] batch_holds[OF assms(1,2)] batch_replay assms(2)
    by auto
qed

theorem batch_whole_and_in_order_witness:
  "fst (enqueue_batch 5 ''b'' TG_TO_MAX [(''k'', JStr ''a'', ''tg:1:1:text-part:1:2''), (''k'', JStr ''b'', ''tg:1:1:text-part:2:2'')]
      None example_queue) = [4, 5]"
proof -
  let ?items = "[(''k'', JStr ''a'', ''tg:1:1:text-part:1:2''), (''k'', JStr ''b'', ''tg:1:1:text-part:2:2'')]"
  have e: "enqueue_batch 5 ''b'' TG_TO_MAX ?items None example_queue
      = (fst (enqueue_batch 5 ''b'' TG_TO_MAX ?items None example_queue), snd (enqueue_batch 5 ''b'' TG_TO_MAX ?items None example_queue))"
    by simp
  have d: "distinct (map (\<lambda>(k, p, key). key) ?items)" by simp
  have n: "by_source_key ''tg:1:1:text-part:1:2'' example_queue = None" "by_source_key ''tg:1:1:text-part:2:2'' example_queue = None"
    by code_simp+
  have f: "\<forall>(k, p, key)\<in>set ?items. by_source_key key example_queue = None" using n by simp
  have "seq example_queue = 3" by code_simp
  moreover have "map (\<lambda>n. 3 + 1 + int n) [0..<length ?items] = [4, 5]" by (simp add: upt_rec)
  ultimately show ?thesis using batch_whole_and_in_order[OF example_queue_ok e d f] by metis
qed

subsection \<open>Forgetting a chat's history\<close>

lemma lower_digit_char: "d < 10 \<Longrightarrow> lower_char (digit_char d) = digit_char d"
  by (simp add: lower_char_def digit_char_def Let_def)

lemma lower_append [simp]: "lower (xs @ ys) = lower xs @ lower ys"
  by (simp add: lower_def)

lemma lower_Cons [simp]: "lower (c # s) = lower_char c # lower s" "lower [] = []"
  by (simp_all add: lower_def)

lemma length_lower [simp]: "length (lower s) = length s"
  by (simp add: lower_def)

lemma lower_show_int [simp]: "lower (show_int i) = show_int i"
proof -
  have "lower (show_nat n) = show_nat n" for n
    unfolding lower_def by (rule map_idI) (auto dest!: show_nat_digits simp: lower_digit_char)
  moreover have "lower_char CHR ''-'' = CHR ''-''" by (simp add: lower_char_def)
  ultimately show ?thesis by (simp add: show_int_def lower_def)
qed

lemma like_prefix_append: "like_prefix p (p @ s)"
  by (simp add: like_prefix_def)

lemma max_prefix_key: "like_prefix (max_prefix chat) (max_source_key chat' msg) \<longleftrightarrow> chat = chat'"
proof
  assume like: "like_prefix (max_prefix chat) (max_source_key chat' msg)"
  have low_prefix: "lower (max_prefix chat) = max_prefix chat"
    by (simp add: max_prefix_def lower_char_def)
  have low_key: "lower (max_source_key chat' msg) = max_source_key chat' msg"
    by (simp add: max_source_key_def lower_char_def)
  have "take (length (max_prefix chat)) (max_source_key chat' msg) = max_prefix chat"
    using like low_prefix low_key unfolding like_prefix_def lower_def by (metis take_map)
  then obtain rest where "max_source_key chat' msg = max_prefix chat @ rest"
    by (metis append_take_drop_id)
  then show "chat = chat'" by (simp add: max_source_key_def max_prefix_def)
next
  assume "chat = chat'"
  then have "max_source_key chat' msg = max_prefix chat @ show_int msg"
    by (simp add: max_source_key_def max_prefix_def)
  then show "like_prefix (max_prefix chat) (max_source_key chat' msg)"
    by (simp add: like_prefix_append)
qed

text \<open>A re-pull frees exactly the settled deliveries of one MAX chat: of the jobs filed under MAX
  message keys, one is deleted iff it belongs to that bridge and that very chat (chat 1 does not
  match chat 12) and is neither pending nor in flight; a job still being sent keeps its key.\<close>

theorem forget_only_this_chat:
  assumes "r \<in> set (rows ob)" and "ob_source_key r = Some (max_source_key chat' msg)"
  shows "r \<in> set (rows (snd (forget_settled_from_max b chat ob)))
     \<longleftrightarrow> \<not> (ob_bridge_name r = b \<and> chat' = chat \<and> settled r)"
  using assms by (auto simp: forget_settled_from_max_def settled_from_max_def settled_def max_prefix_key)


subsection \<open>Retry by hand, and two places where the mark is not consulted\<close>

lemma on_id_row:
  assumes "queue_ok ob" "r \<in> set (rows ob)" "\<And>x. ob_id (f x) = ob_id x"
  shows "f r \<in> set (rows (on_id (ob_id r) f ob))"
  using assms(2) by (auto simp: on_id_def image_iff intro!: bexI[of _ r])

text \<open>\<open>/retry\<close> on every branch: it answers True and puts the job back, due at once and without a
  lease, exactly for a failed or ambiguous job that still has a payload; for any other state, a
  cleared payload or an unknown id it answers False and changes nothing, so nothing already
  delivered or expired is ever sent again.\<close>

theorem retry_now_branches:
  assumes "queue_ok ob"
  shows "retry_now now i ob =
    (if \<exists>r\<in>set (rows ob). ob_id r = i \<and> ob_state r \<in> {FAILED, AMBIGUOUS} \<and> ob_payload r \<noteq> cleared
     then (True, on_id i (\<lambda>r. r\<lparr>ob_state := PENDING, ob_next_attempt_at := now,
                               ob_lease_expires_at := None, ob_updated_at := now\<rparr>) ob)
     else (False, ob))"
proof (cases "tbl_one (\<lambda>r. ob_id r = i) ob")
  case None
  moreover have "\<not> (\<exists>r\<in>set (rows ob). ob_id r = i \<and> ob_state r \<in> {FAILED, AMBIGUOUS} \<and> ob_payload r \<noteq> cleared)"
    using None by (auto simp: tbl_one_None)
  ultimately show ?thesis by (simp only: retry_now_def option.case if_False)
next
  case (Some r)
  then have r: "r \<in> set (rows ob)" "ob_id r = i" by (auto dest: tbl_one_Some)
  then have "(\<exists>x\<in>set (rows ob). ob_id x = i \<and> Q x) \<longleftrightarrow> Q r" for Q
    using ob_id_unique[OF assms] by metis
  from this[of "\<lambda>r. ob_state r \<in> {FAILED, AMBIGUOUS} \<and> ob_payload r \<noteq> cleared"] show ?thesis
    using Some by (simp add: retry_now_def)
qed

theorem retry_now_branches_witness: "retry_now 9 1 example_queue = (False, example_queue)"
proof -
  have "\<not> (\<exists>r\<in>set (rows example_queue). ob_id r = 1 \<and> ob_state r \<in> {FAILED, AMBIGUOUS} \<and> ob_payload r \<noteq> cleared)"
    by code_simp
  then show ?thesis using retry_now_branches[OF example_queue_ok, of 9 1] by (simp only: if_False)
qed

text \<open>C20. \<open>retry_now\<close> leaves the send mark of the earlier attempt on the row. So a job the owner has
  retried, and whose new attempt has not called anything yet, is treated as if it had: it cannot be
  cancelled while it waits, and a process that dies after claiming it, before the remote call, brings
  it back AMBIGUOUS instead of PENDING.\<close>

theorem retried_job_keeps_old_mark:
  assumes "queue_ok ob" "r \<in> set (rows ob)" "ob_source_key r = Some key" "ob_state r \<in> {FAILED, AMBIGUOUS}"
    and "ob_payload r \<noteq> cleared" "ob_send_started_at r \<noteq> None"
    and "retry_now now (ob_id r) ob = (ok, ob1)"
    and "claim_for_attempt now' b d k p key ttl l ob1 = ((i, ours), ob2)"
  shows "ok \<and> \<not> fst (cancel_pending now' key why ob1) \<and> ours \<and> i = ob_id r
    \<and> (\<exists>x\<in>set (rows (snd (requeue_inflight now'' ob2))). ob_id x = ob_id r \<and> ob_state x = AMBIGUOUS)"
proof -
  let ?f = "\<lambda>r. r\<lparr>ob_state := PENDING, ob_next_attempt_at := now, ob_lease_expires_at := None,
                ob_updated_at := now\<rparr>"
  let ?g = "\<lambda>x. x\<lparr>ob_state := INFLIGHT, ob_lease_expires_at := Some (now' + l), ob_updated_at := now'\<rparr>"
  have ob1: "ob1 = on_id (ob_id r) ?f ob" and ok: "ok"
    using assms(2,4,5,7) one_by_id[OF assms(1,2)] by (auto simp: retry_now_def)
  have q1: "queue_ok ob1" using queue_ok_decisions(1)[OF assms(1), of now "ob_id r"] assms(7) by simp
  have f: "?f r \<in> set (rows ob1)" unfolding ob1 by (rule on_id_row[OF assms(1,2)]) simp
  have key: "by_source_key key ob1 = Some (?f r)" using by_source_key_eq[OF q1 f] assms(3) by simp
  have cancel: "\<not> unsent key x" if "x \<in> set (rows ob1)" for x
    using that ob_key_unique[OF q1 that f, of key] assms(3,6) by (auto simp: unsent_def)
  have ob2: "ob2 = on_id (ob_id (?f r)) ?g ob1" and ours: "ours" "i = ob_id r"
    using assms(8) key by (auto simp: claim_for_attempt_def Let_def on_id_def)
  have q2: "queue_ok ob2" using queue_ok_claim[OF q1, of now' b d k p key ttl l] assms(8) by simp
  have "?g (?f r) \<in> set (rows ob2)" unfolding ob2 by (rule on_id_row[OF q1 f]) simp
  then have "recover_item now'' (?g (?f r)) \<in> set (rows (snd (requeue_inflight now'' ob2)))"
    by (force simp: requeue_inflight_def recover_select[OF q2])
  moreover have "ob_id (recover_item now'' (?g (?f r))) = ob_id r"
    "ob_state (recover_item now'' (?g (?f r))) = AMBIGUOUS"
    using assms(6) by (auto simp: recover_item_def)
  ultimately have "\<exists>x\<in>set (rows (snd (requeue_inflight now'' ob2))). ob_id x = ob_id r \<and> ob_state x = AMBIGUOUS"
    by blast
  moreover have "\<not> fst (cancel_pending now' key why ob1)"
    using cancel by (simp add: cancel_pending_def tbl_count_def filter_empty_conv)
  ultimately show ?thesis using ok ours by simp
qed

theorem retried_job_keeps_old_mark_witness:
  "\<not> fst (cancel_pending 20 ''max:1:2'' ''owner deleted it''
      (snd (retry_now 10 2 (ob_run [(9, C_failed 2 ''refused'')] example_queue))))"
proof -
  let ?q = "ob_run [(9, C_failed 2 ''refused'')] example_queue"
  let ?r = "rows ?q ! 1"
  have q: "queue_ok ?q" by (rule queue_ok_run[OF example_queue_ok])
  have r: "?r \<in> set (rows ?q)" by code_simp
  have i: "ob_id ?r = 2" by code_simp
  have k: "ob_source_key ?r = Some ''max:1:2''" by code_simp
  have s: "ob_state ?r \<in> {FAILED, AMBIGUOUS}" by code_simp
  have p: "ob_payload ?r \<noteq> cleared" by code_simp
  have m: "ob_send_started_at ?r \<noteq> None" by code_simp
  have e: "retry_now 10 (ob_id ?r) ?q = (fst (retry_now 10 (ob_id ?r) ?q), snd (retry_now 10 (ob_id ?r) ?q))" by simp
  have c: "claim_for_attempt 20 b d k p ''max:1:2'' t l z
      = ((fst (fst (claim_for_attempt 20 b d k p ''max:1:2'' t l z)), snd (fst (claim_for_attempt 20 b d k p ''max:1:2'' t l z))),
         snd (claim_for_attempt 20 b d k p ''max:1:2'' t l z))" for b d k p t l z by simp
  from retried_job_keeps_old_mark[OF q r k s p m e c, of "''owner deleted it''"] show ?thesis unfolding i by blast
qed

text \<open>\<open>claim_for_attempt\<close> does not consult the send mark either: a job in flight whose lease has run
  out is handed to a caller replaying its source event even when its remote call had already begun,
  where lease recovery a moment earlier would have made it AMBIGUOUS. The caller then sends a message
  that may already be in the chat.\<close>

theorem replay_takes_a_job_mid_send:
  assumes "queue_ok ob" "r \<in> set (rows ob)" "ob_source_key r = Some key" "ob_state r = INFLIGHT"
    and "ob_send_started_at r \<noteq> None" and "the (ob_lease_expires_at r) \<le> now"
  shows "fst (claim_for_attempt now b d k p key ttl l ob) = (ob_id r, True)
    \<and> (\<exists>x\<in>set (rows (snd (reclaim_expired_leases now ob))). ob_id x = ob_id r \<and> ob_state x = AMBIGUOUS)"
proof -
  obtain e where e: "ob_lease_expires_at r = Some e" "e \<le> now"
    using queue_ok_item[OF assms(1,2)] assms(4,6) by (auto simp: item_ok_def)
  have "recover_item now r \<in> set (rows (snd (reclaim_expired_leases now ob)))"
    using assms(2,4) e by (force simp: reclaim_expired_leases_def recover_select[OF assms(1)])
  moreover have "ob_id (recover_item now r) = ob_id r" "ob_state (recover_item now r) = AMBIGUOUS"
    using assms(5) by (auto simp: recover_item_def)
  ultimately have "\<exists>x\<in>set (rows (snd (reclaim_expired_leases now ob))). ob_id x = ob_id r \<and> ob_state x = AMBIGUOUS"
    by blast
  then show ?thesis
    using by_source_key_eq[OF assms(1-3)] assms(4) e by (simp add: claim_for_attempt_def Let_def)
qed

theorem replay_takes_a_job_mid_send_witness:
  "fst (claim_for_attempt 60 ''b'' MAX_TO_TG ''max_to_tg_text'' (JStr ''two'') ''max:1:2'' None 50 example_queue) = (2, True)"
proof -
  let ?r = "rows example_queue ! 1"
  have r: "?r \<in> set (rows example_queue)" by code_simp
  have i: "ob_id ?r = 2" by code_simp
  have k: "ob_source_key ?r = Some ''max:1:2''" by code_simp
  have s: "ob_state ?r = INFLIGHT" by code_simp
  have m: "ob_send_started_at ?r \<noteq> None" by code_simp
  have l: "the (ob_lease_expires_at ?r) \<le> 60" by code_simp
  show ?thesis using replay_takes_a_job_mid_send[OF example_queue_ok r k s m l] by (simp only: i)
qed

end
