(* ===== verification/Interfaces.thy ===== *)
theory Interfaces
  imports Prelude
begin

section \<open>The contracts the components rely on\<close>

text \<open>
  Four contracts recur in the storage layer, each stated once as a locale with what its clients get
  from it: a claim that is granted to one caller only (\<open>claim_once\<close>), a queue whose rows are leased
  (\<open>leasing\<close>), a column that is filled once and never overwritten (\<open>fill_once\<close>), and a mark that
  only moves forward (\<open>watermark\<close>). The component that provides a contract interprets the locale on
  its own operations.
\<close>

subsection \<open>A claim granted once\<close>

text \<open>
  \<open>claim k s\<close> answers whether the caller is the one to go on with \<open>k\<close>. Rows keep being added by
  other operations, but while nothing forgets a key it stays taken.
\<close>

locale claim_once =
  fixes ok :: "'s \<Rightarrow> bool"
    and taken :: "'s \<Rightarrow> 'k \<Rightarrow> bool"
    and claim :: "'k \<Rightarrow> 's \<Rightarrow> bool \<times> 's"
  assumes claim_ok: "ok s \<Longrightarrow> ok (snd (claim k s))"
    and granted_iff_free: "ok s \<Longrightarrow> fst (claim k s) \<longleftrightarrow> \<not> taken s k"
    and taken_after: "ok s \<Longrightarrow> taken (snd (claim k s)) k' \<longleftrightarrow> taken s k' \<or> k' = k"
begin

fun claims :: "'k list \<Rightarrow> 's \<Rightarrow> bool list \<times> 's" where
  "claims [] s = ([], s)"
| "claims (k # ks) s = (let (g, s1) = claim k s; (gs, s2) = claims ks s1 in (g # gs, s2))"

lemma claims_Cons:
  "claims (k # ks) s = (fst (claim k s) # fst (claims ks (snd (claim k s))), snd (claims ks (snd (claim k s))))"
  by (simp add: case_prod_beta Let_def)

lemma claims_ok: "ok s \<Longrightarrow> ok (snd (claims ks s))"
  by (induction ks arbitrary: s) (simp_all only: claims_Cons claims.simps(1) snd_conv claim_ok)

lemma claims_taken: "ok s \<Longrightarrow> taken (snd (claims ks s)) k \<longleftrightarrow> taken s k \<or> k \<in> set ks"
proof (induction ks arbitrary: s)
  case Nil then show ?case by simp
next
  case (Cons a ks)
  then show ?case by (auto simp: claims_Cons claim_ok taken_after simp del: claims.simps)
qed

lemma claims_length: "length (fst (claims ks s)) = length ks"
  by (induction ks arbitrary: s) (simp_all only: claims_Cons claims.simps(1) fst_conv list.size)

definition grants :: "'k \<Rightarrow> 'k list \<Rightarrow> 's \<Rightarrow> nat" where
  "grants k ks s = length (filter (\<lambda>(k', g). k' = k \<and> g) (zip ks (fst (claims ks s))))"

lemma grants_exact:
  assumes "ok s"
  shows "grants k ks s = (if k \<in> set ks \<and> \<not> taken s k then 1 else 0)"
  using assms
proof (induction ks arbitrary: s)
  case Nil then show ?case by (simp add: grants_def)
next
  case (Cons a ks)
  have "grants k (a # ks) s = (if a = k \<and> fst (claim a s) then 1 else 0) + grants k ks (snd (claim a s))"
    by (auto simp: grants_def claims_Cons simp del: claims.simps)
  then show ?case
    using Cons.IH[OF claim_ok[OF Cons.prems]] granted_iff_free[OF Cons.prems] taken_after[OF Cons.prems]
    by (cases "a = k") auto
qed

lemma at_most_one_grant: "ok s \<Longrightarrow> grants k ks s \<le> 1"
  by (simp add: grants_exact)

end

subsection \<open>Leases\<close>

text \<open>
  \<open>take now s\<close> hands out some keys and leases them until \<open>now + term\<close>. \<open>held t s k\<close>: key \<open>k\<close>
  is on a lease that has not run out at \<open>t\<close>.
\<close>

locale leasing =
  fixes ok :: "'s \<Rightarrow> bool"
    and held :: "int \<Rightarrow> 's \<Rightarrow> 'k \<Rightarrow> bool"
    and lease :: "int \<Rightarrow> 's \<Rightarrow> 'k list \<times> 's"
    and period :: int
  assumes lease_ok: "ok s \<Longrightarrow> ok (snd (lease now s))"
    and lease_distinct: "ok s \<Longrightarrow> distinct (fst (lease now s))"
    and lease_free: "ok s \<Longrightarrow> k \<in> set (fst (lease now s)) \<Longrightarrow> \<not> held now s k"
    and lease_holds: "ok s \<Longrightarrow> k \<in> set (fst (lease now s)) \<Longrightarrow> t < now + period \<Longrightarrow> held t (snd (lease now s)) k"
    and lease_keeps: "ok s \<Longrightarrow> held t s k \<Longrightarrow> held now s k \<Longrightarrow> held t (snd (lease now s)) k"
begin

fun leases :: "int list \<Rightarrow> 's \<Rightarrow> 'k list \<times> 's" where
  "leases [] s = ([], s)"
| "leases (t # ts) s = (let (ks, s1) = lease t s; (ls, s2) = leases ts s1 in (ks @ ls, s2))"

lemma leases_Cons:
  "leases (t # ts) s = (fst (lease t s) @ fst (leases ts (snd (lease t s))), snd (leases ts (snd (lease t s))))"
  by (simp add: case_prod_beta Let_def)

lemma leases_ok: "ok s \<Longrightarrow> ok (snd (leases ts s))"
  by (induction ts arbitrary: s) (simp_all only: leases_Cons leases.simps(1) snd_conv lease_ok)

lemma held_not_leased:
  assumes "ok s" "\<forall>t\<in>set ts. held t s k"
  shows "k \<notin> set (fst (leases ts s))"
  using assms
proof (induction ts arbitrary: s)
  case Nil then show ?case by simp
next
  case (Cons t ts)
  then have "k \<notin> set (fst (lease t s))" using lease_free by auto
  moreover have "\<forall>t'\<in>set ts. held t' (snd (lease t s)) k" using Cons.prems lease_keeps by auto
  ultimately show ?case using Cons.IH[OF lease_ok[OF Cons.prems(1)]] by (simp add: leases_Cons del: leases.simps)
qed

text \<open>However many workers ask, inside one lease period nobody is handed a row twice.\<close>

lemma handed_out_once:
  assumes "ok s" "sorted ts" "\<forall>t\<in>set ts. \<forall>t'\<in>set ts. t < t' + period"
  shows "distinct (fst (leases ts s))"
  using assms
proof (induction ts arbitrary: s)
  case Nil then show ?case by simp
next
  case (Cons t ts)
  have "set (fst (lease t s)) \<inter> set (fst (leases ts (snd (lease t s)))) = {}"
    using held_not_leased[OF lease_ok[OF Cons.prems(1)]] lease_holds[OF Cons.prems(1)] Cons.prems(3) by fastforce
  then show ?case
    using Cons.IH[OF lease_ok[OF Cons.prems(1)]] Cons.prems lease_distinct
    by (simp add: leases_Cons del: leases.simps)
qed

end

subsection \<open>A column filled once\<close>

text \<open>
  \<open>fill v s\<close> offers a value; \<open>enc v\<close> is what the slot would hold. The answer says whether the slot
  now carries it.
\<close>

locale fill_once =
  fixes ok :: "'s \<Rightarrow> bool"
    and slot :: "'s \<Rightarrow> 'c option"
    and enc :: "'v \<Rightarrow> 'c"
    and fill :: "'v \<Rightarrow> 's \<Rightarrow> bool \<times> 's"
  assumes fill_ok: "ok s \<Longrightarrow> ok (snd (fill v s))"
    and fill_empty: "ok s \<Longrightarrow> slot s = None \<Longrightarrow> fst (fill v s) \<Longrightarrow> slot (snd (fill v s)) = Some (enc v)"
    and fill_refused: "ok s \<Longrightarrow> \<not> fst (fill v s) \<Longrightarrow> slot (snd (fill v s)) = slot s"
    and fill_same: "ok s \<Longrightarrow> slot s = Some w \<Longrightarrow> slot (snd (fill v s)) = Some w \<and> (fst (fill v s) \<longleftrightarrow> enc v = w)"
begin

fun fills :: "'v list \<Rightarrow> 's \<Rightarrow> bool list \<times> 's" where
  "fills [] s = ([], s)"
| "fills (v # vs) s = (let (b, s1) = fill v s; (bs, s2) = fills vs s1 in (b # bs, s2))"

lemma fills_Cons:
  "fills (v # vs) s = (fst (fill v s) # fst (fills vs (snd (fill v s))), snd (fills vs (snd (fill v s))))"
  by (simp add: case_prod_beta Let_def)

text \<open>Once filled, no sequence of writers changes it, and each learns truthfully whether it agrees.\<close>

lemma filled_for_good:
  assumes "ok s" "slot s = Some w"
  shows "slot (snd (fills vs s)) = Some w \<and> fst (fills vs s) = map (\<lambda>v. enc v = w) vs"
  using assms
proof (induction vs arbitrary: s)
  case Nil then show ?case by simp
next
  case (Cons v vs)
  then show ?case using fill_same[OF Cons.prems, of v] fill_ok[OF Cons.prems(1), of v]
    by (simp add: fills_Cons del: fills.simps)
qed

lemma first_writer_wins:
  assumes "ok s" "slot s = None" "fst (fill v s)"
  shows "slot (snd (fills (v # vs) s)) = Some (enc v)
    \<and> fst (fills (v # vs) s) = True # map (\<lambda>u. enc u = enc v) vs"
  using filled_for_good[OF fill_ok[OF assms(1)] fill_empty[OF assms], of vs] assms(3)
  by (simp add: fills_Cons del: fills.simps)

end

subsection \<open>A mark that only moves forward\<close>

text \<open>
  A reading is compared as a value of some linear order; a mark not written yet is its least value.
  Some stores also report whether they moved.
\<close>

locale watermark =
  fixes mark :: "'s \<Rightarrow> 'm::linorder"
    and reading :: "'v \<Rightarrow> 'm"
    and advance :: "'v \<Rightarrow> 's \<Rightarrow> 's"
  assumes advance_mark: "mark (advance v s) = max (mark s) (reading v)"
begin

lemma fold_max_set: "fold max xs (m::'m) = Max (insert m (set xs))"
  using Max.set_eq_fold[of m xs] by simp

lemma advances_max: "mark (fold advance vs s) = Max (insert (mark s) (reading ` set vs))"
proof -
  have "mark (fold advance vs s) = fold max (map reading vs) (mark s)"
    by (induction vs arbitrary: s) (simp_all add: advance_mark max.commute)
  then show ?thesis by (simp add: fold_max_set)
qed

text \<open>The order in which readings arrive does not matter, and neither do repeats.\<close>

lemma order_irrelevant: "set us = set vs \<Longrightarrow> mark (fold advance us s) = mark (fold advance vs s)"
  by (simp add: advances_max)

lemma never_back: "mark s \<le> mark (fold advance vs s)"
  by (simp add: advances_max)

lemma all_covered: "v \<in> set vs \<Longrightarrow> reading v \<le> mark (fold advance vs s)"
  by (simp add: advances_max)

end

locale reporting_watermark = watermark mark reading advance
  for mark :: "'s \<Rightarrow> 'm::linorder" and reading :: "'v \<Rightarrow> 'm" and advance :: "'v \<Rightarrow> 's \<Rightarrow> 's" +
  fixes moves :: "'v \<Rightarrow> 's \<Rightarrow> bool"
  assumes moves_iff: "moves v s \<longleftrightarrow> mark s < reading v"
begin

lemma stale_ignored: "reading v \<le> mark s \<Longrightarrow> \<not> moves v s \<and> mark (advance v s) = mark s"
  by (auto simp: advance_mark moves_iff)

lemma moves_once: "moves v s \<Longrightarrow> \<not> moves v (fold advance vs (advance v s))"
  using never_back[of "advance v s" vs] by (auto simp: moves_iff advance_mark not_less)

end

end
