(* ===== verification/Telegram_Inbox.thy ===== *)
theory Telegram_Inbox
  imports Schema Interfaces "HOL-Library.Option_ord"
begin

section \<open>The Telegram inbox\<close>

text \<open>
  \<open>TelegramInboxRepository\<close> of \<open>bridge/storage/repositories.py\<close>: updates written down before their
  offset is acknowledged, leased to a worker, and finished. The offset table is a map from the bot
  to its cursor and the time it was written.
\<close>

type_synonym inbox = "inbox_update tbl"

type_synonym offsets = "int \<Rightarrow> (int \<times> int) option"

definition new_update :: "int \<Rightarrow> int \<Rightarrow> int \<Rightarrow> json \<Rightarrow> string option \<Rightarrow> int \<Rightarrow> inbox_update" where
  "new_update now bid upd payload bridge i =
     \<lparr>iu_id = i, iu_bot_id = bid, iu_update_id = upd, iu_bridge_name = bridge, iu_payload = payload,
      iu_state = RECEIVED, iu_attempts = 0, iu_lease_expires_at = None, iu_last_error = None,
      iu_created_at = now, iu_updated_at = now\<rparr>"

definition inbox_store ::
  "int \<Rightarrow> int \<Rightarrow> int \<Rightarrow> json \<Rightarrow> string option \<Rightarrow> inbox \<Rightarrow> int option \<times> inbox" where
  "inbox_store now bid upd payload bridge ib =
     (case tbl_try_insert iu_clash (new_update now bid upd payload bridge) ib of
        Inl _ \<Rightarrow> (None, ib)
      | Inr (i, ib') \<Rightarrow> (Some i, ib'))"

definition remember_offset :: "int \<Rightarrow> int \<Rightarrow> int \<Rightarrow> offsets \<Rightarrow> offsets" where
  "remember_offset now bid next offs =
     (case offs bid of
        None \<Rightarrow> offs(bid \<mapsto> (next, now))
      | Some (old, _) \<Rightarrow> offs(bid \<mapsto> (max next old, now)))"

definition inbox_offset :: "int \<Rightarrow> offsets \<Rightarrow> int option" where
  "inbox_offset bid offs = map_option fst (offs bid)"

definition inbox_open :: "int \<Rightarrow> int option \<Rightarrow> inbox_update \<Rightarrow> bool" where
  "inbox_open now bid r \<longleftrightarrow>
     (case bid of None \<Rightarrow> True | Some b \<Rightarrow> iu_bot_id r = b)
     \<and> (iu_state r = RECEIVED
        \<or> (iu_state r = LEASED \<and> (case iu_lease_expires_at r of None \<Rightarrow> False | Some e \<Rightarrow> e \<le> now)))"

definition claim_open ::
  "int \<Rightarrow> nat \<Rightarrow> int \<Rightarrow> int option \<Rightarrow> inbox \<Rightarrow> inbox_update list \<times> inbox" where
  "claim_open now limit lease bid ib =
     (let taken = take limit (sort_key iu_id (tbl_select (inbox_open now bid) ib)) in
      (map (\<lambda>r. r\<lparr>iu_state := LEASED\<rparr>) taken,
       if taken = [] then ib
       else tbl_update (\<lambda>x. iu_id x \<in> set (map iu_id taken))
              (\<lambda>x. x\<lparr>iu_state := LEASED, iu_lease_expires_at := Some (now + lease),
                     iu_updated_at := now\<rparr>) ib))"

definition requeue_leased :: "int \<Rightarrow> inbox \<Rightarrow> int \<times> inbox" where
  "requeue_leased now ib =
     (tbl_count (\<lambda>r. iu_state r = LEASED) ib,
      tbl_update (\<lambda>r. iu_state r = LEASED)
        (\<lambda>r. r\<lparr>iu_state := RECEIVED, iu_lease_expires_at := None, iu_updated_at := now\<rparr>) ib)"

definition inbox_mark_done :: "int \<Rightarrow> int \<Rightarrow> inbox \<Rightarrow> inbox" where
  "inbox_mark_done now i =
     tbl_update (\<lambda>r. iu_id r = i)
       (\<lambda>r. r\<lparr>iu_state := IN_DONE, iu_payload := cleared, iu_lease_expires_at := None,
              iu_updated_at := now\<rparr>)"

definition inbox_mark_failed :: "int \<Rightarrow> int \<Rightarrow> string \<Rightarrow> inbox \<Rightarrow> inbox" where
  "inbox_mark_failed now i error =
     tbl_update (\<lambda>r. iu_id r = i)
       (\<lambda>r. r\<lparr>iu_state := IN_FAILED, iu_attempts := iu_attempts r + 1,
              iu_last_error := Some (take 500 error), iu_lease_expires_at := None,
              iu_updated_at := now\<rparr>)"

definition inbox_release :: "int \<Rightarrow> int \<Rightarrow> string \<Rightarrow> inbox \<Rightarrow> inbox" where
  "inbox_release now i error =
     tbl_update (\<lambda>r. iu_id r = i)
       (\<lambda>r. r\<lparr>iu_state := RECEIVED, iu_attempts := iu_attempts r + 1,
              iu_last_error := Some (take 500 error), iu_lease_expires_at := None,
              iu_updated_at := now\<rparr>)"

definition inbox_depth :: "int option \<Rightarrow> inbox \<Rightarrow> int" where
  "inbox_depth bid ib =
     tbl_count (\<lambda>r. (case bid of None \<Rightarrow> True | Some b \<Rightarrow> iu_bot_id r = b)
                   \<and> iu_state r \<in> {RECEIVED, LEASED}) ib"

subsection \<open>The invariant\<close>

text \<open>The table is well formed and a lease is present exactly on a leased row.\<close>

definition inbox_ok :: "inbox \<Rightarrow> bool" where
  "inbox_ok ib \<longleftrightarrow> tbl_ok iu_id iu_clash ib
     \<and> (\<forall>r\<in>set (rows ib). (iu_state r = LEASED) = (iu_lease_expires_at r \<noteq> None))"

lemma new_update_simps [simp]:
  "iu_id (new_update now bid upd p b i) = i" "iu_bot_id (new_update now bid upd p b i) = bid"
  "iu_update_id (new_update now bid upd p b i) = upd" "iu_state (new_update now bid upd p b i) = RECEIVED"
  "iu_lease_expires_at (new_update now bid upd p b i) = None"
  "iu_payload (new_update now bid upd p b i) = p"
  by (simp_all add: new_update_def)

lemma inbox_ok_empty [simp]: "inbox_ok empty_tbl"
  by (simp add: inbox_ok_def) (simp add: empty_tbl_def)

lemma inbox_ok_update:
  assumes "inbox_ok ib"
    and "\<And>r. iu_id (f r) = iu_id r \<and> iu_bot_id (f r) = iu_bot_id r \<and> iu_update_id (f r) = iu_update_id r"
    and "\<And>r. (iu_state (f r) = LEASED) = (iu_lease_expires_at (f r) \<noteq> None)"
  shows "inbox_ok (tbl_update P f ib)"
  using assms by (auto simp: inbox_ok_def iu_clash_def intro!: tbl_ok_update_plain split: if_splits)

lemma inbox_ok_store: "inbox_ok ib \<Longrightarrow> inbox_ok (snd (inbox_store now bid upd p b ib))"
  by (auto simp: inbox_store_def inbox_ok_def tbl_try_insert_Inr split: sum.split
      intro: tbl_try_insert_ok)

lemma inbox_ok_claim_open: "inbox_ok ib \<Longrightarrow> inbox_ok (snd (claim_open now n l bid ib))"
  by (simp add: claim_open_def Let_def inbox_ok_update)

lemma inbox_ok_marks:
  assumes "inbox_ok ib"
  shows "inbox_ok (inbox_mark_done now i ib)" "inbox_ok (inbox_mark_failed now i e ib)"
    "inbox_ok (inbox_release now i e ib)" "inbox_ok (snd (requeue_leased now ib))"
  using assms
  by (simp_all add: inbox_mark_done_def inbox_mark_failed_def inbox_release_def requeue_leased_def
      inbox_ok_update)

lemmas inbox_ok_ops = inbox_ok_store inbox_ok_claim_open inbox_ok_marks

lemma inbox_id_unique:
  assumes "inbox_ok ib" "a \<in> set (rows ib)" "b \<in> set (rows ib)" "iu_id a = iu_id b"
  shows "a = b"
  using tbl_id_unique[of iu_id iu_clash ib] assms by (auto simp: inbox_ok_def)

subsection \<open>Storing an update is a claim granted once\<close>

definition knows_update :: "inbox \<Rightarrow> int \<times> int \<Rightarrow> bool" where
  "knows_update ib k \<longleftrightarrow> (\<exists>r\<in>set (rows ib). (iu_bot_id r, iu_update_id r) = k)"

definition store_key :: "int \<Rightarrow> json \<Rightarrow> string option \<Rightarrow> int \<times> int \<Rightarrow> inbox \<Rightarrow> bool \<times> inbox" where
  "store_key now p b k ib =
     (case inbox_store now (fst k) (snd k) p b ib of (i, ib') \<Rightarrow> (i \<noteq> None, ib'))"

lemma inbox_store_cases:
  "inbox_store now bid upd p b ib =
     (if knows_update ib (bid, upd) then (None, ib)
      else (Some (seq ib + 1), snd (tbl_insert (new_update now bid upd p b) ib)))"
  by (auto simp: inbox_store_def tbl_try_insert_def list_ex_iff knows_update_def iu_clash_def
      tbl_insert_def split: sum.split)

interpretation store_once: claim_once inbox_ok knows_update "store_key now p b" for now p b
proof (unfold_locales, goal_cases)
  case (1 s k)
  then show ?case using inbox_ok_store[OF 1, of now "fst k" "snd k" p b] by (simp add: store_key_def split_beta)
next
  case (2 s k)
  then show ?case by (simp add: store_key_def inbox_store_cases)
next
  case (3 s k k')
  then show ?case
    by (cases k) (auto simp: store_key_def inbox_store_cases, auto simp: knows_update_def)
qed

subsection \<open>Leases\<close>

definition inbox_held :: "int \<Rightarrow> inbox \<Rightarrow> int \<Rightarrow> bool" where
  "inbox_held t ib i \<longleftrightarrow> (\<exists>r\<in>set (rows ib). iu_id r = i \<and> iu_state r = LEASED
     \<and> (case iu_lease_expires_at r of None \<Rightarrow> False | Some e \<Rightarrow> t < e))"

definition lease_open :: "nat \<Rightarrow> int \<Rightarrow> int option \<Rightarrow> int \<Rightarrow> inbox \<Rightarrow> int list \<times> inbox" where
  "lease_open n l bid now ib = (case claim_open now n l bid ib of (us, ib') \<Rightarrow> (map iu_id us, ib'))"

lemma lease_open_simps:
  assumes "inbox_ok ib"
  shows "fst (lease_open n l bid now ib) = map iu_id (take n (tbl_select (inbox_open now bid) ib))"
    "snd (lease_open n l bid now ib) =
       tbl_update (\<lambda>x. iu_id x \<in> set (map iu_id (take n (tbl_select (inbox_open now bid) ib))))
         (\<lambda>x. x\<lparr>iu_state := LEASED, iu_lease_expires_at := Some (now + l), iu_updated_at := now\<rparr>) ib"
  using assms sort_key_id[of iu_id iu_clash ib]
  by (auto simp: lease_open_def claim_open_def Let_def inbox_ok_def tbl_update_def)

lemma lease_open_row:
  assumes "inbox_ok ib" "i \<in> set (fst (lease_open n l bid now ib))"
  shows "\<exists>r\<in>set (rows ib). iu_id r = i \<and> inbox_open now bid r"
  using assms by (auto simp: lease_open_simps tbl_select_def dest!: in_set_takeD)

lemma lease_open_free:
  assumes ok: "inbox_ok ib" and i: "i \<in> set (fst (lease_open n l bid now ib))"
  shows "\<not> inbox_held now ib i"
proof
  assume "inbox_held now ib i"
  then obtain r where r: "r \<in> set (rows ib)" "iu_id r = i"
    and held: "case iu_lease_expires_at r of None \<Rightarrow> False | Some e \<Rightarrow> now < e" "iu_state r = LEASED"
    by (auto simp: inbox_held_def)
  obtain r' where r': "r' \<in> set (rows ib)" "iu_id r' = i" and opn: "inbox_open now bid r'"
    using lease_open_row[OF ok i] by auto
  have "r' = r" using inbox_id_unique[OF ok r'(1) r(1)] r r' by simp
  then show False using opn held by (auto simp: inbox_open_def split: option.splits)
qed

interpretation open_lease: leasing inbox_ok inbox_held "lease_open n l bid" l for n l bid
proof (unfold_locales, goal_cases)
  case (1 s now)
  then show ?case using inbox_ok_claim_open[OF 1, of now n l bid] by (simp add: lease_open_def split_beta)
next
  case (2 s now)
  then have "distinct (map iu_id (rows s))" using tbl_ok_distinct[of iu_id iu_clash s] by (simp add: inbox_ok_def)
  then have "distinct (map iu_id (tbl_select (inbox_open now bid) s))"
    by (simp add: tbl_select_def distinct_map_filter)
  then show ?case using 2 by (simp add: lease_open_simps take_map[symmetric])
next
  case (3 s k now)
  then show ?case by (rule lease_open_free)
next
  case (4 s k now t)
  let ?f = "\<lambda>x. x\<lparr>iu_state := LEASED, iu_lease_expires_at := Some (now + l), iu_updated_at := now\<rparr>"
  obtain r where r: "r \<in> set (rows s)" "iu_id r = k" using 4 lease_open_row by blast
  then have "?f r \<in> set (rows (snd (lease_open n l bid now s)))"
    using 4(2) unfolding lease_open_simps(2)[OF 4(1)] lease_open_simps(1)[OF 4(1)] by (intro update_hit) auto
  then show ?case using 4(3) r by (auto simp: inbox_held_def intro!: bexI[of _ "?f r"])
next
  case (5 s t k now)
  then obtain r where r: "r \<in> set (rows s)" "iu_id r = k" "iu_state r = LEASED"
    "case iu_lease_expires_at r of None \<Rightarrow> False | Some e \<Rightarrow> t < e" by (auto simp: inbox_held_def)
  have "k \<notin> set (fst (lease_open n l bid now s))"
    using 5 lease_open_free by blast
  then have "r \<in> set (rows (snd (lease_open n l bid now s)))"
    using r unfolding lease_open_simps(2)[OF 5(1)] lease_open_simps(1)[OF 5(1)] by (intro update_miss) auto
  then show ?case using r by (auto simp: inbox_held_def)
qed

subsection \<open>The cursor\<close>

interpretation cursor: watermark "inbox_offset bid" Some "remember_offset now bid" for bid now
  by unfold_locales (auto simp: inbox_offset_def remember_offset_def max_def split: option.splits)

subsection \<open>Sequences of calls\<close>

datatype inbox_call =
    I_store int int json "string option"
  | I_claim nat int "int option"
  | I_requeue
  | I_done int
  | I_failed int string
  | I_release int string

fun inbox_exec :: "int \<Rightarrow> inbox_call \<Rightarrow> inbox \<Rightarrow> inbox" where
  "inbox_exec now (I_store bid upd p b) ib = snd (inbox_store now bid upd p b ib)"
| "inbox_exec now (I_claim n l bid) ib = snd (claim_open now n l bid ib)"
| "inbox_exec now I_requeue ib = snd (requeue_leased now ib)"
| "inbox_exec now (I_done i) ib = inbox_mark_done now i ib"
| "inbox_exec now (I_failed i e) ib = inbox_mark_failed now i e ib"
| "inbox_exec now (I_release i e) ib = inbox_release now i e ib"

fun inbox_run :: "(int \<times> inbox_call) list \<Rightarrow> inbox \<Rightarrow> inbox" where
  "inbox_run [] ib = ib"
| "inbox_run ((now, c) # cs) ib = inbox_run cs (inbox_exec now c ib)"

lemma inbox_ok_exec: "inbox_ok ib \<Longrightarrow> inbox_ok (inbox_exec now c ib)"
  by (cases c) (simp_all add: inbox_ok_ops)

lemma inbox_ok_run: "inbox_ok ib \<Longrightarrow> inbox_ok (inbox_run cs ib)"
  by (induction cs ib rule: inbox_run.induct) (simp_all add: inbox_ok_exec)

definition waiting :: "inbox \<Rightarrow> int \<Rightarrow> json \<Rightarrow> bool" where
  "waiting ib i p \<longleftrightarrow> (\<exists>r\<in>set (rows ib). iu_id r = i \<and> iu_payload r = p \<and> iu_state r \<in> {RECEIVED, LEASED})"

fun finishes :: "int \<Rightarrow> inbox_call \<Rightarrow> bool" where
  "finishes i (I_done j) = (i = j)"
| "finishes i (I_failed j e) = (i = j)"
| "finishes i c = False"

lemma waiting_update:
  assumes "waiting ib i p"
    and "\<And>r. iu_id r = i \<Longrightarrow> P r \<Longrightarrow> iu_id (f r) = i \<and> iu_payload (f r) = iu_payload r
           \<and> iu_state (f r) \<in> {RECEIVED, LEASED}"
  shows "waiting (tbl_update P f ib) i p"
proof -
  obtain r where r: "r \<in> set (rows ib)" "iu_id r = i" "iu_payload r = p" "iu_state r \<in> {RECEIVED, LEASED}"
    using assms(1) by (auto simp: waiting_def)
  have "(if P r then f r else r) \<in> set (rows (tbl_update P f ib))" using r(1) by auto
  then show ?thesis unfolding waiting_def using r assms(2)[of r]
    by (intro bexI[of _ "if P r then f r else r"]) auto
qed

lemma waiting_exec: "waiting ib i p \<Longrightarrow> \<not> finishes i c \<Longrightarrow> waiting (inbox_exec now c ib) i p"
  by (cases c)
    (auto simp: claim_open_def Let_def requeue_leased_def inbox_mark_done_def inbox_mark_failed_def
      inbox_release_def inbox_store_cases intro!: waiting_update, auto simp: waiting_def)

lemma waiting_run:
  "waiting ib i p \<Longrightarrow> \<forall>(t, c)\<in>set cs. \<not> finishes i c \<Longrightarrow> waiting (inbox_run cs ib) i p"
  by (induction cs ib rule: inbox_run.induct) (auto simp: waiting_exec)

text \<open>C17. An update that was stored is never lost: until it is marked done or failed itself, no
  sequence of stores, claims, releases, other updates' outcomes or restarts takes its row or its
  payload away, and after a restart it is open to the next claim, whatever lease it was under.\<close>

theorem stored_update_survives:
  assumes "inbox_ok ib" "inbox_store now bid upd p b ib = (Some i, ib1)"
    and "\<forall>(t, c)\<in>set cs. \<not> finishes i c"
  shows "waiting (inbox_run cs ib1) i p
    \<and> (\<exists>r\<in>set (rows (snd (requeue_leased t (inbox_run cs ib1)))). iu_id r = i \<and> iu_payload r = p \<and> inbox_open t' None r)"
proof -
  have "waiting ib1 i p" using assms(2) by (auto simp: inbox_store_cases waiting_def split: if_splits)
  then have w: "waiting (inbox_run cs ib1) i p" using assms(3) by (rule waiting_run)
  then obtain r where r: "r \<in> set (rows (inbox_run cs ib1))" "iu_id r = i" "iu_payload r = p"
    and st: "iu_state r \<in> {RECEIVED, LEASED}" by (auto simp: waiting_def)
  let ?f = "\<lambda>r. r\<lparr>iu_state := RECEIVED, iu_lease_expires_at := None, iu_updated_at := t\<rparr>"
  let ?r = "if iu_state r = LEASED then ?f r else r"
  have "?r \<in> set (rows (snd (requeue_leased t (inbox_run cs ib1))))"
    using r(1) by (auto simp: requeue_leased_def)
  moreover have "iu_id ?r = i" "iu_payload ?r = p" "inbox_open t' None ?r"
    using r st by (auto simp: inbox_open_def)
  ultimately have "\<exists>r\<in>set (rows (snd (requeue_leased t (inbox_run cs ib1)))). iu_id r = i \<and> iu_payload r = p \<and> inbox_open t' None r"
    by blast
  with w show ?thesis by simp
qed

theorem stored_update_survives_witness:
  "waiting (inbox_run [(1, I_claim 5 50 None), (2, I_store 7 2 (JStr ''other'') None), (3, I_done 2)]
     (snd (inbox_store 0 7 1 (JStr ''hello'') (Some ''b'') empty_tbl))) 1 (JStr ''hello'')"
proof -
  have "fst (inbox_store 0 7 1 (JStr ''hello'') (Some ''b'') empty_tbl) = Some 1" by code_simp
  then have e: "inbox_store 0 7 1 (JStr ''hello'') (Some ''b'') empty_tbl
      = (Some 1, snd (inbox_store 0 7 1 (JStr ''hello'') (Some ''b'') empty_tbl))" by (simp add: prod_eq_iff)
  have f: "\<forall>(t, c)\<in>set [(1::int, I_claim 5 50 None), (2, I_store 7 2 (JStr ''other'') None), (3, I_done 2)]. \<not> finishes 1 c"
    by simp
  show ?thesis using stored_update_survives[OF inbox_ok_empty e f] by simp
qed

text \<open>Replays of one update are stored once: in any series of stores, the pair of bot and update
  id is accepted exactly once if the table did not know it, and never if it did.\<close>

theorem update_accepted_once:
  assumes "inbox_ok ib"
  shows "store_once.grants now p b k ks ib = (if k \<in> set ks \<and> \<not> knows_update ib k then 1 else 0)"
  by (rule store_once.grants_exact[OF assms])

text \<open>Workers asking for updates within one lease period are never handed the same update twice,
  and each is handed the oldest open updates of its bot, in arrival order.\<close>

theorem updates_leased_once:
  assumes "inbox_ok ib" "sorted ts" "\<forall>t\<in>set ts. \<forall>t'\<in>set ts. t < t' + l"
  shows "distinct (fst (open_lease.leases n l bid ts ib))
    \<and> map iu_id (fst (claim_open now n l bid ib)) = take n (map iu_id (filter (inbox_open now bid) (rows ib)))
    \<and> sorted_wrt (<) (map iu_id (fst (claim_open now n l bid ib)))"
proof -
  have eq: "map iu_id (fst (claim_open now n l bid ib)) = take n (map iu_id (filter (inbox_open now bid) (rows ib)))"
    using lease_open_simps(1)[OF assms(1), of n l bid now]
    by (simp add: lease_open_def split_beta tbl_select_def take_map)
  have "sorted_wrt (<) (map iu_id (rows ib))" using assms(1) by (simp add: inbox_ok_def tbl_ok_def)
  then have "sorted_wrt (<) (take n (map iu_id (filter (inbox_open now bid) (rows ib))))"
    by (auto simp: sorted_wrt_map intro!: sorted_wrt_take sorted_wrt_filter)
  with eq open_lease.handed_out_once[OF assms] show ?thesis by simp
qed

theorem updates_leased_once_witness:
  "distinct (fst (open_lease.leases 5 50 None [10, 20, 30]
     (inbox_run [(0, I_store 7 1 (JStr ''a'') None), (1, I_store 7 2 (JStr ''b'') None)] empty_tbl)))"
proof -
  have q: "inbox_ok (inbox_run [(0, I_store 7 1 (JStr ''a'') None), (1, I_store 7 2 (JStr ''b'') None)] empty_tbl)"
    by (rule inbox_ok_run) simp
  show ?thesis using updates_leased_once[OF q, of "[10, 20, 30]" 50 5 None] by simp
qed

text \<open>The polling cursor is the highest offset ever remembered: it never goes back, and the order
  in which acknowledgements are written does not matter.\<close>

theorem cursor_is_the_maximum:
  "inbox_offset bid (fold (remember_offset now bid) offs s) = Max (insert (inbox_offset bid s) (Some ` set offs))"
  by (rule cursor.advances_max)

end
