(* ===== verification/Message_Map.thy ===== *)
theory Message_Map
  imports Outbox SourceKeys Interfaces
begin

section \<open>The message map\<close>

text \<open>
  \<open>MessageMapRepository\<close> of \<open>bridge/storage/repositories.py\<close>: the mapping between a MAX message and
  its Telegram copies, which is also the gate that keeps a message from being delivered twice. A
  write that a unique index refuses is \<open>Inl IntegrityError\<close> where the method lets it out.
\<close>

type_synonym message_map = "message_link tbl"

definition claim_from_max ::
  "int \<Rightarrow> string \<Rightarrow> int \<Rightarrow> int \<Rightarrow> int \<Rightarrow> int \<Rightarrow> string option \<Rightarrow> message_map \<Rightarrow> int option \<times> message_map" where
  "claim_from_max now bridge chat msg bid tg_chat fp mm =
     (case tbl_try_insert ml_clash
        (\<lambda>i. \<lparr>ml_id = i, ml_bridge_name = bridge, ml_max_chat_id = chat, ml_max_message_id = Some msg,
              ml_telegram_bot_id = bid, ml_telegram_chat_id = tg_chat, ml_telegram_message_id = None,
              ml_direction = MAX_TO_TG, ml_source_marker = FROM_MAX, ml_created_at = now,
              ml_echo_fingerprint = fp, ml_owner_message_id = None, ml_owner_account_id = None\<rparr>) mm of
        Inl _ \<Rightarrow> (None, mm)
      | Inr (i, mm') \<Rightarrow> (Some i, mm'))"

definition attach_telegram_message :: "int \<Rightarrow> int \<Rightarrow> message_map \<Rightarrow> db_error + message_map" where
  "attach_telegram_message link tg mm =
     tbl_try_update ml_clash (\<lambda>r. ml_id r = link \<and> ml_telegram_message_id r = None)
       (\<lambda>r. r\<lparr>ml_telegram_message_id := Some tg\<rparr>) mm"

definition record_from_telegram ::
  "int \<Rightarrow> string \<Rightarrow> int \<Rightarrow> int \<Rightarrow> int \<Rightarrow> int option \<Rightarrow> int option \<Rightarrow> int option \<Rightarrow> int option
   \<Rightarrow> message_map \<Rightarrow> db_error + (int \<times> message_map)" where
  "record_from_telegram now bridge chat bid tg_chat tg msg owner_msg owner_acc mm =
     tbl_try_insert ml_clash
       (\<lambda>i. \<lparr>ml_id = i, ml_bridge_name = bridge, ml_max_chat_id = chat, ml_max_message_id = msg,
             ml_telegram_bot_id = bid, ml_telegram_chat_id = tg_chat, ml_telegram_message_id = tg,
             ml_direction = TG_TO_MAX, ml_source_marker = FROM_TG, ml_created_at = now,
             ml_echo_fingerprint = None, ml_owner_message_id = owner_msg,
             ml_owner_account_id = owner_acc\<rparr>) mm"

definition link_by_id :: "int \<Rightarrow> message_map \<Rightarrow> message_link option" where
  "link_by_id link mm = tbl_one (\<lambda>r. ml_id r = link) mm"

definition attach_max_message :: "int \<Rightarrow> int \<Rightarrow> message_map \<Rightarrow> db_error + (bool \<times> message_map)" where
  "attach_max_message link msg mm =
     (case tbl_try_update ml_clash
             (\<lambda>r. ml_id r = link \<and> (ml_max_message_id r = None \<or> ml_max_message_id r = Some msg))
             (\<lambda>r. r\<lparr>ml_max_message_id := Some msg\<rparr>) mm of
        Inl e \<Rightarrow> Inl e
      | Inr mm' \<Rightarrow>
          Inr (case link_by_id link mm' of
                 None \<Rightarrow> False
               | Some r \<Rightarrow> (case ml_max_message_id r of None \<Rightarrow> True | Some stored \<Rightarrow> stored = msg), mm'))"

definition by_max_message :: "int \<Rightarrow> int \<Rightarrow> int \<Rightarrow> message_map \<Rightarrow> message_link option" where
  "by_max_message chat msg bid mm =
     tbl_one (\<lambda>r. ml_max_chat_id r = chat \<and> ml_max_message_id r = Some msg \<and> ml_telegram_bot_id r = bid) mm"

definition recent_max_messages :: "int \<Rightarrow> int \<Rightarrow> nat \<Rightarrow> message_map \<Rightarrow> message_link list" where
  "recent_max_messages chat bid limit mm =
     take limit (rev (sort_key (\<lambda>r. case ml_max_message_id r of None \<Rightarrow> 0 | Some m \<Rightarrow> m)
       (tbl_select (\<lambda>r. ml_max_chat_id r = chat \<and> ml_telegram_bot_id r = bid
          \<and> ml_max_message_id r \<noteq> None \<and> ml_telegram_message_id r \<noteq> None) mm)))"

record placed_message =
  pl_link_id :: int
  pl_telegram_chat_id :: int
  pl_telegram_message_id :: "int option"
  pl_owner_message_id :: "int option"

definition placed_by :: "string \<Rightarrow> message_map \<Rightarrow> placed_message list" where
  "placed_by bridge mm =
     map (\<lambda>r. \<lparr>pl_link_id = ml_id r, pl_telegram_chat_id = ml_telegram_chat_id r,
               pl_telegram_message_id = ml_telegram_message_id r,
               pl_owner_message_id = ml_owner_message_id r\<rparr>)
       (sort_key ml_id (tbl_select (\<lambda>r. ml_bridge_name r = bridge \<and> ml_max_message_id r \<noteq> None) mm))"

definition forget :: "int \<Rightarrow> message_map \<Rightarrow> message_map" where
  "forget link = tbl_delete (\<lambda>r. ml_id r = link)"

text \<open>
  The EXISTS of \<open>unsent_claims\<close> compares with the key \<open>max_source_key\<close> builds; for a row whose MAX id
  is NULL the concatenation is NULL and matches nothing.
\<close>

definition has_job :: "outbox \<Rightarrow> message_link \<Rightarrow> bool" where
  "has_job ob r = (case ml_max_message_id r of
     None \<Rightarrow> False
   | Some m \<Rightarrow> by_source_key (max_source_key (ml_max_chat_id r) m) ob \<noteq> None)"

definition unsent_claims :: "int \<Rightarrow> outbox \<Rightarrow> message_map \<Rightarrow> message_link list" where
  "unsent_claims since ob mm =
     sort_key ml_id (tbl_select (\<lambda>r. ml_direction r = MAX_TO_TG \<and> ml_telegram_message_id r = None
       \<and> ml_owner_message_id r = None \<and> ml_created_at r \<ge> since \<and> \<not> has_job ob r) mm)"

definition map_attach_owner_message :: "int \<Rightarrow> int \<Rightarrow> int option \<Rightarrow> message_map \<Rightarrow> message_map" where
  "map_attach_owner_message link owner_msg account mm =
     (case account of
        None \<Rightarrow> tbl_update (\<lambda>r. ml_id r = link) (\<lambda>r. r\<lparr>ml_owner_message_id := Some owner_msg\<rparr>) mm
      | Some a \<Rightarrow> tbl_update (\<lambda>r. ml_id r = link)
          (\<lambda>r. r\<lparr>ml_owner_message_id := Some owner_msg, ml_owner_account_id := Some a\<rparr>) mm)"

definition by_owner_message :: "int \<Rightarrow> int \<Rightarrow> message_map \<Rightarrow> message_link option" where
  "by_owner_message bid owner_msg mm =
     tbl_one (\<lambda>r. ml_telegram_bot_id r = bid \<and> ml_owner_message_id r = Some owner_msg) mm"

definition unattached_owner_rows :: "int \<Rightarrow> int \<Rightarrow> message_map \<Rightarrow> message_link list" where
  "unattached_owner_rows bid since mm =
     sort_key ml_id (tbl_select (\<lambda>r. ml_telegram_bot_id r = bid \<and> ml_direction r = TG_TO_MAX
       \<and> ml_telegram_message_id r = None \<and> ml_owner_message_id r \<noteq> None \<and> ml_created_at r \<ge> since) mm)"

definition attach_bot_message_if_unset :: "int \<Rightarrow> int \<Rightarrow> message_map \<Rightarrow> db_error + (bool \<times> message_map)" where
  "attach_bot_message_if_unset link tg mm =
     (let P = (\<lambda>r. ml_id r = link \<and> ml_telegram_message_id r = None) in
      case tbl_try_update ml_clash P (\<lambda>r. r\<lparr>ml_telegram_message_id := Some tg\<rparr>) mm of
        Inl e \<Rightarrow> Inl e
      | Inr mm' \<Rightarrow> Inr (tbl_count P mm > 0, mm'))"

definition owner_bound_keys :: "message_map \<Rightarrow> (int \<times> int \<times> int) list" where
  "owner_bound_keys mm =
     sort_key (\<lambda>(a, b, m). m) (remdups (concat (map (\<lambda>r.
       case (ml_owner_account_id r, ml_owner_message_id r) of
         (Some a, Some m) \<Rightarrow> [(a, ml_telegram_bot_id r, m)]
       | _ \<Rightarrow> []) (rows mm))))"

definition owner_binding_counts :: "message_map \<Rightarrow> int \<times> int" where
  "owner_binding_counts mm =
     (tbl_count (\<lambda>r. ml_direction r = MAX_TO_TG \<and> ml_owner_message_id r \<noteq> None) mm,
      tbl_count (\<lambda>r. ml_direction r = MAX_TO_TG \<and> ml_owner_message_id r = None
                     \<and> ml_telegram_message_id r \<noteq> None) mm)"

definition by_owner_account_message :: "int \<Rightarrow> int \<Rightarrow> message_map \<Rightarrow> message_link option" where
  "by_owner_account_message account owner_msg mm =
     tbl_one (\<lambda>r. ml_owner_account_id r = Some account \<and> ml_owner_message_id r = Some owner_msg) mm"

subsection \<open>Binding the owner's echoes\<close>

definition unbound_echo :: "int \<Rightarrow> message_link \<Rightarrow> bool" where
  "unbound_echo bid r \<longleftrightarrow> ml_telegram_bot_id r = bid \<and> ml_direction r = MAX_TO_TG
     \<and> ml_owner_message_id r = None \<and> ml_echo_fingerprint r \<noteq> None"

definition oldest_unbound_echo :: "int \<Rightarrow> message_map \<Rightarrow> message_link option" where
  "oldest_unbound_echo bid mm =
     (case sort_key ml_id (tbl_select (unbound_echo bid) mm) of [] \<Rightarrow> None | r # _ \<Rightarrow> Some r)"

definition bind_owner_message :: "int \<Rightarrow> int \<Rightarrow> int \<Rightarrow> message_map \<Rightarrow> bool \<times> message_map" where
  "bind_owner_message link account owner_msg mm =
     (let P = (\<lambda>r. ml_id r = link \<and> (ml_owner_message_id r = None
                 \<or> (ml_owner_account_id r = Some account \<and> ml_owner_message_id r = Some owner_msg)))
      in (tbl_count P mm > 0,
          tbl_update P (\<lambda>r. r\<lparr>ml_owner_account_id := Some account, ml_owner_message_id := Some owner_msg\<rparr>) mm))"

definition map_stop_binding :: "int \<Rightarrow> message_map \<Rightarrow> bool \<times> message_map" where
  "map_stop_binding link mm =
     (let P = (\<lambda>r. ml_id r = link \<and> ml_owner_message_id r = None)
      in (tbl_count P mm > 0, tbl_update P (\<lambda>r. r\<lparr>ml_echo_fingerprint := None\<rparr>) mm))"

subsection \<open>Lookups\<close>

definition by_telegram_message :: "int \<Rightarrow> int \<Rightarrow> message_map \<Rightarrow> message_link option" where
  "by_telegram_message bid tg mm =
     tbl_one (\<lambda>r. ml_telegram_bot_id r = bid \<and> ml_telegram_message_id r = Some tg) mm"

definition is_echo_of_our_own :: "int \<Rightarrow> int \<Rightarrow> message_map \<Rightarrow> bool" where
  "is_echo_of_our_own chat msg mm =
     (tbl_one (\<lambda>r. ml_max_chat_id r = chat \<and> ml_max_message_id r = Some msg
                   \<and> ml_source_marker r = FROM_TG) mm \<noteq> None)"

definition newest :: "(message_link \<Rightarrow> bool) \<Rightarrow> message_map \<Rightarrow> message_link option" where
  "newest P mm = (case rev (sort_key ml_id (tbl_select P mm)) of [] \<Rightarrow> None | r # _ \<Rightarrow> Some r)"

definition last_outgoing :: "string \<Rightarrow> message_map \<Rightarrow> message_link option" where
  "last_outgoing bridge =
     newest (\<lambda>r. ml_bridge_name r = bridge \<and> ml_direction r = MAX_TO_TG \<and> ml_telegram_message_id r \<noteq> None)"

text \<open>The two populations \<open>last_read_by_owner\<close> searches, as pairs of link and owner-side id.\<close>

definition reached_rows :: "string \<Rightarrow> int \<Rightarrow> int \<Rightarrow> message_map \<Rightarrow> (int \<times> int) list" where
  "reached_rows bridge account mark mm =
     concat (map (\<lambda>r. case ml_owner_message_id r of
         Some m \<Rightarrow> if ml_bridge_name r = bridge \<and> ml_direction r = MAX_TO_TG
                     \<and> ml_owner_account_id r = Some account \<and> m \<le> mark then [(ml_id r, m)] else []
       | None \<Rightarrow> []) (rows mm))"

definition reached_parts :: "string \<Rightarrow> int \<Rightarrow> int \<Rightarrow> media_part tbl \<Rightarrow> (int \<times> int) list" where
  "reached_parts bridge account mark mg =
     concat (map (\<lambda>p. case (mp_link_id p, mp_owner_message_id p) of
         (Some l, Some m) \<Rightarrow> if mp_bridge_name p = bridge \<and> mp_direction p = Some MAX_TO_TG
                     \<and> mp_owner_account_id p = Some account \<and> m \<le> mark then [(l, m)] else []
       | _ \<Rightarrow> []) (rows mg))"

fun greatest :: "(int \<times> int) list \<Rightarrow> (int \<times> int) option" where
  "greatest [] = None"
| "greatest (c # cs) = (case greatest cs of
     None \<Rightarrow> Some c
   | Some d \<Rightarrow> if snd c \<ge> snd d then Some c else Some d)"

definition last_read_by_owner ::
  "string \<Rightarrow> int \<Rightarrow> int \<Rightarrow> media_part tbl \<Rightarrow> message_map \<Rightarrow> message_link option" where
  "last_read_by_owner bridge account mark mg mm =
     (case greatest (reached_rows bridge account mark mm @ reached_parts bridge account mark mg) of
        None \<Rightarrow> None
      | Some (link, _) \<Rightarrow> link_by_id link mm)"

definition last_sent_to_max :: "string \<Rightarrow> int option \<Rightarrow> message_map \<Rightarrow> message_link option" where
  "last_sent_to_max bridge cutoff =
     newest (\<lambda>r. ml_bridge_name r = bridge \<and> ml_direction r = TG_TO_MAX \<and> ml_telegram_message_id r \<noteq> None
               \<and> (case cutoff of None \<Rightarrow> True | Some c \<Rightarrow> ml_created_at r \<le> c))"

subsection \<open>The invariant\<close>

text \<open>
  The table is well formed, a row's marker says the same as its direction, and a row carried from MAX
  names its MAX message.
\<close>

definition link_ok :: "message_link \<Rightarrow> bool" where
  "link_ok r \<longleftrightarrow> (ml_direction r = MAX_TO_TG) = (ml_source_marker r = FROM_MAX)
     \<and> (ml_direction r = MAX_TO_TG \<longrightarrow> ml_max_message_id r \<noteq> None)"

definition map_ok :: "message_map \<Rightarrow> bool" where
  "map_ok mm \<longleftrightarrow> tbl_ok ml_id ml_clash mm \<and> (\<forall>r\<in>set (rows mm). link_ok r)"

lemma map_ok_empty [simp]: "map_ok empty_tbl"
  by (simp add: map_ok_def) (simp add: empty_tbl_def)

lemma map_id_unique:
  assumes "map_ok mm" "a \<in> set (rows mm)" "b \<in> set (rows mm)" "ml_id a = ml_id b"
  shows "a = b"
  using tbl_id_unique[of ml_id ml_clash mm] assms by (auto simp: map_ok_def)

lemma link_by_id_eq:
  assumes "map_ok mm" "r \<in> set (rows mm)"
  shows "link_by_id (ml_id r) mm = Some r"
  using assms tbl_one_by_id[of ml_id ml_clash mm r] by (simp add: link_by_id_def map_ok_def)

lemma link_by_id_Some: "link_by_id i mm = Some r \<Longrightarrow> r \<in> set (rows mm) \<and> ml_id r = i"
  unfolding link_by_id_def by (drule tbl_one_Some) simp

lemma map_ok_try_update:
  assumes "map_ok mm" "tbl_try_update ml_clash P f mm = Inr mm'"
    and "\<And>r. ml_id (f r) = ml_id r" "\<And>r. link_ok r \<Longrightarrow> P r \<Longrightarrow> link_ok (f r)"
  shows "map_ok mm'"
  using assms tbl_try_update_ok[of ml_id ml_clash mm P f mm']
  by (auto simp: map_ok_def tbl_try_update_Inr)

lemma map_ok_update:
  assumes "map_ok mm" "\<And>r. ml_id (f r) = ml_id r \<and> ml_max_message_id (f r) = ml_max_message_id r
     \<and> ml_max_chat_id (f r) = ml_max_chat_id r \<and> ml_telegram_bot_id (f r) = ml_telegram_bot_id r
     \<and> ml_telegram_message_id (f r) = ml_telegram_message_id r"
    and "\<And>r. link_ok r \<Longrightarrow> P r \<Longrightarrow> link_ok (f r)"
  shows "map_ok (tbl_update P f mm)"
  using assms by (auto simp: map_ok_def ml_clash_def intro!: tbl_ok_update_plain)

definition knows_max :: "message_map \<Rightarrow> int \<times> int \<times> int \<Rightarrow> bool" where
  "knows_max mm k \<longleftrightarrow>
     (\<exists>r\<in>set (rows mm). (ml_max_chat_id r, ml_max_message_id r, ml_telegram_bot_id r)
        = (fst k, Some (fst (snd k)), snd (snd k)))"

lemma claim_granted: "fst (claim_from_max now b c m bid tg fp mm) \<noteq> None \<longleftrightarrow> \<not> knows_max mm (c, m, bid)"
  by (auto simp: claim_from_max_def tbl_try_insert_def list_ex_iff ml_clash_def tbl_insert_def knows_max_def)

lemma claim_refused: "knows_max mm (c, m, bid) \<Longrightarrow> claim_from_max now b c m bid tg fp mm = (None, mm)"
  by (auto simp: claim_from_max_def tbl_try_insert_def list_ex_iff ml_clash_def knows_max_def)

lemma claimed_link:
  assumes "claim_from_max now b c m bid tg fp mm = (Some i, mm')"
  shows "i = seq mm + 1 \<and> (\<exists>r. rows mm' = rows mm @ [r] \<and> ml_id r = i \<and> ml_max_chat_id r = c
     \<and> ml_max_message_id r = Some m \<and> ml_telegram_bot_id r = bid \<and> ml_telegram_message_id r = None
     \<and> ml_direction r = MAX_TO_TG \<and> ml_echo_fingerprint r = fp \<and> ml_owner_message_id r = None)"
  using assms by (auto simp: claim_from_max_def tbl_try_insert_def tbl_insert_def split: if_splits)

lemma map_ok_claim: "map_ok mm \<Longrightarrow> map_ok (snd (claim_from_max now b c m bid tg fp mm))"
  unfolding claim_from_max_def
  by (auto simp: map_ok_def tbl_try_insert_Inr link_ok_def split: sum.split intro: tbl_try_insert_ok)

lemma map_ok_record:
  assumes "map_ok mm" "record_from_telegram now b c bid tg t m om oa mm = Inr (i, mm')"
  shows "map_ok mm'"
  using assms unfolding record_from_telegram_def
  by (auto simp: map_ok_def tbl_try_insert_Inr link_ok_def intro: tbl_try_insert_ok)

lemma map_ok_attach:
  assumes "map_ok mm"
  shows "attach_telegram_message l t mm = Inr mm1 \<Longrightarrow> map_ok mm1"
    "attach_max_message l m mm = Inr (b, mm1) \<Longrightarrow> map_ok mm1"
    "attach_bot_message_if_unset l t mm = Inr (b, mm1) \<Longrightarrow> map_ok mm1"
  using assms
  by (auto simp: attach_telegram_message_def attach_max_message_def attach_bot_message_if_unset_def
      Let_def link_ok_def split: sum.splits elim!: map_ok_try_update)

lemma map_ok_bindings:
  assumes "map_ok mm"
  shows "map_ok (map_attach_owner_message l m acc mm)" "map_ok (snd (bind_owner_message l a m mm))"
    "map_ok (snd (map_stop_binding l mm))" "map_ok (forget l mm)"
  using assms
  by (auto simp: map_attach_owner_message_def bind_owner_message_def map_stop_binding_def Let_def
      link_ok_def split: option.split intro!: map_ok_update)
    (auto simp: forget_def map_ok_def intro: tbl_ok_delete)

lemmas map_ok_ops = map_ok_claim map_ok_record map_ok_attach map_ok_bindings

subsection \<open>The dedup gate\<close>

definition claim_key :: "int \<Rightarrow> string \<Rightarrow> int \<Rightarrow> string option \<Rightarrow> int \<times> int \<times> int \<Rightarrow> message_map \<Rightarrow> bool \<times> message_map" where
  "claim_key now b tg fp k mm =
     (case claim_from_max now b (fst k) (fst (snd k)) (snd (snd k)) tg fp mm of (i, mm') \<Rightarrow> (i \<noteq> None, mm'))"

interpretation max_gate: claim_once map_ok knows_max "claim_key now b tg fp" for now b tg fp
proof (unfold_locales, goal_cases)
  case (1 s k)
  then show ?case using map_ok_claim[OF 1] by (simp add: claim_key_def split_beta)
next
  case (2 s k)
  then show ?case
    using claim_granted[of now b "fst k" "fst (snd k)" "snd (snd k)" tg fp s] by (simp add: claim_key_def split_beta)
next
  case (3 s k k')
  then show ?case
    by (cases k; cases k')
      (auto simp: claim_key_def claim_from_max_def tbl_try_insert_def tbl_insert_def knows_max_def
        list_ex_iff ml_clash_def)
qed

datatype map_call =
    M_claim string int int int int "string option"
  | M_attach_telegram int int
  | M_record string int int int "int option" "int option" "int option" "int option"
  | M_attach_max int int
  | M_forget int
  | M_attach_owner int int "int option"
  | M_attach_bot int int
  | M_bind int int int
  | M_stop int

definition kept :: "'s \<Rightarrow> db_error + 's \<Rightarrow> 's" where
  "kept s r = (case r of Inl _ \<Rightarrow> s | Inr s' \<Rightarrow> s')"

fun map_exec :: "int \<Rightarrow> map_call \<Rightarrow> message_map \<Rightarrow> message_map" where
  "map_exec now (M_claim b c m bid tg fp) mm = snd (claim_from_max now b c m bid tg fp mm)"
| "map_exec now (M_attach_telegram l t) mm = kept mm (attach_telegram_message l t mm)"
| "map_exec now (M_record b c bid tg t m om oa) mm =
     kept mm (map_sum id snd (record_from_telegram now b c bid tg t m om oa mm))"
| "map_exec now (M_attach_max l m) mm = kept mm (map_sum id snd (attach_max_message l m mm))"
| "map_exec now (M_forget l) mm = forget l mm"
| "map_exec now (M_attach_owner l m a) mm = map_attach_owner_message l m a mm"
| "map_exec now (M_attach_bot l t) mm = kept mm (map_sum id snd (attach_bot_message_if_unset l t mm))"
| "map_exec now (M_bind l a m) mm = snd (bind_owner_message l a m mm)"
| "map_exec now (M_stop l) mm = snd (map_stop_binding l mm)"

fun map_run :: "(int \<times> map_call) list \<Rightarrow> message_map \<Rightarrow> message_map" where
  "map_run [] mm = mm"
| "map_run ((now, c) # cs) mm = map_run cs (map_exec now c mm)"

lemma kept_cases: "P s \<Longrightarrow> (\<And>s'. r = Inr s' \<Longrightarrow> P s') \<Longrightarrow> P (kept s r)"
  by (cases r) (auto simp: kept_def)

lemma map_sum_Inr: "map_sum id snd r = Inr s \<longleftrightarrow> (\<exists>b. r = Inr (b, s))"
  by (cases r) auto

lemma map_ok_exec: "map_ok mm \<Longrightarrow> map_ok (map_exec now c mm)"
  by (cases c) (auto simp: map_sum_Inr map_ok_claim map_ok_bindings intro!: kept_cases[of map_ok]
      elim: map_ok_record[rotated] map_ok_attach[rotated])

lemma map_ok_run: "map_ok mm \<Longrightarrow> map_ok (map_run cs mm)"
  by (induction cs mm rule: map_run.induct) (simp_all add: map_ok_exec)

text \<open>Whatever the bridge writes into the message map, starting from the empty table, ids stay
  unique, no MAX message has two rows under one bot, no bot message belongs to two rows, a row's
  source marker agrees with its direction, and a row carried from MAX always names its MAX
  message.\<close>

theorem message_map_invariant: "map_ok (map_run cs empty_tbl)"
  by (rule map_ok_run) simp

definition holds_claim :: "message_map \<Rightarrow> int \<Rightarrow> int \<times> int \<times> int \<Rightarrow> bool" where
  "holds_claim mm i k \<longleftrightarrow> (\<exists>r\<in>set (rows mm). ml_id r = i
     \<and> (ml_max_chat_id r, ml_max_message_id r, ml_telegram_bot_id r) = (fst k, Some (fst (snd k)), snd (snd k)))"

lemma holds_claim_update:
  assumes "holds_claim mm i k"
    and "\<And>r. P r \<Longrightarrow> holds_claim \<lparr>rows = [r], seq = 0\<rparr> i k \<Longrightarrow> holds_claim \<lparr>rows = [f r], seq = 0\<rparr> i k"
  shows "holds_claim (tbl_update P f mm) i k"
proof -
  obtain r where r: "r \<in> set (rows mm)" "holds_claim \<lparr>rows = [r], seq = 0\<rparr> i k"
    using assms(1) by (auto simp: holds_claim_def)
  then have "(if P r then f r else r) \<in> set (rows (tbl_update P f mm))"
    "holds_claim \<lparr>rows = [if P r then f r else r], seq = 0\<rparr> i k" using assms(2) by auto
  then show ?thesis unfolding holds_claim_def by (auto simp del: rows_update)
qed

lemma holds_claim_exec:
  assumes "holds_claim mm i k" "c \<noteq> M_forget i"
  shows "holds_claim (map_exec now c mm) i k"
proof (cases c)
  case (M_forget l)
  then show ?thesis using assms by (auto simp: forget_def holds_claim_def)
next
  case (M_attach_owner l m a)
  then show ?thesis using assms(1)
    by (cases a) (auto simp: map_attach_owner_message_def intro!: holds_claim_update, auto simp: holds_claim_def)
qed (use assms(1) in \<open>auto simp: map_sum_Inr claim_from_max_def record_from_telegram_def attach_max_message_def
    attach_telegram_message_def attach_bot_message_if_unset_def bind_owner_message_def
    map_stop_binding_def Let_def tbl_try_update_Inr tbl_try_insert_Inr split: sum.splits
    intro!: kept_cases[of "\<lambda>mm. holds_claim mm i k"] holds_claim_update, auto simp: holds_claim_def tbl_insert_def\<close>)

lemma holds_claim_run:
  assumes "holds_claim mm i k" "\<forall>(t, c)\<in>set cs. c \<noteq> M_forget i"
  shows "holds_claim (map_run cs mm) i k"
  using assms by (induction cs mm rule: map_run.induct) (auto simp: holds_claim_exec)

text \<open>C8. The dedup gate. A MAX message whose claim was granted is refused to every later claim,
  whatever else happens to the map in between, as long as that one row is not forgotten; and the
  refused claim changes nothing.\<close>

theorem claim_granted_once:
  assumes "claim_from_max now b c m bid tg fp mm = (Some i, mm1)"
    and "\<forall>(t, c)\<in>set cs. c \<noteq> M_forget i"
  shows "claim_from_max now' b' c m bid tg' fp' (map_run cs mm1) = (None, map_run cs mm1)"
proof -
  have "holds_claim mm1 i (c, m, bid)" using claimed_link[OF assms(1)] by (auto simp: holds_claim_def)
  then have "holds_claim (map_run cs mm1) i (c, m, bid)" using assms(2) by (rule holds_claim_run)
  then have "knows_max (map_run cs mm1) (c, m, bid)" by (auto simp: holds_claim_def knows_max_def)
  then show ?thesis by (rule claim_refused)
qed

theorem claim_granted_once_witness:
  "fst (claim_from_max 9 ''b'' 100 7 55 1 None
     (map_run [(1, M_attach_telegram 1 900), (2, M_forget 5)] (snd (claim_from_max 0 ''b'' 100 7 55 1 (Some ''t1:a'') empty_tbl)))) = None"
proof -
  have "fst (claim_from_max 0 ''b'' 100 7 55 1 (Some ''t1:a'') empty_tbl) = Some 1" by code_simp
  then have e: "claim_from_max 0 ''b'' 100 7 55 1 (Some ''t1:a'') empty_tbl
      = (Some 1, snd (claim_from_max 0 ''b'' 100 7 55 1 (Some ''t1:a'') empty_tbl))" by (simp add: prod_eq_iff)
  have "\<forall>(t, c)\<in>set [(1::int, M_attach_telegram 1 900), (2, M_forget 5)]. c \<noteq> M_forget 1" by simp
  from claim_granted_once[OF e this] show ?thesis by simp
qed

subsection \<open>Identities filled in once\<close>

definition max_slot :: "int \<Rightarrow> message_map \<Rightarrow> int option" where
  "max_slot link mm = Option.bind (link_by_id link mm) ml_max_message_id"

definition fill_max :: "int \<Rightarrow> int \<Rightarrow> message_map \<Rightarrow> bool \<times> message_map" where
  "fill_max link msg mm = (case attach_max_message link msg mm of Inl _ \<Rightarrow> (False, mm) | Inr r \<Rightarrow> r)"

definition owner_slot :: "int \<Rightarrow> message_map \<Rightarrow> (int option \<times> int) option" where
  "owner_slot link mm = Option.bind (link_by_id link mm)
     (\<lambda>r. map_option (\<lambda>m. (ml_owner_account_id r, m)) (ml_owner_message_id r))"

definition fill_owner :: "int \<Rightarrow> int \<times> int \<Rightarrow> message_map \<Rightarrow> bool \<times> message_map" where
  "fill_owner link v mm = bind_owner_message link (fst v) (snd v) mm"

lemma find_map_if:
  assumes "\<And>r. Q (f r) = Q r"
  shows "find Q (map (\<lambda>r. if P r then f r else r) rs) = map_option (\<lambda>r. if P r then f r else r) (find Q rs)"
  using assms by (induction rs) auto

lemma link_by_id_update:
  assumes "\<And>r. ml_id (f r) = ml_id r"
  shows "link_by_id i (tbl_update P f mm) = map_option (\<lambda>r. if P r then f r else r) (link_by_id i mm)"
  unfolding link_by_id_def tbl_one_def using assms by (simp add: find_map_if)

lemma count_pos: "tbl_count P t > 0 \<longleftrightarrow> (\<exists>r\<in>set (rows t). P r)"
  by (auto simp: tbl_count_def filter_empty_conv)

lemma link_iff:
  assumes "map_ok mm"
  shows "(\<exists>r\<in>set (rows mm). ml_id r = i \<and> Q r) \<longleftrightarrow> (case link_by_id i mm of None \<Rightarrow> False | Some r \<Rightarrow> Q r)"
proof (cases "link_by_id i mm")
  case None
  then have "\<forall>r\<in>set (rows mm). ml_id r \<noteq> i" by (simp add: link_by_id_def tbl_one_None)
  then show ?thesis by (auto simp: None)
next
  case (Some r)
  then show ?thesis using link_by_id_Some[OF Some] map_id_unique[OF assms] by fastforce
qed

lemma fill_max_eq:
  "fill_max link msg mm =
     (let mm' = tbl_update (\<lambda>r. ml_id r = link \<and> (ml_max_message_id r = None \<or> ml_max_message_id r = Some msg))
                  (\<lambda>r. r\<lparr>ml_max_message_id := Some msg\<rparr>) mm
      in if no_clash ml_clash (rows mm') then (max_slot link mm = None \<and> link_by_id link mm \<noteq> None \<or> max_slot link mm = Some msg, mm')
         else (False, mm))"
  by (auto simp: fill_max_def attach_max_message_def tbl_try_update_def Let_def link_by_id_update max_slot_def
      split: option.splits dest: link_by_id_Some)

interpretation max_id: fill_once map_ok "max_slot link" "\<lambda>v. v" "fill_max link" for link
proof (unfold_locales, goal_cases)
  case (1 s v)
  then show ?case using map_ok_attach(2)[OF 1]
    by (auto simp: fill_max_def split: sum.split)
next
  case (2 s v)
  then show ?case
    by (cases "link_by_id link s")
      (auto simp: fill_max_eq Let_def max_slot_def link_by_id_update split: if_splits dest: link_by_id_Some)
next
  case (3 s v)
  then show ?case
    by (cases "link_by_id link s")
      (auto simp: fill_max_eq Let_def max_slot_def link_by_id_update split: if_splits dest: link_by_id_Some)
next
  case (4 s w v)
  have same: "tbl_update (\<lambda>r. ml_id r = link \<and> (ml_max_message_id r = None \<or> ml_max_message_id r = Some v))
      (\<lambda>r. r\<lparr>ml_max_message_id := Some v\<rparr>) s = s"
  proof -
    have "(if ml_id r = link \<and> (ml_max_message_id r = None \<or> ml_max_message_id r = Some v)
           then r\<lparr>ml_max_message_id := Some v\<rparr> else r) = r" if "r \<in> set (rows s)" for r
      using that link_by_id_eq[OF 4(1) that] 4(2) by (auto simp: max_slot_def)
    then show ?thesis by (simp add: tbl_update_def map_idI)
  qed
  have "no_clash ml_clash (rows s)" using 4(1) by (simp add: map_ok_def tbl_ok_def)
  with same 4 show ?case by (auto simp: fill_max_eq Let_def)
qed

text \<open>The MAX id of a mapping row is filled in once. Of all the settlements that name one row, in
  whatever order and however often, the first accepted id stays, each later caller is told True
  exactly if it brought the same id, and no other row changes it.\<close>

theorem max_id_filled_once:
  assumes "map_ok mm" "max_slot link mm = None" "fst (fill_max link v mm)"
  shows "max_slot link (snd (max_id.fills link (v # vs) mm)) = Some v
    \<and> fst (max_id.fills link (v # vs) mm) = True # map (\<lambda>u. u = v) vs"
  using max_id.first_writer_wins[OF assms] by simp

definition example_map :: message_map where
  "example_map = map_run
     [(0, M_record ''b'' 100 55 1 None None (Some 41) (Some 9)),
      (1, M_claim ''b'' 100 7 55 1 (Some ''t1:a'')), (2, M_claim ''b'' 100 8 55 1 (Some ''t1:a''))] empty_tbl"

lemma example_map_ok: "map_ok example_map"
  unfolding example_map_def by (rule map_ok_run) simp

theorem max_id_filled_once_witness:
  "fst (max_id.fills 1 [70, 71, 70] example_map) = [True, False, True]
   \<and> max_slot 1 (snd (max_id.fills 1 [70, 71, 70] example_map)) = Some 70"
proof -
  have s: "max_slot 1 example_map = None" by code_simp
  have f: "fst (fill_max 1 70 example_map)" by code_simp
  show ?thesis using max_id_filled_once[OF example_map_ok s f, of "[71, 70]"] by simp
qed

lemma bind_owner_eq:
  assumes "map_ok mm"
  shows "fst (bind_owner_message link a m mm) \<longleftrightarrow>
    (owner_slot link mm = None \<and> link_by_id link mm \<noteq> None \<or> owner_slot link mm = Some (Some a, m))"
  by (auto simp: bind_owner_message_def Let_def count_pos link_iff[OF assms] owner_slot_def split: option.splits bind_splits)

interpretation owner_id: fill_once map_ok "owner_slot link" "\<lambda>v. (Some (fst v), snd v)" "fill_owner link" for link
proof (unfold_locales, goal_cases)
  case (1 s v)
  then show ?case by (simp add: fill_owner_def map_ok_bindings)
next
  case (2 s v)
  then show ?case
    by (auto simp: fill_owner_def bind_owner_eq) (auto simp: bind_owner_message_def Let_def owner_slot_def
        link_by_id_update split: option.splits bind_splits dest: link_by_id_Some)
next
  case (3 s v)
  then show ?case
    by (auto simp: fill_owner_def bind_owner_eq) (auto simp: bind_owner_message_def Let_def owner_slot_def
        link_by_id_update split: option.splits bind_splits dest: link_by_id_Some)
next
  case (4 s w v)
  then show ?case
    by (cases w) (auto simp: fill_owner_def bind_owner_eq, auto simp: bind_owner_message_def Let_def owner_slot_def
        link_by_id_update split: option.splits bind_splits dest: link_by_id_Some)
qed

text \<open>The owner's own id of a delivered message is bound once: replaying the echo is an idempotent
  success, any other account or id is refused, and neither changes the binding.\<close>

theorem owner_id_bound_once:
  assumes "map_ok mm" "owner_slot link mm = None" "link_by_id link mm \<noteq> None"
  shows "owner_slot link (snd (owner_id.fills link (v # vs) mm)) = Some (Some (fst v), snd v)
    \<and> fst (owner_id.fills link (v # vs) mm) = True # map (\<lambda>u. u = v) vs"
proof -
  have "fst (fill_owner link v mm)" using assms by (simp add: fill_owner_def bind_owner_eq)
  from owner_id.first_writer_wins[OF assms(1,2) this] show ?thesis by (simp add: prod_eq_iff)
qed

subsection \<open>The queue of echoes\<close>

abbreviation echo_queue :: "int \<Rightarrow> message_map \<Rightarrow> message_link list" where
  "echo_queue bid mm \<equiv> filter (unbound_echo bid) (rows mm)"

lemma map_tbl_ok: "map_ok mm \<Longrightarrow> tbl_ok ml_id ml_clash mm"
  by (simp add: map_ok_def)

lemma oldest_is_head:
  assumes "map_ok mm"
  shows "oldest_unbound_echo bid mm = (case echo_queue bid mm of [] \<Rightarrow> None | r # _ \<Rightarrow> Some r)"
  using sort_key_id[OF map_tbl_ok[OF assms]] by (simp add: oldest_unbound_echo_def tbl_select_def)

lemma filter_drop_one:
  assumes "distinct (map rid rs)" "filter P rs = h # q" "\<And>r. rid (f r) = rid r" "\<not> P (f h)"
  shows "filter P (map (\<lambda>r. if rid r = rid h \<and> Q r then f r else r) rs) = (if Q h then q else h # q)"
proof -
  obtain us vs where rs: "rs = us @ h # vs" and us: "\<forall>u\<in>set us. \<not> P u" and h: "P h" and q: "q = filter P vs"
    using assms(2) by (auto simp: filter_eq_Cons_iff)
  have "map (\<lambda>r. if rid r = rid h \<and> Q r then f r else r) us = us"
    "map (\<lambda>r. if rid r = rid h \<and> Q r then f r else r) vs = vs"
    using assms(1) by (auto simp: rs intro!: map_idI) (metis image_eqI)+
  then show ?thesis using us h q assms(4) by (simp add: rs filter_empty_conv)
qed

lemma queue_after_bind:
  assumes "map_ok mm" "echo_queue bid mm = h # q"
  shows "fst (bind_owner_message (ml_id h) a m mm) \<and> echo_queue bid (snd (bind_owner_message (ml_id h) a m mm)) = q"
proof -
  have h: "h \<in> set (rows mm)" "unbound_echo bid h" using filter_eq_ConsD[OF assms(2)] by auto
  have d: "distinct (map ml_id (rows mm))" by (rule tbl_ok_distinct[OF map_tbl_ok[OF assms(1)]])
  have "fst (bind_owner_message (ml_id h) a m mm)"
    using h(2) link_by_id_eq[OF assms(1) h(1)] by (simp add: bind_owner_eq[OF assms(1)] owner_slot_def unbound_echo_def)
  moreover have "echo_queue bid (snd (bind_owner_message (ml_id h) a m mm)) = q"
    unfolding bind_owner_message_def Let_def snd_conv rows_update
    by (subst filter_drop_one[OF d assms(2)]) (use h(2) in \<open>simp_all add: unbound_echo_def\<close>)
  ultimately show ?thesis by blast
qed

lemma queue_after_stop:
  assumes "map_ok mm" "echo_queue bid mm = h # q"
  shows "echo_queue bid (snd (map_stop_binding (ml_id h) mm)) = q"
proof -
  have h: "unbound_echo bid h" using filter_eq_ConsD[OF assms(2)] by auto
  have d: "distinct (map ml_id (rows mm))" by (rule tbl_ok_distinct[OF map_tbl_ok[OF assms(1)]])
  show ?thesis
    unfolding map_stop_binding_def Let_def snd_conv rows_update
    by (subst filter_drop_one[OF d assms(2)]) (use h in \<open>simp_all add: unbound_echo_def\<close>)
qed

subsection \<open>The read mark\<close>

lemma greatest_None [simp]: "greatest cs = None \<longleftrightarrow> cs = []"
  by (cases cs) (auto split: option.splits)

lemma greatest_SomeD: "greatest cs = Some c \<Longrightarrow> c \<in> set cs \<and> (\<forall>d\<in>set cs. snd d \<le> snd c)"
proof (induction cs arbitrary: c)
  case (Cons a cs)
  show ?case
  proof (cases "greatest cs")
    case None
    then show ?thesis using Cons.prems by simp
  next
    case (Some d)
    then show ?thesis using Cons.prems Cons.IH[OF Some] by (auto split: if_splits)
  qed
qed simp

lemma reached_rows_iff:
  "(l, m) \<in> set (reached_rows b a w mm) \<longleftrightarrow> (\<exists>r\<in>set (rows mm). ml_id r = l \<and> ml_owner_message_id r = Some m
     \<and> ml_bridge_name r = b \<and> ml_direction r = MAX_TO_TG \<and> ml_owner_account_id r = Some a \<and> m \<le> w)"
  by (auto simp: reached_rows_def split: option.splits if_splits intro!: bexI)

text \<open>What it means that the owner's account can have reached a message: an owner-side id of that account
  at or below the mark, on the delivered row itself or on one of its album parts.\<close>

definition reached :: "string \<Rightarrow> int \<Rightarrow> int \<Rightarrow> media_part tbl \<Rightarrow> message_map \<Rightarrow> int \<Rightarrow> int \<Rightarrow> bool" where
  "reached b a w mg mm l m \<longleftrightarrow> m \<le> w \<and>
     ((\<exists>r\<in>set (rows mm). ml_id r = l \<and> ml_owner_message_id r = Some m \<and> ml_owner_account_id r = Some a
         \<and> ml_bridge_name r = b \<and> ml_direction r = MAX_TO_TG)
    \<or> (\<exists>p\<in>set (rows mg). mp_link_id p = Some l \<and> mp_owner_message_id p = Some m \<and> mp_owner_account_id p = Some a
         \<and> mp_bridge_name p = b \<and> mp_direction p = Some MAX_TO_TG))"

lemma reached_iff: "reached b a w mg mm l m \<longleftrightarrow> (l, m) \<in> set (reached_rows b a w mm @ reached_parts b a w mg)"
  unfolding reached_def set_append Un_iff reached_rows_iff
  by (force simp: reached_parts_def split: option.splits if_splits)

text \<open>C18. A read mark never overreaches and never falls short. The message \<open>last_read_by_owner\<close> answers
  with is one the owner's account has an id for at or below the mark - on the row itself or on one of
  its album parts, in that bridge, of that account - and no delivered message or part at or below the
  mark has a greater id. It answers None exactly if nothing qualifies or the row that the greatest part
  belongs to is gone.\<close>

theorem last_read_is_the_newest_reached:
  assumes "map_ok mm"
  shows "(case last_read_by_owner b a w mg mm of
      Some r \<Rightarrow> r \<in> set (rows mm) \<and> (\<exists>m. reached b a w mg mm (ml_id r) m \<and> (\<forall>l' m'. reached b a w mg mm l' m' \<longrightarrow> m' \<le> m))
    | None \<Rightarrow> (\<forall>l m. \<not> reached b a w mg mm l m)
        \<or> (\<exists>l m. reached b a w mg mm l m \<and> (\<forall>l' m'. reached b a w mg mm l' m' \<longrightarrow> m' \<le> m)
             \<and> (\<forall>r\<in>set (rows mm). ml_id r \<noteq> l)))"
proof (cases "greatest (reached_rows b a w mm @ reached_parts b a w mg)")
  case None
  then show ?thesis by (simp add: last_read_by_owner_def reached_iff)
next
  case (Some c)
  obtain l m where c: "c = (l, m)" by (cases c)
  have top: "reached b a w mg mm l m" "\<forall>l' m'. reached b a w mg mm l' m' \<longrightarrow> m' \<le> m"
    using greatest_SomeD[OF Some] unfolding reached_iff c by force+
  show ?thesis
  proof (cases "link_by_id l mm")
    case None
    then have "\<forall>r\<in>set (rows mm). ml_id r \<noteq> l" by (simp add: link_by_id_def tbl_one_None)
    then show ?thesis using None Some top by (auto simp: last_read_by_owner_def c)
  next
    case (Some r)
    then show ?thesis using \<open>greatest _ = Some c\<close> link_by_id_Some[OF Some] top
      by (auto simp: last_read_by_owner_def c)
  qed
qed

theorem last_read_is_the_newest_reached_witness:
  "\<exists>r. last_read_by_owner ''b'' 9 50 empty_tbl
        (map_run [(3, M_bind 2 9 40), (4, M_bind 3 9 60)] example_map) = Some r
     \<and> reached ''b'' 9 50 empty_tbl (map_run [(3, M_bind 2 9 40), (4, M_bind 3 9 60)] example_map) (ml_id r) 40"
proof -
  let ?m = "map_run [(3, M_bind 2 9 40), (4, M_bind 3 9 60)] example_map"
  have ok: "map_ok ?m" by (rule map_ok_run[OF example_map_ok])
  have c: "map_option ml_id (last_read_by_owner ''b'' 9 50 empty_tbl ?m) = Some 2" by code_simp
  then obtain r where r: "last_read_by_owner ''b'' 9 50 empty_tbl ?m = Some r" "ml_id r = 2" by auto
  have all: "reached_rows ''b'' 9 50 ?m @ reached_parts ''b'' 9 50 empty_tbl = [(2, 40)]" by code_simp
  have "\<exists>m. reached ''b'' 9 50 empty_tbl ?m (ml_id r) m"
    using last_read_is_the_newest_reached[OF ok, of "''b''" 9 50 empty_tbl] unfolding r(1) option.case by blast
  then have "reached ''b'' 9 50 empty_tbl ?m (ml_id r) 40"
    unfolding reached_iff all by auto
  then show ?thesis using r(1) by blast
qed

end
