(* ===== verification/Media_Groups.thy ===== *)
theory Media_Groups
  imports Message_Map "HOL-Library.AList"
begin

section \<open>Albums: parts, aliases, settlement\<close>

text \<open>
  \<open>MediaGroupRepository\<close> and \<open>AlbumSettlementRepository\<close> of \<open>bridge/storage/repositories.py\<close>. A part
  is a row while its grp is being assembled and the alias of one Telegram message afterwards. The
  settlement is one transaction: it answers with the new tables or with an error, and then nothing
  was written.
\<close>

type_synonym media_groups = "media_part tbl"

definition add_part ::
  "int \<Rightarrow> string \<Rightarrow> string \<Rightarrow> int \<Rightarrow> int option \<Rightarrow> json \<Rightarrow> int option \<Rightarrow> direction option \<Rightarrow> int option
   \<Rightarrow> string option \<Rightarrow> bool option \<Rightarrow> string option \<Rightarrow> int option \<Rightarrow> int option
   \<Rightarrow> media_groups \<Rightarrow> bool \<times> media_groups" where
  "add_part now grp bridge bid tg payload link dir idx kind caption fp acc owner_msg mg =
     (case tbl_try_insert mp_clash
        (\<lambda>i. \<lparr>mp_id = i, mp_media_group_id = grp, mp_bridge_name = bridge, mp_bot_id = bid,
              mp_telegram_message_id = tg, mp_payload = payload, mp_created_at = now, mp_link_id = link,
              mp_direction = dir, mp_part_index = idx, mp_media_kind = kind,
              mp_caption_present = caption, mp_fingerprint = fp, mp_owner_account_id = acc,
              mp_owner_message_id = owner_msg, mp_updated_at = Some now\<rparr>) mg of
        Inl _ \<Rightarrow> (False, mg)
      | Inr (_, mg') \<Rightarrow> (True, mg'))"

definition parts :: "string \<Rightarrow> media_groups \<Rightarrow> media_part list" where
  "parts grp mg = sort_key mp_id (tbl_select (\<lambda>p. mp_media_group_id p = grp) mg)"

text \<open>\<open>COALESCE(part_index, telegram_owner_message_id, id)\<close>, then \<open>id\<close>.\<close>

definition order_of :: "media_part \<Rightarrow> int" where
  "order_of p = (case mp_part_index p of Some i \<Rightarrow> i
     | None \<Rightarrow> (case mp_owner_message_id p of Some m \<Rightarrow> m | None \<Rightarrow> mp_id p))"

definition in_order :: "media_part list \<Rightarrow> media_part list" where
  "in_order ps = sort_key order_of (sort_key mp_id ps)"

definition ordered_parts :: "string \<Rightarrow> media_groups \<Rightarrow> media_part list" where
  "ordered_parts grp mg = in_order (tbl_select (\<lambda>p. mp_media_group_id p = grp) mg)"

definition link_of :: "string \<Rightarrow> media_groups \<Rightarrow> int option" where
  "link_of grp mg =
     Option.bind (tbl_one (\<lambda>p. mp_media_group_id p = grp \<and> mp_link_id p \<noteq> None) mg) mp_link_id"

definition part_at :: "string \<Rightarrow> int \<Rightarrow> media_groups \<Rightarrow> media_part option" where
  "part_at grp idx mg = tbl_one (\<lambda>p. mp_media_group_id p = grp \<and> mp_part_index p = Some idx) mg"

definition parts_of_link :: "int \<Rightarrow> media_groups \<Rightarrow> media_part list" where
  "parts_of_link link mg = in_order (tbl_select (\<lambda>p. mp_link_id p = Some link) mg)"

definition part_by_owner_message :: "int \<Rightarrow> int \<Rightarrow> media_groups \<Rightarrow> media_part option" where
  "part_by_owner_message account msg mg =
     tbl_one (\<lambda>p. mp_owner_account_id p = Some account \<and> mp_owner_message_id p = Some msg) mg"

definition part_by_bot_message :: "int \<Rightarrow> int \<Rightarrow> media_groups \<Rightarrow> media_part option" where
  "part_by_bot_message bid msg mg = tbl_one (\<lambda>p. mp_bot_id p = bid \<and> mp_telegram_message_id p = Some msg) mg"

text \<open>
  GROUP BY \<open>media_group_id\<close>, ORDER BY MIN(id): the groups in the order of their first row; a HAVING
  on MAX(created_at) bounds every row of the group.
\<close>

definition groups_of :: "media_part list \<Rightarrow> string list" where
  "groups_of ps = rev (remdups (rev (map mp_media_group_id (sort_key mp_id ps))))"

definition settled_groups :: "int \<Rightarrow> (media_part \<Rightarrow> bool) \<Rightarrow> media_groups \<Rightarrow> string list" where
  "settled_groups newest_by P mg =
     (let ps = tbl_select P mg in
      filter (\<lambda>g. list_all (\<lambda>p. mp_media_group_id p = g \<longrightarrow> mp_created_at p \<le> newest_by) ps) (groups_of ps))"

definition open_groups :: "int \<Rightarrow> int \<Rightarrow> media_groups \<Rightarrow> string list" where
  "open_groups now older mg =
     settled_groups (now - older) (\<lambda>p. mp_owner_account_id p = None \<and> mp_link_id p = None) mg"

definition open_owner_side :: "direction \<Rightarrow> int \<Rightarrow> int \<Rightarrow> media_groups \<Rightarrow> string list" where
  "open_owner_side dir now older mg =
     settled_groups (now - older)
       (\<lambda>p. mp_owner_account_id p \<noteq> None \<and> mp_link_id p = None \<and> mp_direction p = Some dir) mg"

definition open_owner_groups :: "int \<Rightarrow> int \<Rightarrow> media_groups \<Rightarrow> string list" where
  "open_owner_groups = open_owner_side TG_TO_MAX"

definition open_echo_groups :: "int \<Rightarrow> int \<Rightarrow> media_groups \<Rightarrow> string list" where
  "open_echo_groups = open_owner_side MAX_TO_TG"

definition unbound_part :: "int \<Rightarrow> media_part \<Rightarrow> bool" where
  "unbound_part bid p \<longleftrightarrow> mp_bot_id p = bid \<and> mp_direction p = Some MAX_TO_TG \<and> mp_link_id p \<noteq> None
     \<and> mp_owner_message_id p = None \<and> mp_fingerprint p \<noteq> None"

definition oldest_unbound_album :: "int \<Rightarrow> media_groups \<Rightarrow> media_part list" where
  "oldest_unbound_album bid mg =
     (case groups_of (tbl_select (unbound_part bid) mg) of
        [] \<Rightarrow> []
      | g # _ \<Rightarrow> ordered_parts g mg)"

definition assign_part_index :: "int \<Rightarrow> int \<Rightarrow> int \<Rightarrow> media_groups \<Rightarrow> db_error + (bool \<times> media_groups)" where
  "assign_part_index now i idx mg =
     (let P = (\<lambda>p. mp_id p = i \<and> (mp_part_index p = None \<or> mp_part_index p = Some idx)) in
      map_sum id (Pair (tbl_count P mg > 0))
        (tbl_try_update mp_clash P (\<lambda>p. p\<lparr>mp_part_index := Some idx, mp_updated_at := Some now\<rparr>) mg))"

definition bind_link :: "int \<Rightarrow> string \<Rightarrow> int \<Rightarrow> media_groups \<Rightarrow> int \<times> media_groups" where
  "bind_link now grp link mg =
     (let P = (\<lambda>p. mp_media_group_id p = grp \<and> (mp_link_id p = None \<or> mp_link_id p = Some link)) in
      (tbl_count P mg, tbl_update P (\<lambda>p. p\<lparr>mp_link_id := Some link, mp_updated_at := Some now\<rparr>) mg))"

text \<open>Both attaches catch \<open>IntegrityError\<close> and answer False, the transaction rolled back.\<close>

definition attach_bot_message :: "int \<Rightarrow> int \<Rightarrow> int \<Rightarrow> media_groups \<Rightarrow> bool \<times> media_groups" where
  "attach_bot_message now i tg mg =
     (let P = (\<lambda>p. mp_id p = i \<and> (mp_telegram_message_id p = None \<or> mp_telegram_message_id p = Some tg)) in
      case tbl_try_update mp_clash P
             (\<lambda>p. p\<lparr>mp_telegram_message_id := Some tg, mp_updated_at := Some now\<rparr>) mg of
        Inl _ \<Rightarrow> (False, mg)
      | Inr mg' \<Rightarrow> (tbl_count P mg > 0, mg'))"

definition attach_owner_message :: "int \<Rightarrow> int \<Rightarrow> int \<Rightarrow> int \<Rightarrow> media_groups \<Rightarrow> bool \<times> media_groups" where
  "attach_owner_message now i account msg mg =
     (let P = (\<lambda>p. mp_id p = i \<and> (mp_owner_message_id p = None
                 \<or> (mp_owner_account_id p = Some account \<and> mp_owner_message_id p = Some msg))) in
      case tbl_try_update mp_clash P
             (\<lambda>p. p\<lparr>mp_owner_account_id := Some account, mp_owner_message_id := Some msg,
                    mp_updated_at := Some now\<rparr>) mg of
        Inl _ \<Rightarrow> (False, mg)
      | Inr mg' \<Rightarrow> (tbl_count P mg > 0, mg'))"

definition stop_binding_part :: "int \<Rightarrow> int \<Rightarrow> media_groups \<Rightarrow> bool \<times> media_groups" where
  "stop_binding_part now i mg =
     (let P = (\<lambda>p. mp_id p = i \<and> mp_owner_message_id p = None) in
      (tbl_count P mg > 0, tbl_update P (\<lambda>p. p\<lparr>mp_fingerprint := None, mp_updated_at := Some now\<rparr>) mg))"

definition clear_group :: "string \<Rightarrow> media_groups \<Rightarrow> media_groups" where
  "clear_group grp = tbl_delete (\<lambda>p. mp_media_group_id p = grp)"

definition clear_link :: "int \<Rightarrow> media_groups \<Rightarrow> int \<times> media_groups" where
  "clear_link link mg = (0, tbl_delete (\<lambda>p. mp_link_id p = Some link) mg)"

subsection \<open>Album settlement\<close>

text \<open>The errors say which check refused; the ids inside their text are left out.\<close>

definition check_receipt :: "(int \<times> int) list \<Rightarrow> string option" where
  "check_receipt ps =
     (let indexes = map fst ps; ids = map snd ps in
      if ps = [] then Some ''an album settlement was asked to bind no parts''
      else if indexes \<noteq> sort indexes \<or> indexes \<noteq> map int [0..<length indexes]
        then Some ''the parts do not cover the positions exactly''
      else if length (remdups ids) \<noteq> length ids then Some ''the same message id was named for two parts''
      else if list_ex (\<lambda>m. m \<le> 0) ids then Some ''a message id that cannot exist was named''
      else if list_ex (\<lambda>(a, b). a \<ge> b) (zip ids (tl ids))
        then Some ''the message ids are not ascending in part order''
      else None)"

definition expected :: "int \<Rightarrow> media_groups \<Rightarrow> (int \<times> int) list" where
  "expected link mg =
     fold (\<lambda>p d. case mp_part_index p of None \<Rightarrow> d | Some i \<Rightarrow> AList.update i (mp_id p) d)
       (tbl_select (\<lambda>p. mp_link_id p = Some link \<and> mp_part_index p \<noteq> None) mg) []"

definition match_parts :: "(int \<times> int) list \<Rightarrow> (int \<times> int) list \<Rightarrow> string option" where
  "match_parts ex ps =
     (if length ex \<noteq> length ps then Some ''another number of parts was expected; nothing was bound''
      else if list_ex (\<lambda>(i, m). map_of ex i = None) ps then Some ''no expected part at a position''
      else None)"

text \<open>\<open>_claim_canonical\<close> and \<open>_claim_part\<close>, for the bot's column and for the owner's two columns.\<close>

datatype album_side = Bot_side | Owner_side int

fun canonical_id :: "album_side \<Rightarrow> message_link \<Rightarrow> int option" where
  "canonical_id Bot_side r = ml_telegram_message_id r"
| "canonical_id (Owner_side a) r = ml_owner_message_id r"

fun set_canonical :: "album_side \<Rightarrow> int \<Rightarrow> message_link \<Rightarrow> message_link" where
  "set_canonical Bot_side v r = r\<lparr>ml_telegram_message_id := Some v\<rparr>"
| "set_canonical (Owner_side a) v r = r\<lparr>ml_owner_message_id := Some v, ml_owner_account_id := Some a\<rparr>"

fun part_id_of :: "album_side \<Rightarrow> media_part \<Rightarrow> int option" where
  "part_id_of Bot_side p = mp_telegram_message_id p"
| "part_id_of (Owner_side a) p = mp_owner_message_id p"

fun set_part :: "album_side \<Rightarrow> int \<Rightarrow> int \<Rightarrow> media_part \<Rightarrow> media_part" where
  "set_part Bot_side now v p = p\<lparr>mp_telegram_message_id := Some v, mp_updated_at := Some now\<rparr>"
| "set_part (Owner_side a) now v p =
     p\<lparr>mp_owner_account_id := Some a, mp_owner_message_id := Some v, mp_updated_at := Some now\<rparr>"

definition claim_canonical :: "album_side \<Rightarrow> int \<Rightarrow> int \<Rightarrow> message_map \<Rightarrow> string + message_map" where
  "claim_canonical side link v mm =
     (let P = (\<lambda>r. ml_id r = link \<and> (canonical_id side r = None \<or> canonical_id side r = Some v)) in
      case tbl_try_update ml_clash P (set_canonical side v) mm of
        Inl _ \<Rightarrow> Inl ''the id already belongs to another message''
      | Inr mm' \<Rightarrow> if tbl_count P mm = 0 then Inl ''the canonical row already names a different id''
                   else Inr mm')"

definition claim_part :: "album_side \<Rightarrow> int \<Rightarrow> int \<Rightarrow> int \<Rightarrow> media_groups \<Rightarrow> string + media_groups" where
  "claim_part side now i v mg =
     (let P = (\<lambda>p. mp_id p = i \<and> (part_id_of side p = None \<or> part_id_of side p = Some v)) in
      case tbl_try_update mp_clash P (set_part side now v) mg of
        Inl _ \<Rightarrow> Inl ''another part already claims the id''
      | Inr mg' \<Rightarrow> if tbl_count P mg = 0 then Inl ''the part already carries a different id'' else Inr mg')"

fun claim_parts ::
  "album_side \<Rightarrow> int \<Rightarrow> (int \<times> int) list \<Rightarrow> (int \<times> int) list \<Rightarrow> media_groups \<Rightarrow> string + media_groups" where
  "claim_parts side now ex [] mg = Inr mg"
| "claim_parts side now ex ((idx, msg) # ps) mg =
     (case map_of ex idx of
        None \<Rightarrow> claim_parts side now ex ps mg
      | Some i \<Rightarrow> (case claim_part side now i msg mg of
          Inl e \<Rightarrow> Inl e
        | Inr mg' \<Rightarrow> claim_parts side now ex ps mg'))"

definition settle_album ::
  "album_side \<Rightarrow> int \<Rightarrow> int \<Rightarrow> (int \<times> int) list \<Rightarrow> message_map \<times> media_groups
   \<Rightarrow> db_error + (message_map \<times> media_groups)" where
  "settle_album side now link ps db =
     (case check_receipt ps of
        Some e \<Rightarrow> Inl (AlbumSettlementError e)
      | None \<Rightarrow>
          (let ex = expected link (snd db) in
           case (if ex = [] then None else match_parts ex ps) of
             Some e \<Rightarrow> Inl (AlbumSettlementError e)
           | None \<Rightarrow>
               (case claim_canonical side link (snd (hd ps)) (fst db) of
                  Inl e \<Rightarrow> Inl (AlbumSettlementError e)
                | Inr mm' \<Rightarrow>
                    (case claim_parts side now ex ps (snd db) of
                       Inl e \<Rightarrow> Inl (AlbumSettlementError e)
                     | Inr mg' \<Rightarrow> Inr (mm', mg')))))"

definition settle_bot_album ::
  "int \<Rightarrow> int \<Rightarrow> (int \<times> int) list \<Rightarrow> message_map \<times> media_groups \<Rightarrow> db_error + (message_map \<times> media_groups)" where
  "settle_bot_album now link ps db = settle_album Bot_side now link ps db"

definition settle_owner_album ::
  "int \<Rightarrow> int \<Rightarrow> int \<Rightarrow> (int \<times> int) list \<Rightarrow> message_map \<times> media_groups
   \<Rightarrow> db_error + (message_map \<times> media_groups)" where
  "settle_owner_album now link account ps db = settle_album (Owner_side account) now link ps db"

end
