(* ===== verification/Album_Laws.thy ===== *)
theory Album_Laws
  imports Media_Groups
begin

section \<open>Albums are settled as a whole\<close>

text \<open>
  What \<open>settle_bot_album\<close> and \<open>settle_owner_album\<close> guarantee, on \<open>settle_album\<close>, and the two
  conditional attaches of an alias.
\<close>

abbreviation groups_ok :: "media_groups \<Rightarrow> bool" where
  "groups_ok \<equiv> tbl_ok mp_id mp_clash"

text \<open>\<open>carries side p v\<close>: the row holds the id (and for the owner's side the account) already.\<close>

fun carries :: "album_side \<Rightarrow> media_part \<Rightarrow> int \<Rightarrow> bool" where
  "carries Bot_side p v = (mp_telegram_message_id p = Some v)"
| "carries (Owner_side a) p v = (mp_owner_message_id p = Some v \<and> mp_owner_account_id p = Some a)"

fun names :: "album_side \<Rightarrow> message_link \<Rightarrow> int \<Rightarrow> bool" where
  "names Bot_side r v = (ml_telegram_message_id r = Some v)"
| "names (Owner_side a) r v = (ml_owner_message_id r = Some v \<and> ml_owner_account_id r = Some a)"

definition place :: "media_part \<Rightarrow> int option \<times> int option \<times> int" where
  "place p = (mp_link_id p, mp_part_index p, mp_id p)"

lemma set_part_keep [simp]:
  "mp_id (set_part side now v p) = mp_id p" "place (set_part side now v p) = place p"
  "part_id_of side (set_part side now v p) = Some v" "carries side (set_part side now v p) v"
  by (cases side; simp add: place_def)+

lemma set_canonical_keep [simp]:
  "ml_id (set_canonical side v r) = ml_id r" "canonical_id side (set_canonical side v r) = Some v"
  "names side (set_canonical side v r) v"
  by (cases side; simp)+

text \<open>
  How a table may change: row by row, each keeping its place, an id it has, and what it carries.
\<close>

definition grows :: "album_side \<Rightarrow> media_groups \<Rightarrow> media_groups \<Rightarrow> bool" where
  "grows side mg mg' \<longleftrightarrow> list_all2 (\<lambda>p p'. place p' = place p
     \<and> (\<forall>v. part_id_of side p = Some v \<longrightarrow> part_id_of side p' = Some v)
     \<and> (\<forall>v. carries side p v \<longrightarrow> carries side p' v)) (rows mg) (rows mg')"

lemma grows_refl [simp]: "grows side mg mg"
  by (simp add: grows_def list_all2_same)

lemma grows_trans: "grows side a b \<Longrightarrow> grows side b c \<Longrightarrow> grows side a c"
  unfolding grows_def by (rule list_all2_trans) auto

lemma carries_id: "carries side p v \<Longrightarrow> part_id_of side p = Some v"
  by (cases side) auto

lemma claim_part_Inr:
  assumes "claim_part side now i v mg = Inr mg'"
  shows "grows side mg mg' \<and> (\<exists>p\<in>set (rows mg'). mp_id p = i \<and> carries side p v)
    \<and> (groups_ok mg \<longrightarrow> groups_ok mg')"
proof -
  let ?P = "\<lambda>p. mp_id p = i \<and> (part_id_of side p = None \<or> part_id_of side p = Some v)"
  have upd: "tbl_try_update mp_clash ?P (set_part side now v) mg = Inr mg'" and ex: "tbl_count ?P mg \<noteq> 0"
    using assms by (auto simp: claim_part_def Let_def split: sum.splits if_splits)
  then have mg': "mg' = tbl_update ?P (set_part side now v) mg" by (simp add: tbl_try_update_Inr)
  have "grows side mg mg'"
    by (auto simp: grows_def mg' list_all2_conv_all_nth dest: carries_id)
  moreover have "\<exists>p\<in>set (rows mg'). mp_id p = i \<and> carries side p v"
  proof -
    obtain p where "p \<in> set (rows mg)" "?P p" using ex count_pos[of ?P mg] by (auto simp: tbl_count_def filter_empty_conv)
    then have "set_part side now v p \<in> set (rows mg')" unfolding mg' by (rule update_hit)
    then show ?thesis using \<open>?P p\<close> by (intro bexI[of _ "set_part side now v p"]) auto
  qed
  moreover have "groups_ok mg \<longrightarrow> groups_ok mg'" using upd by (auto elim: tbl_try_update_ok)
  ultimately show ?thesis by simp
qed

lemma grows_carries:
  assumes "grows side mg mg'" "p \<in> set (rows mg)" "carries side p v"
  shows "\<exists>p'\<in>set (rows mg'). mp_id p' = mp_id p \<and> carries side p' v"
  using assms by (fastforce simp: grows_def place_def list_all2_conv_all_nth in_set_conv_nth)

lemma claim_parts_Inr:
  assumes "claim_parts side now ex ps mg = Inr mg'"
  shows "grows side mg mg' \<and> (groups_ok mg \<longrightarrow> groups_ok mg')
    \<and> (\<forall>(idx, msg)\<in>set ps. \<forall>i. map_of ex idx = Some i \<longrightarrow> (\<exists>p\<in>set (rows mg'). mp_id p = i \<and> carries side p msg))"
  using assms
proof (induction side now ex ps mg rule: claim_parts.induct)
  case (1 side now ex mg)
  then show ?case by simp
next
  case (2 side now ex idx msg ps mg)
  show ?case
  proof (cases "map_of ex idx")
    case None
    then show ?thesis using 2 by simp
  next
    case (Some i)
    then obtain m1 where m1: "claim_part side now i msg mg = Inr m1" and m2: "claim_parts side now ex ps m1 = Inr mg'"
      using "2.prems" by (auto split: sum.splits)
    have ih: "grows side m1 mg'" "groups_ok m1 \<Longrightarrow> groups_ok mg'"
      "\<forall>(idx, msg)\<in>set ps. \<forall>i. map_of ex idx = Some i \<longrightarrow> (\<exists>p\<in>set (rows mg'). mp_id p = i \<and> carries side p msg)"
      using "2.IH"(2)[OF Some m1 m2] by auto
    have c: "grows side mg m1" "groups_ok mg \<Longrightarrow> groups_ok m1" using claim_part_Inr[OF m1] by auto
    obtain p where "p \<in> set (rows m1)" "mp_id p = i" "carries side p msg" using claim_part_Inr[OF m1] by auto
    then have "\<exists>p\<in>set (rows mg'). mp_id p = i \<and> carries side p msg" using grows_carries[OF ih(1)] by auto
    then have "\<forall>(idx', msg')\<in>set ((idx, msg) # ps). \<forall>i'. map_of ex idx' = Some i' \<longrightarrow>
        (\<exists>p\<in>set (rows mg'). mp_id p = i' \<and> carries side p msg')"
      using ih(3) Some by simp
    then show ?thesis using ih(1,2) c grows_trans[OF c(1) ih(1)] by simp
  qed
qed

subsection \<open>The expected aliases\<close>

fun expected_from :: "int \<Rightarrow> (int option \<times> int option \<times> int) list \<Rightarrow> (int \<times> int) list \<Rightarrow> (int \<times> int) list" where
  "expected_from link [] d = d"
| "expected_from link ((l, ix, i) # ps) d =
     expected_from link ps (if l = Some link then (case ix of None \<Rightarrow> d | Some k \<Rightarrow> AList.update k i d) else d)"

lemma expected_places: "expected link mg = expected_from link (map place (rows mg)) []"
proof -
  have "fold (\<lambda>p d. case mp_part_index p of None \<Rightarrow> d | Some i \<Rightarrow> AList.update i (mp_id p) d)
      (filter (\<lambda>p. mp_link_id p = Some link \<and> mp_part_index p \<noteq> None) ps) d = expected_from link (map place ps) d" for ps d
  proof (induction ps arbitrary: d)
    case (Cons p ps)
    then show ?case
      by (cases "mp_part_index p"; cases "mp_link_id p = Some link") (simp_all add: place_def)
  qed simp
  then show ?thesis by (simp add: expected_def tbl_select_def)
qed

lemma expected_from_Some:
  "map_of (expected_from link ps d) k = Some i \<Longrightarrow> map_of d k = Some i \<or> (Some link, Some k, i) \<in> set ps"
  by (induction link ps d rule: expected_from.induct)
    (auto simp: update_conv' split: if_splits option.splits)

lemma expected_Some:
  assumes "map_of (expected link mg) k = Some i"
  shows "\<exists>p\<in>set (rows mg). mp_id p = i \<and> mp_link_id p = Some link \<and> mp_part_index p = Some k"
  using expected_from_Some[of link "map place (rows mg)" "[]" k i] assms
  by (auto simp: expected_places place_def)

lemma grows_places: "grows side mg mg' \<Longrightarrow> map place (rows mg') = map place (rows mg)"
  by (auto simp: grows_def list_all2_conv_all_nth intro!: nth_equalityI)

subsection \<open>The whole album\<close>

lemma check_receipt_None:
  assumes "check_receipt ps = None"
  shows "ps \<noteq> [] \<and> map fst ps = map int [0..<length ps] \<and> sorted_wrt (<) (map snd ps) \<and> (\<forall>m\<in>snd ` set ps. 0 < m)"
proof -
  have *: "ps \<noteq> []" "map fst ps = map int [0..<length ps]" "\<not> list_ex (\<lambda>m. m \<le> 0) (map snd ps)"
    "\<not> list_ex (\<lambda>(a, b). a \<ge> b) (zip (map snd ps) (tl (map snd ps)))"
    using assms by (auto simp: check_receipt_def Let_def split: if_splits)
  have "sorted_wrt (<) ms" if "\<not> list_ex (\<lambda>(a, b). a \<ge> b) (zip ms (tl ms))" for ms :: "int list"
    using that
  proof (induction ms)
    case (Cons a ms)
    then show ?case
      by (cases ms) (fastforce simp: not_le)+
  qed simp
  then show ?thesis using * by (auto simp: list_ex_iff not_le)
qed

lemma claim_canonical_Inr:
  assumes "claim_canonical side link v mm = Inr mm'"
  shows "(\<exists>r\<in>set (rows mm'). ml_id r = link \<and> names side r v)
    \<and> list_all2 (\<lambda>r r'. r' = r \<or> ml_id r = link \<and> canonical_id side r \<in> {None, Some v} \<and> r' = set_canonical side v r) (rows mm) (rows mm')
    \<and> no_clash ml_clash (rows mm')"
proof -
  let ?P = "\<lambda>r. ml_id r = link \<and> (canonical_id side r = None \<or> canonical_id side r = Some v)"
  have upd: "mm' = tbl_update ?P (set_canonical side v) mm" "no_clash ml_clash (rows mm')" and ex: "tbl_count ?P mm \<noteq> 0"
    using assms by (auto simp: claim_canonical_def Let_def tbl_try_update_Inr split: sum.splits if_splits)
  obtain r where "r \<in> set (rows mm)" "?P r" using ex by (auto simp: tbl_count_def filter_empty_conv)
  then have "set_canonical side v r \<in> set (rows mm')" unfolding upd(1) by (rule update_hit)
  then have "\<exists>r\<in>set (rows mm'). ml_id r = link \<and> names side r v"
    using \<open>?P r\<close> by (intro bexI[of _ "set_canonical side v r"]) auto
  moreover have "list_all2 (\<lambda>r r'. r' = r \<or> ml_id r = link \<and> canonical_id side r \<in> {None, Some v} \<and> r' = set_canonical side v r)
      (rows mm) (rows mm')" by (auto simp: upd(1) list_all2_conv_all_nth)
  ultimately show ?thesis using upd(2) by simp
qed

lemma settle_album_Inr:
  assumes "settle_album side now link ps (mm, mg) = Inr (mm', mg')"
  shows "check_receipt ps = None \<and> claim_canonical side link (snd (hd ps)) mm = Inr mm'
    \<and> claim_parts side now (expected link mg) ps mg = Inr mg'
    \<and> (expected link mg \<noteq> [] \<longrightarrow> match_parts (expected link mg) ps = None)"
  using assms by (auto simp: settle_album_def Let_def split: option.splits sum.splits if_splits)


text \<open>An album of two photos carried from MAX: its row and its two aliases.\<close>

definition example_album_map :: message_map where
  "example_album_map = map_run [(0, M_claim ''b'' 100 7 55 1 None)] empty_tbl"

definition example_aliases :: media_groups where
  "example_aliases = snd (add_part 1 ''max:1'' ''b'' 55 None JNull (Some 1) (Some MAX_TO_TG) (Some 1) (Some ''photo'')
      (Some False) (Some ''a1:y'') None None
    (snd (add_part 1 ''max:1'' ''b'' 55 None JNull (Some 1) (Some MAX_TO_TG) (Some 0) (Some ''photo'')
      (Some True) (Some ''a1:x'') None None empty_tbl)))"

lemma add_part_ok: "groups_ok mg \<Longrightarrow> groups_ok (snd (add_part now g b bid tg p l d ix k c fp a m mg))"
  by (auto simp: add_part_def split: sum.split intro: tbl_try_insert_ok)

lemma example_album_ok: "map_ok example_album_map" "groups_ok example_aliases"
  unfolding example_album_map_def example_aliases_def by (rule map_ok_run, simp) (intro add_part_ok, simp)

definition settled_example :: "message_map \<times> media_groups" where
  "settled_example = (case settle_bot_album 5 1 [(0, 900), (1, 901)] (example_album_map, example_aliases) of
     Inr db \<Rightarrow> db | Inl _ \<Rightarrow> (empty_tbl, empty_tbl))"

lemma settled_example_eq:
  "settle_album Bot_side 5 1 [(0, 900), (1, 901)] (example_album_map, example_aliases) = Inr (fst settled_example, snd settled_example)"
proof -
  have "case settle_album Bot_side 5 1 [(0, 900), (1, 901)] (example_album_map, example_aliases) of Inl _ \<Rightarrow> False | Inr _ \<Rightarrow> True"
    by code_simp
  then show ?thesis by (auto simp: settled_example_def settle_bot_album_def split: sum.splits)
qed


subsection \<open>Settling again\<close>

definition untimed :: "media_part \<Rightarrow> media_part" where
  "untimed p = p\<lparr>mp_updated_at := None\<rparr>"

lemma set_part_carried: "carries side p v \<Longrightarrow> set_part side now v p = p\<lparr>mp_updated_at := Some now\<rparr>"
  by (cases side) auto

lemma touch_ok:
  assumes "groups_ok mg"
  shows "groups_ok (tbl_update P (\<lambda>p. p\<lparr>mp_updated_at := Some now\<rparr>) mg)"
  using assms by (rule tbl_ok_update_plain) (simp_all add: mp_clash_def)

lemma try_touch:
  assumes ok: "groups_ok mg" and p: "p \<in> set (rows mg)" "mp_id p = i"
    and P: "\<And>r. P r \<Longrightarrow> mp_id r = i" "P p" and f: "f p = p\<lparr>mp_updated_at := Some now\<rparr>"
  shows "tbl_try_update mp_clash P f mg
    = Inr (tbl_update (\<lambda>p. mp_id p = i) (\<lambda>p. p\<lparr>mp_updated_at := Some now\<rparr>) mg)"
proof -
  have only: "r = p" if "r \<in> set (rows mg)" "mp_id r = i" for r
    using tbl_id_unique[OF ok that(1) p(1)] that p by simp
  have eq: "tbl_update P f mg = tbl_update (\<lambda>p. mp_id p = i) (\<lambda>p. p\<lparr>mp_updated_at := Some now\<rparr>) mg"
    using only P f by (intro tbl_update_cong) auto
  have "no_clash mp_clash (rows (tbl_update (\<lambda>p. mp_id p = i) (\<lambda>p. p\<lparr>mp_updated_at := Some now\<rparr>) mg))"
    using touch_ok[OF ok, of "\<lambda>p. mp_id p = i" now] by (simp only: tbl_ok_def)
  then show ?thesis by (simp only: tbl_try_update_def Let_def eq if_True)
qed

lemma claim_part_replay:
  assumes ok: "groups_ok mg" and p: "p \<in> set (rows mg)" "mp_id p = i" "carries side p v"
  shows "claim_part side now i v mg = Inr (tbl_update (\<lambda>p. mp_id p = i) (\<lambda>p. p\<lparr>mp_updated_at := Some now\<rparr>) mg)"
proof -
  let ?P = "\<lambda>p. mp_id p = i \<and> (part_id_of side p = None \<or> part_id_of side p = Some v)"
  have "tbl_try_update mp_clash ?P (set_part side now v) mg
      = Inr (tbl_update (\<lambda>p. mp_id p = i) (\<lambda>p. p\<lparr>mp_updated_at := Some now\<rparr>) mg)"
    using p carries_id[OF p(3)] set_part_carried[OF p(3)] by (intro try_touch[OF ok p(1)]) simp_all
  moreover have "(tbl_count ?P mg = 0) = False" using p carries_id[OF p(3)] by (auto simp: tbl_count_def filter_empty_conv)
  ultimately show ?thesis by (simp only: claim_part_def Let_def if_False sum.case)
qed

lemma claim_parts_replay:
  assumes "groups_ok mg"
    and "\<forall>(idx, msg)\<in>set ps. \<forall>i. map_of ex idx = Some i \<longrightarrow> (\<exists>p\<in>set (rows mg). mp_id p = i \<and> carries side p msg)"
  shows "\<exists>mg'. claim_parts side now ex ps mg = Inr mg' \<and> map untimed (rows mg') = map untimed (rows mg)"
  using assms
proof (induction ps arbitrary: mg)
  case Nil
  then show ?case by simp
next
  case (Cons x ps)
  obtain idx msg where x: "x = (idx, msg)" by (cases x)
  show ?case
  proof (cases "map_of ex idx")
    case None
    then show ?thesis using Cons.IH[OF Cons.prems(1)] Cons.prems(2) by (simp add: x)
  next
    case (Some i)
    then obtain p where p: "p \<in> set (rows mg)" "mp_id p = i" "carries side p msg" using Cons.prems(2) by (auto simp: x)
    define m1 where "m1 = tbl_update (\<lambda>p. mp_id p = i) (\<lambda>p. p\<lparr>mp_updated_at := Some now\<rparr>) mg"
    have c: "claim_part side now i msg mg = Inr m1" unfolding m1_def by (rule claim_part_replay[OF Cons.prems(1) p])
    have "\<forall>(idx, msg)\<in>set ps. \<forall>i. map_of ex idx = Some i \<longrightarrow> (\<exists>p\<in>set (rows m1). mp_id p = i \<and> carries side p msg)"
    proof clarify
      fix idx msg i assume "(idx, msg) \<in> set ps" "map_of ex idx = Some i"
      moreover have "\<forall>(idx, msg)\<in>set ps. \<forall>i. map_of ex idx = Some i \<longrightarrow> (\<exists>p\<in>set (rows mg). mp_id p = i \<and> carries side p msg)"
        using Cons.prems(2) by simp
      ultimately obtain q where "q \<in> set (rows mg)" "mp_id q = i" "carries side q msg" by blast
      then show "\<exists>p\<in>set (rows m1). mp_id p = i \<and> carries side p msg"
        using grows_carries[of side mg m1 q msg] claim_part_Inr[OF c] by auto
    qed
    moreover have "groups_ok m1" unfolding m1_def by (rule touch_ok[OF Cons.prems(1)])
    moreover have "map untimed (rows m1) = map untimed (rows mg)" by (simp add: m1_def untimed_def)
    ultimately show ?thesis using Cons.IH[of m1] c Some by (simp add: x)
  qed
qed

lemma claim_canonical_replay:
  assumes ok: "map_ok mm" and r: "r \<in> set (rows mm)" "ml_id r = link" "names side r v"
  shows "claim_canonical side link v mm = Inr mm"
proof -
  let ?P = "\<lambda>r. ml_id r = link \<and> (canonical_id side r = None \<or> canonical_id side r = Some v)"
  have only: "x = r" if "x \<in> set (rows mm)" "ml_id x = link" for x
    using map_id_unique[OF ok that(1) r(1)] that r by simp
  have same: "set_canonical side v r = r" using r(3) by (cases side) auto
  have "map (\<lambda>r. if ?P r then set_canonical side v r else r) (rows mm) = rows mm"
    by (rule map_idI) (use only same in auto)
  then have eq: "tbl_update ?P (set_canonical side v) mm = mm" by (simp add: tbl_update_def)
  have "no_clash ml_clash (rows mm)" using ok by (simp add: map_ok_def tbl_ok_def)
  moreover have "canonical_id side r = Some v" using r(3) by (cases side) auto
  then have "(tbl_count ?P mm = 0) = False" using r by (auto simp: tbl_count_def filter_empty_conv)
  ultimately show ?thesis by (simp only: claim_canonical_def Let_def tbl_try_update_def eq if_True if_False sum.case simp_thms)
qed

lemma set_canonical_ok: "link_ok r \<Longrightarrow> link_ok (set_canonical side v r)"
  by (cases side) (auto simp: link_ok_def)

lemma claim_canonical_ok: "map_ok mm \<Longrightarrow> claim_canonical side link v mm = Inr mm' \<Longrightarrow> map_ok mm'"
  by (auto simp: claim_canonical_def Let_def set_canonical_ok split: sum.splits if_splits elim!: map_ok_try_update)

text \<open>Settling the same album again, with the same receipt, succeeds and changes nothing but the
  time its aliases were last written: a retry of the settlement, or the second of the two senders
  reaching it, is a quiet success.\<close>

theorem album_settlement_idempotent:
  assumes "map_ok mm" "groups_ok mg" "settle_album side now link ps (mm, mg) = Inr (mm', mg')"
  shows "\<exists>mg''. settle_album side now' link ps (mm', mg') = Inr (mm', mg'') \<and> map untimed (rows mg'') = map untimed (rows mg')"
proof -
  note s = settle_album_Inr[OF assms(3)]
  have g: "grows side mg mg'" "groups_ok mg'"
    and c: "\<forall>(idx, msg)\<in>set ps. \<forall>i. map_of (expected link mg) idx = Some i \<longrightarrow> (\<exists>p\<in>set (rows mg'). mp_id p = i \<and> carries side p msg)"
    using claim_parts_Inr[of side now "expected link mg" ps mg mg'] s assms(2) by auto
  have e: "expected link mg' = expected link mg" by (simp add: expected_places grows_places[OF g(1)])
  obtain r where "r \<in> set (rows mm')" "ml_id r = link" "names side r (snd (hd ps))"
    using claim_canonical_Inr[of side link "snd (hd ps)" mm mm'] s by auto
  then have k: "claim_canonical side link (snd (hd ps)) mm' = Inr mm'"
    using claim_canonical_ok[OF assms(1)] s by (intro claim_canonical_replay) auto
  obtain mg'' where m: "claim_parts side now' (expected link mg) ps mg' = Inr mg''" "map untimed (rows mg'') = map untimed (rows mg')"
    using claim_parts_replay[OF g(2) c] by blast
  then show ?thesis using s k by (auto simp: settle_album_def Let_def e)
qed

theorem album_settlement_idempotent_witness:
  "\<exists>mg. settle_album Bot_side 8 1 [(0, 900), (1, 901)] settled_example = Inr (fst settled_example, mg)
     \<and> map untimed (rows mg) = map untimed (rows (snd settled_example))"
  using album_settlement_idempotent[OF example_album_ok settled_example_eq, of 8] by simp

subsection \<open>Aliases filled once\<close>

definition part_by_id :: "int \<Rightarrow> media_groups \<Rightarrow> media_part option" where
  "part_by_id i mg = tbl_one (\<lambda>p. mp_id p = i) mg"

lemma part_by_id_update:
  assumes "\<And>p. mp_id (f p) = mp_id p"
  shows "part_by_id i (tbl_update P f mg) = map_option (\<lambda>p. if P p then f p else p) (part_by_id i mg)"
  unfolding part_by_id_def tbl_one_def using assms by (simp add: find_map_if)

lemma part_by_id_Some: "part_by_id i mg = Some p \<Longrightarrow> p \<in> set (rows mg) \<and> mp_id p = i"
  unfolding part_by_id_def by (drule tbl_one_Some) simp

lemma part_iff:
  assumes "groups_ok mg"
  shows "(\<exists>p\<in>set (rows mg). mp_id p = i \<and> Q p) \<longleftrightarrow> (case part_by_id i mg of None \<Rightarrow> False | Some p \<Rightarrow> Q p)"
proof (cases "part_by_id i mg")
  case None
  then have "\<forall>p\<in>set (rows mg). mp_id p \<noteq> i" by (simp add: part_by_id_def tbl_one_None)
  then show ?thesis by (auto simp: None)
next
  case (Some p)
  then show ?thesis using part_by_id_Some[OF Some] tbl_id_unique[OF assms] by fastforce
qed

definition alias_owner :: "int \<Rightarrow> media_groups \<Rightarrow> (int option \<times> int) option" where
  "alias_owner i mg = Option.bind (part_by_id i mg)
     (\<lambda>p. map_option (\<lambda>m. (mp_owner_account_id p, m)) (mp_owner_message_id p))"

definition fill_alias :: "int \<Rightarrow> int \<Rightarrow> int \<times> int \<Rightarrow> media_groups \<Rightarrow> bool \<times> media_groups" where
  "fill_alias now i v mg = attach_owner_message now i (fst v) (snd v) mg"

lemma fill_alias_cases:
  assumes "groups_ok mg"
  shows "\<exists>mg'. fill_alias now i v mg = (alias_owner i mg' = Some (Some (fst v), snd v), mg') \<and> groups_ok mg'
    \<and> (alias_owner i mg \<noteq> None \<longrightarrow> alias_owner i mg' = alias_owner i mg)
    \<and> (alias_owner i mg = None \<longrightarrow> alias_owner i mg' \<in> {None, Some (Some (fst v), snd v)})"
proof -
  let ?P = "\<lambda>p. mp_id p = i \<and> (mp_owner_message_id p = None
      \<or> (mp_owner_account_id p = Some (fst v) \<and> mp_owner_message_id p = Some (snd v)))"
  let ?f = "\<lambda>p. p\<lparr>mp_owner_account_id := Some (fst v), mp_owner_message_id := Some (snd v), mp_updated_at := Some now\<rparr>"
  show ?thesis
  proof (cases "tbl_try_update mp_clash ?P ?f mg")
    case (Inl e)
    have "alias_owner i mg \<noteq> Some (Some (fst v), snd v)"
    proof
      assume "alias_owner i mg = Some (Some (fst v), snd v)"
      then obtain p where p: "p \<in> set (rows mg)" "mp_id p = i" "carries (Owner_side (fst v)) p (snd v)"
        by (auto simp: alias_owner_def bind_eq_Some_conv dest: part_by_id_Some)
      have "tbl_try_update mp_clash ?P ?f mg = Inr (tbl_update (\<lambda>p. mp_id p = i) (\<lambda>p. p\<lparr>mp_updated_at := Some now\<rparr>) mg)"
        using p by (intro try_touch[OF assms p(1)]) simp_all
      then show False using Inl by simp
    qed
    then show ?thesis using Inl assms by (auto simp: fill_alias_def attach_owner_message_def Let_def)
  next
    case (Inr mg')
    then have mg': "mg' = tbl_update ?P ?f mg" "groups_ok mg'"
      using tbl_try_update_ok[OF assms Inr] by (auto simp: tbl_try_update_Inr)
    have "part_by_id i mg' = map_option (\<lambda>p. if ?P p then ?f p else p) (part_by_id i mg)"
      unfolding mg'(1) by (rule part_by_id_update) simp
    moreover have "tbl_count ?P mg > 0 \<longleftrightarrow> (case part_by_id i mg of None \<Rightarrow> False | Some p \<Rightarrow> ?P p)"
      unfolding count_pos part_iff[OF assms] by (auto split: option.split dest: part_by_id_Some)
    ultimately show ?thesis using Inr mg'(2)
      by (cases "part_by_id i mg")
        (auto simp: fill_alias_def attach_owner_message_def Let_def alias_owner_def dest: part_by_id_Some)
  qed
qed

interpretation alias_id: fill_once groups_ok "alias_owner i" "\<lambda>v. (Some (fst v), snd v)" "fill_alias now i" for i now
proof (unfold_locales, goal_cases)
  case (1 s v)
  then show ?case using fill_alias_cases[OF 1, of now i v] by auto
next
  case (2 s v)
  then show ?case using fill_alias_cases[OF 2(1), of now i v] by auto
next
  case (3 s v)
  then show ?case using fill_alias_cases[OF 3(1), of now i v] by (cases "alias_owner i s") auto
next
  case (4 s w v)
  then show ?case using fill_alias_cases[OF 4(1), of now i v] by auto
qed

text \<open>An alias takes one owner-side id for good: whatever echoes are attached to it afterwards, it
  keeps the first, a replay of that echo is told True and any other one False.\<close>

theorem alias_bound_once:
  assumes "groups_ok mg" "alias_owner i mg = Some (Some a, m)"
  shows "alias_owner i (snd (alias_id.fills now i vs mg)) = Some (Some a, m)
    \<and> fst (alias_id.fills now i vs mg) = map (\<lambda>v. v = (a, m)) vs"
  using alias_id.filled_for_good[OF assms, of now vs] by (auto simp: prod_eq_iff)

end
