(* ===== verification/Failures.thy ===== *)
theory Failures
  imports Prelude
begin

section \<open>What a failure means\<close>

text \<open>
  The exceptions that reach the delivery layer, and the modules that read them:
  \<open>bridge/telegram/errors.py\<close>, \<open>bridge/max_client/max_errors.py\<close>, \<open>bridge/routing/refusals.py\<close> and
  \<open>bridge/routing/settlement.py\<close>. An exception is a constructor of \<open>failure\<close> with what the code
  reads of it; the last argument is what \<open>str(error)\<close> gives. A class the code never tells apart is
  \<open>OtherError\<close> with its name. The sentences shown to the owner are named rather than spelled out.
  Markers are ASCII and so is the case folding.
\<close>

datatype failure =
    UnconfirmedDeliveryError string
  | MaxUnconfirmedSendError string
  | PartialOwnerAlbumError string
  | PermanentDeliveryError string
  | DeferDelivery int
  | MaxClientError string
  | OwnerTransportUnavailableError string
  | TelegramTransportUnavailableError string
  | TelegramRetryAfter int string
  | FloodWaitError int string
  | TelegramBadRequest string
  | TelegramNotFound string
  | TelegramForbiddenError string
  | TelegramUnauthorizedError string
  | TelegramConflictError string
  | TelegramEntityTooLarge string
  | TelegramNetworkError string
  | TelegramServerError string
  | TelegramAPIError string
  | ApiError string string string string string
  | CancelledError string
  | OSErrorFailure string string
  | OtherError string string

text \<open>\<open>type(error).__name__\<close> and \<open>str(error)\<close>. \<open>OSErrorFailure\<close> covers TimeoutError, OSError and their
  subclasses.\<close>

fun type_name :: "failure \<Rightarrow> string" where
  "type_name (UnconfirmedDeliveryError t) = ''UnconfirmedDeliveryError''"
| "type_name (MaxUnconfirmedSendError t) = ''MaxUnconfirmedSendError''"
| "type_name (PartialOwnerAlbumError t) = ''PartialOwnerAlbumError''"
| "type_name (PermanentDeliveryError t) = ''PermanentDeliveryError''"
| "type_name (DeferDelivery d) = ''DeferDelivery''"
| "type_name (MaxClientError t) = ''MaxClientError''"
| "type_name (OwnerTransportUnavailableError t) = ''OwnerTransportUnavailableError''"
| "type_name (TelegramTransportUnavailableError t) = ''TelegramTransportUnavailableError''"
| "type_name (TelegramRetryAfter s t) = ''TelegramRetryAfter''"
| "type_name (FloodWaitError s t) = ''FloodWaitError''"
| "type_name (TelegramBadRequest t) = ''TelegramBadRequest''"
| "type_name (TelegramNotFound t) = ''TelegramNotFound''"
| "type_name (TelegramForbiddenError t) = ''TelegramForbiddenError''"
| "type_name (TelegramUnauthorizedError t) = ''TelegramUnauthorizedError''"
| "type_name (TelegramConflictError t) = ''TelegramConflictError''"
| "type_name (TelegramEntityTooLarge t) = ''TelegramEntityTooLarge''"
| "type_name (TelegramNetworkError t) = ''TelegramNetworkError''"
| "type_name (TelegramServerError t) = ''TelegramServerError''"
| "type_name (TelegramAPIError t) = ''TelegramAPIError''"
| "type_name (ApiError c m l i t) = ''ApiError''"
| "type_name (CancelledError t) = ''CancelledError''"
| "type_name (OSErrorFailure n t) = n"
| "type_name (OtherError n t) = n"

fun error_text :: "failure \<Rightarrow> string" where
  "error_text (UnconfirmedDeliveryError t) = t"
| "error_text (MaxUnconfirmedSendError t) = t"
| "error_text (PartialOwnerAlbumError t) = t"
| "error_text (PermanentDeliveryError t) = t"
| "error_text (DeferDelivery d) = ''deferred: waiting on the predecessor send''"
| "error_text (MaxClientError t) = t"
| "error_text (OwnerTransportUnavailableError t) = t"
| "error_text (TelegramTransportUnavailableError t) = t"
| "error_text (TelegramRetryAfter s t) = t"
| "error_text (FloodWaitError s t) = t"
| "error_text (TelegramBadRequest t) = t"
| "error_text (TelegramNotFound t) = t"
| "error_text (TelegramForbiddenError t) = t"
| "error_text (TelegramUnauthorizedError t) = t"
| "error_text (TelegramConflictError t) = t"
| "error_text (TelegramEntityTooLarge t) = t"
| "error_text (TelegramNetworkError t) = t"
| "error_text (TelegramServerError t) = t"
| "error_text (TelegramAPIError t) = t"
| "error_text (ApiError c m l i t) = t"
| "error_text (CancelledError t) = t"
| "error_text (OSErrorFailure n t) = t"
| "error_text (OtherError n t) = t"

definition named :: "failure \<Rightarrow> string" where
  "named e = type_name e @ '': '' @ error_text e"

text \<open>\<open>isinstance(error, Exception)\<close>: of the classes the handlers catch, only a cancellation is not.\<close>

fun is_cancelled :: "failure \<Rightarrow> bool" where
  "is_cancelled (CancelledError t) = True"
| "is_cancelled e = False"

fun first_marker :: "string list \<Rightarrow> string \<Rightarrow> string option" where
  "first_marker [] s = None"
| "first_marker (m # ms) s = (if substring m s then Some m else first_marker ms s)"

subsection \<open>Telegram\<close>

datatype telegram_outcome =
    NO_ANSWER | RATE_LIMITED | REFUSED_REPRESENTATION | REFUSED_GROUP | NO_OP
  | REFUSED_EDIT_FORM | REFUSED | NOT_SENT

record telegram_verdict =
  tv_outcome :: telegram_outcome
  tv_detail :: string
  tv_retry_after_ms :: int

definition tv :: "telegram_outcome \<Rightarrow> string \<Rightarrow> telegram_verdict" where
  "tv oc detail = \<lparr>tv_outcome = oc, tv_detail = detail, tv_retry_after_ms = 0\<rparr>"

definition answered :: "telegram_verdict \<Rightarrow> bool" where
  "answered v = (tv_outcome v \<noteq> NO_ANSWER)"

definition REPRESENTATION_MARKERS :: "string list" where
  "REPRESENTATION_MARKERS =
     [''photo_invalid_dimensions'', ''photo_ext_invalid'', ''photo_content_type_invalid'',
      ''photo_save_file_invalid'', ''photo_crop_size_small'', ''image_process_failed'',
      ''photo dimensions'', ''sticker_png_dimensions'', ''sticker_png_nopng'',
      ''sticker_tgs_notgzip'', ''sticker_video_nowebm'', ''sticker_file_invalid'',
      ''sticker_emoji_invalid'', ''wrong sticker file'', ''sticker must be'',
      ''video_file_invalid'', ''video_content_type_invalid'', ''videonote_size_invalid'',
      ''wrong type of file'', ''wrong file type'', ''unsupported file type'',
      ''type of file mismatch'', ''wrong padding'', ''failed to get http url content'',
      ''wrong file identifier/http url specified'', ''wrong remote file identifier'',
      ''webpage_curl_failed'', ''webpage_media_empty'']"

definition GROUP_MARKERS :: "string list" where
  "GROUP_MARKERS =
     [''media_group_invalid'', ''group send failed'', ''in the same media group'', ''media group'']"

definition EDIT_FORM_MARKERS :: "string list" where
  "EDIT_FORM_MARKERS =
     [''there is no text in the message to edit'', ''there is no caption in the message to edit'',
      ''message_no_edit_time'']"

definition NO_OP_MARKERS :: "string list" where
  "NO_OP_MARKERS =
     [''message is not modified'', ''message to edit not found'', ''message to delete not found'',
      ''message_id_invalid'', ''message identifier is not specified'']"

definition classify_bad_request :: "string \<Rightarrow> telegram_verdict" where
  "classify_bad_request text =
     (let description = lower text in
      case first_marker NO_OP_MARKERS description of
        Some m \<Rightarrow> tv NO_OP (''target is already there: '' @ m)
      | None \<Rightarrow>
        (case first_marker EDIT_FORM_MARKERS description of
           Some m \<Rightarrow> tv REFUSED_EDIT_FORM (''the body is in the other half: '' @ m)
         | None \<Rightarrow>
           (case first_marker GROUP_MARKERS description of
              Some m \<Rightarrow> tv REFUSED_GROUP (''group refused: '' @ m)
            | None \<Rightarrow>
              (case first_marker REPRESENTATION_MARKERS description of
                 Some m \<Rightarrow> tv REFUSED_REPRESENTATION (''representation refused: '' @ m)
               | None \<Rightarrow> tv REFUSED (''Telegram refused it: '' @ text)))))"

fun classify_telegram :: "failure \<Rightarrow> telegram_verdict" where
  "classify_telegram (TelegramTransportUnavailableError t) = tv NOT_SENT t"
| "classify_telegram (TelegramRetryAfter s t) =
     (tv RATE_LIMITED (''rate limited for '' @ show_int s @ ''s''))\<lparr>tv_retry_after_ms := s * 1000\<rparr>"
| "classify_telegram (FloodWaitError s t) =
     (tv RATE_LIMITED (''the owner's session is rate limited for '' @ show_int s @ ''s''))
       \<lparr>tv_retry_after_ms := s * 1000\<rparr>"
| "classify_telegram (TelegramBadRequest t) = classify_bad_request t"
| "classify_telegram (TelegramNotFound t) = classify_bad_request t"
| "classify_telegram (TelegramForbiddenError t) = tv REFUSED (''Telegram refused it: '' @ t)"
| "classify_telegram (TelegramUnauthorizedError t) = tv REFUSED (''Telegram refused it: '' @ t)"
| "classify_telegram (TelegramConflictError t) = tv REFUSED (''Telegram refused it: '' @ t)"
| "classify_telegram (TelegramEntityTooLarge t) = tv REFUSED (''Telegram refused it: '' @ t)"
| "classify_telegram e = tv NO_ANSWER (named e)"

definition refused_representation :: "failure \<Rightarrow> bool" where
  "refused_representation e = (tv_outcome (classify_telegram e) = REFUSED_REPRESENTATION)"

definition refused_group :: "failure \<Rightarrow> bool" where
  "refused_group e = (tv_outcome (classify_telegram e) = REFUSED_GROUP)"

definition is_no_op :: "failure \<Rightarrow> bool" where
  "is_no_op e = (tv_outcome (classify_telegram e) = NO_OP)"

subsection \<open>MAX\<close>

datatype max_error_class = PERMISSION | SCHEMA | VALUE | UNKNOWN

datatype owner_note =
    SERVICE_ACCOUNT | NOT_PERMITTED | CONTACT_CLOSED | NO_ACCESS
  | GENERIC_PERMANENT_MESSAGE | RETRYABLE_MESSAGE

record max_error_verdict =
  mv_kind :: max_error_class
  mv_reason :: string
  mv_owner_message :: "owner_note option"

definition MAX_MARKERS :: "(string \<times> max_error_class \<times> owner_note option) list" where
  "MAX_MARKERS =
     [(''errors.process.attachment.video.not.supported'', SCHEMA, None),
      (''missing info for contact attachment'', SCHEMA, None),
      (''invalid media wave'', SCHEMA, None),
      (''proto.payload'', SCHEMA, None),
      (''error.message.like.unknown.like'', VALUE, None),
      (''restriction to input'', PERMISSION, Some SERVICE_ACCOUNT),
      (''chat.control'', PERMISSION, Some NOT_PERMITTED),
      (''not allowed'', PERMISSION, Some NOT_PERMITTED),
      (''blocked'', PERMISSION, Some CONTACT_CLOSED),
      (''no access'', PERMISSION, Some NO_ACCESS)]"

definition mv_permanent :: "max_error_verdict \<Rightarrow> bool" where
  "mv_permanent v \<longleftrightarrow> mv_kind v \<in> {PERMISSION, SCHEMA}"

definition schema_rejection :: "max_error_verdict \<Rightarrow> bool" where
  "schema_rejection v \<longleftrightarrow> mv_kind v = SCHEMA"

text \<open>The attributes read with \<open>getattr(error, .., "")\<close>: code, message, localized message and title.\<close>

fun max_fields :: "failure \<Rightarrow> string \<times> string list" where
  "max_fields (ApiError code message localized title t) = (code, [message, localized, title])"
| "max_fields e = ([], [[], [], []])"

fun join_space :: "string list \<Rightarrow> string" where
  "join_space [] = []"
| "join_space [s] = s"
| "join_space (s # ss) = s @ '' '' @ join_space ss"

fun first_max_marker ::
  "(string \<times> max_error_class \<times> owner_note option) list \<Rightarrow> string \<Rightarrow> string \<Rightarrow> max_error_verdict" where
  "first_max_marker [] haystack code =
     \<lparr>mv_kind = UNKNOWN, mv_reason = (if code = [] then ''unclassified MAX error'' else code),
      mv_owner_message = Some RETRYABLE_MESSAGE\<rparr>"
| "first_max_marker ((marker, kind, note) # ms) haystack code =
     (if substring marker haystack
      then \<lparr>mv_kind = kind, mv_reason = (if code = [] then marker else code),
            mv_owner_message = (case note of Some n \<Rightarrow> Some n
              | None \<Rightarrow> if kind \<noteq> UNKNOWN then Some GENERIC_PERMANENT_MESSAGE else None)\<rparr>
      else first_max_marker ms haystack code)"

definition classify_max_error :: "failure \<Rightarrow> max_error_verdict" where
  "classify_max_error e =
     (case max_fields e of (code, parts) \<Rightarrow>
        first_max_marker MAX_MARKERS (lower (join_space (code # parts @ [error_text e]))) code)"

record refusal =
  rf_permanent :: bool
  rf_message :: owner_note

definition classify_refusal :: "failure \<Rightarrow> refusal" where
  "classify_refusal e =
     (let v = classify_max_error e in
      \<lparr>rf_permanent = mv_permanent v,
       rf_message = (case mv_owner_message v of Some n \<Rightarrow> n | None \<Rightarrow> RETRYABLE_MESSAGE)\<rparr>)"

subsection \<open>Kinds of job\<close>

definition KIND_MAX_TO_TG_TEXT :: string where "KIND_MAX_TO_TG_TEXT = ''max_to_tg_text''"
definition KIND_MAX_TO_TG_MEDIA :: string where "KIND_MAX_TO_TG_MEDIA = ''max_to_tg_media''"
definition KIND_MAX_TO_TG_OWNER :: string where "KIND_MAX_TO_TG_OWNER = ''max_to_tg_owner''"
definition KIND_MAX_TO_TG_EDIT :: string where "KIND_MAX_TO_TG_EDIT = ''max_to_tg_edit''"
definition KIND_MAX_TO_TG_DELETE :: string where "KIND_MAX_TO_TG_DELETE = ''max_to_tg_delete''"
definition KIND_TG_TO_MAX_TEXT :: string where "KIND_TG_TO_MAX_TEXT = ''tg_to_max_text''"
definition KIND_TG_TO_MAX_MEDIA :: string where "KIND_TG_TO_MAX_MEDIA = ''tg_to_max_media''"
definition KIND_TG_TO_MAX_CONTACT :: string where "KIND_TG_TO_MAX_CONTACT = ''tg_to_max_contact''"
definition KIND_TG_TO_MAX_EDIT :: string where "KIND_TG_TO_MAX_EDIT = ''tg_to_max_edit''"
definition KIND_TG_TO_MAX_DELETE :: string where "KIND_TG_TO_MAX_DELETE = ''tg_to_max_delete''"
definition KIND_TG_TO_MAX_REACTION :: string where "KIND_TG_TO_MAX_REACTION = ''tg_to_max_reaction''"
definition KIND_OWNER_ECHO_BIND :: string where "KIND_OWNER_ECHO_BIND = ''owner_echo_bind''"
definition KIND_TG_ALBUM_SWEEP :: string where "KIND_TG_ALBUM_SWEEP = ''tg_album_sweep''"

lemmas kind_defs = KIND_MAX_TO_TG_TEXT_def KIND_MAX_TO_TG_MEDIA_def KIND_MAX_TO_TG_OWNER_def
  KIND_MAX_TO_TG_EDIT_def KIND_MAX_TO_TG_DELETE_def KIND_TG_TO_MAX_TEXT_def KIND_TG_TO_MAX_MEDIA_def
  KIND_TG_TO_MAX_CONTACT_def KIND_TG_TO_MAX_EDIT_def KIND_TG_TO_MAX_DELETE_def
  KIND_TG_TO_MAX_REACTION_def KIND_OWNER_ECHO_BIND_def KIND_TG_ALBUM_SWEEP_def

definition CREATING_KINDS :: "string set" where
  "CREATING_KINDS = {KIND_TG_TO_MAX_TEXT, KIND_TG_TO_MAX_CONTACT, KIND_TG_TO_MAX_MEDIA,
     KIND_MAX_TO_TG_TEXT, KIND_MAX_TO_TG_MEDIA, KIND_MAX_TO_TG_OWNER}"

definition is_creating :: "string \<Rightarrow> bool" where
  "is_creating kind = (kind \<in> CREATING_KINDS)"

subsection \<open>Settling one failed attempt\<close>

datatype verdict = V_AMBIGUOUS | V_PERMANENT | V_DEFER | V_RETRY

definition MIN_RATE_LIMIT_MS :: int where "MIN_RATE_LIMIT_MS = 1000"

record settlement =
  st_verdict :: verdict
  st_detail :: string
  st_delay_ms :: int
  st_costs_attempt :: bool

definition stl :: "verdict \<Rightarrow> string \<Rightarrow> settlement" where
  "stl v detail = \<lparr>st_verdict = v, st_detail = detail, st_delay_ms = 0, st_costs_attempt = True\<rparr>"

definition settle_telegram :: "string \<Rightarrow> failure \<Rightarrow> bool \<Rightarrow> settlement" where
  "settle_telegram kind e marked =
     (let v = classify_telegram e in
      case tv_outcome v of
        RATE_LIMITED \<Rightarrow> \<lparr>st_verdict = V_RETRY, st_detail = tv_detail v,
           st_delay_ms = max (tv_retry_after_ms v) MIN_RATE_LIMIT_MS, st_costs_attempt = False\<rparr>
      | NOT_SENT \<Rightarrow> stl V_RETRY (tv_detail v)
      | NO_ANSWER \<Rightarrow>
          if is_creating kind \<and> marked
          then stl V_AMBIGUOUS (''the remote call had begun and Telegram never answered (''
                                  @ tv_detail v @ '')'')
          else stl V_RETRY (tv_detail v)
      | _ \<Rightarrow> stl V_PERMANENT (tv_detail v))"

definition settle_unknown :: "string \<Rightarrow> failure \<Rightarrow> bool \<Rightarrow> settlement" where
  "settle_unknown kind e marked =
     (if is_creating kind \<and> marked
      then stl V_AMBIGUOUS (''the remote call had begun and failed in a way that proves nothing (''
                              @ named e @ '')'')
      else stl V_RETRY (named e))"

fun settle :: "string \<Rightarrow> failure \<Rightarrow> bool \<Rightarrow> settlement" where
  "settle kind (UnconfirmedDeliveryError t) marked = stl V_AMBIGUOUS t"
| "settle kind (MaxUnconfirmedSendError t) marked = stl V_AMBIGUOUS t"
| "settle kind (PartialOwnerAlbumError t) marked =
     stl V_AMBIGUOUS (''the album was only half placed: '' @ t)"
| "settle kind (PermanentDeliveryError t) marked = stl V_PERMANENT t"
| "settle kind (DeferDelivery d) marked = (stl V_DEFER ''waiting on a predecessor'')\<lparr>st_delay_ms := d\<rparr>"
| "settle kind (MaxClientError t) marked = stl V_RETRY (named (MaxClientError t))"
| "settle kind (OwnerTransportUnavailableError t) marked = stl V_RETRY (''transport away: '' @ t)"
| "settle kind (TelegramTransportUnavailableError t) marked = stl V_RETRY (''transport away: '' @ t)"
| "settle kind (ApiError code message localized title t) marked =
     (let v = classify_max_error (ApiError code message localized title t)
      in stl (if mv_permanent v then V_PERMANENT else V_RETRY) (''MAX refused it: '' @ mv_reason v))"
| "settle kind (CancelledError t) marked =
     (if is_creating kind \<and> marked
      then stl V_AMBIGUOUS ''cancelled after the remote call began; the message may have been sent''
      else stl V_RETRY ''cancelled'')"
| "settle kind (OSErrorFailure n t) marked = settle_unknown kind (OSErrorFailure n t) marked"
| "settle kind (OtherError n t) marked = settle_unknown kind (OtherError n t) marked"
| "settle kind e marked = settle_telegram kind e marked"

subsection \<open>What the policy guarantees\<close>

text \<open>
  The evidence a failure carries. \<open>says_unknown\<close>: the sender itself says it wrote the request and got
  nothing usable back. \<open>proves_not_created\<close>: the remote side answered, or the request was never
  made, so nothing was created.
\<close>

fun says_unknown :: "failure \<Rightarrow> bool" where
  "says_unknown (UnconfirmedDeliveryError t) = True"
| "says_unknown (MaxUnconfirmedSendError t) = True"
| "says_unknown (PartialOwnerAlbumError t) = True"
| "says_unknown e = False"

fun never_made :: "failure \<Rightarrow> bool" where
  "never_made (PermanentDeliveryError t) = True"
| "never_made (DeferDelivery d) = True"
| "never_made (MaxClientError t) = True"
| "never_made (OwnerTransportUnavailableError t) = True"
| "never_made (TelegramTransportUnavailableError t) = True"
| "never_made e = False"

fun remote_answered :: "failure \<Rightarrow> bool" where
  "remote_answered (TelegramRetryAfter s t) = True"
| "remote_answered (FloodWaitError s t) = True"
| "remote_answered (TelegramBadRequest t) = True"
| "remote_answered (TelegramNotFound t) = True"
| "remote_answered (TelegramForbiddenError t) = True"
| "remote_answered (TelegramUnauthorizedError t) = True"
| "remote_answered (TelegramConflictError t) = True"
| "remote_answered (TelegramEntityTooLarge t) = True"
| "remote_answered (ApiError c m l i t) = True"
| "remote_answered e = False"

definition proves_not_created :: "failure \<Rightarrow> bool" where
  "proves_not_created e \<longleftrightarrow> never_made e \<or> remote_answered e"

lemma tv_simps [simp]:
  "tv_outcome (tv oc d) = oc" "tv_detail (tv oc d) = d" "tv_retry_after_ms (tv oc d) = 0"
  by (simp_all add: tv_def)

lemma stl_simps [simp]:
  "st_verdict (stl v d) = v" "st_detail (stl v d) = d" "st_delay_ms (stl v d) = 0" "st_costs_attempt (stl v d)"
  by (simp_all add: stl_def)

lemma bad_request_outcome:
  "tv_outcome (classify_bad_request t) \<in> {NO_OP, REFUSED_EDIT_FORM, REFUSED_GROUP, REFUSED_REPRESENTATION, REFUSED}"
  by (auto simp: classify_bad_request_def Let_def split: option.split)

lemma settle_bad_request:
  "settle_telegram k (TelegramBadRequest t) m = stl V_PERMANENT (tv_detail (classify_bad_request t))"
  "settle_telegram k (TelegramNotFound t) m = stl V_PERMANENT (tv_detail (classify_bad_request t))"
  using bad_request_outcome[of t] by (auto simp: settle_telegram_def Let_def)

lemmas settle_cases = settle_telegram_def settle_unknown_def Let_def settle_bad_request

lemma settle_ambiguous:
  "st_verdict (settle kind e marked) = V_AMBIGUOUS \<longleftrightarrow>
     says_unknown e \<or> (is_creating kind \<and> marked \<and> \<not> proves_not_created e)"
proof (cases e)
  case (TelegramBadRequest t)
  then show ?thesis by (simp add: settle_bad_request proves_not_created_def)
next
  case (TelegramNotFound t)
  then show ?thesis by (simp add: settle_bad_request proves_not_created_def)
qed (auto simp: settle_telegram_def settle_unknown_def Let_def proves_not_created_def)

text \<open>C2. A failed attempt becomes a question for the owner exactly when the message may exist: the
  sender says so itself, or the job creates a message, its remote call had begun, and the failure is
  no proof that nothing was created. An answer from the remote side, or a request that was never
  made, is never a question, whatever the mark says.\<close>

theorem ambiguous_iff_may_exist:
  "st_verdict (settle kind e marked) = V_AMBIGUOUS \<longleftrightarrow>
     says_unknown e \<or> (is_creating kind \<and> marked \<and> \<not> proves_not_created e)"
  by (rule settle_ambiguous)

text \<open>A retry can never put a second copy in a chat: if an attempt at creating a message had made
  its remote call and the policy still answers RETRY, then the failure proves that nothing was
  created.\<close>

theorem retry_only_when_not_created:
  assumes "is_creating kind" "st_verdict (settle kind e True) = V_RETRY"
  shows "proves_not_created e"
  using assms settle_ambiguous[of kind e True] by (cases e) (auto simp: proves_not_created_def)

text \<open>A rate limit costs no attempt and is waited out: an attempt is free exactly for Telegram's
  \<open>retry_after\<close> and the owner session's flood wait, and then the verdict is a retry no sooner than
  the server named and never sooner than a second.\<close>

theorem rate_limit_is_free:
  "(\<not> st_costs_attempt (settle kind e marked) \<longleftrightarrow> (\<exists>s t. e = TelegramRetryAfter s t \<or> e = FloodWaitError s t))
   \<and> st_verdict (settle kind (TelegramRetryAfter s t) marked) = V_RETRY
   \<and> st_delay_ms (settle kind (TelegramRetryAfter s t) marked) = max (s * 1000) 1000
   \<and> st_verdict (settle kind (FloodWaitError s t) marked) = V_RETRY
   \<and> st_delay_ms (settle kind (FloodWaitError s t) marked) = max (s * 1000) 1000"
proof -
  have "\<not> st_costs_attempt (settle kind e marked) \<longleftrightarrow> (\<exists>s t. e = TelegramRetryAfter s t \<or> e = FloodWaitError s t)"
  proof (cases e)
    case (TelegramBadRequest t)
    then show ?thesis by (simp add: settle_bad_request)
  next
    case (TelegramNotFound t)
    then show ?thesis by (simp add: settle_bad_request)
  qed (auto simp: settle_telegram_def settle_unknown_def Let_def)
  then show ?thesis by (simp add: settle_telegram_def Let_def MIN_RATE_LIMIT_MS_def)
qed

text \<open>A representation is offered a second time only after Telegram answered: the form of a message
  (or a group) is changed only for a bad request whose description carries a marker of that list and
  none of a list read before it, and never after silence, a rate limit or a permission error.\<close>

theorem fallback_needs_an_answer:
  "refused_representation e \<or> refused_group e \<longleftrightarrow>
     (\<exists>t. (e = TelegramBadRequest t \<or> e = TelegramNotFound t)
        \<and> first_marker NO_OP_MARKERS (lower t) = None \<and> first_marker EDIT_FORM_MARKERS (lower t) = None
        \<and> (\<exists>m. first_marker GROUP_MARKERS (lower t) = Some m \<or> first_marker REPRESENTATION_MARKERS (lower t) = Some m))"
  by (cases e) (auto simp: refused_representation_def refused_group_def classify_bad_request_def Let_def
      split: option.split)

lemma first_marker_None: "first_marker ms s = None \<longleftrightarrow> (\<forall>m\<in>set ms. \<not> substring m s)"
  by (induction ms) auto

lemma first_max_marker_reason:
  assumes "code \<noteq> [] \<Longrightarrow> P code" "\<And>m. m \<in> set (map fst ms) \<Longrightarrow> P m" "P ''unclassified MAX error''"
  shows "P (mv_reason (first_max_marker ms h code))"
  using assms by (induction ms h code rule: first_max_marker.induct) auto

text \<open>Nothing a MAX refusal says about a person leaks: what is written into the job, the log and
  \<open>/status\<close> is the error's code or one of the fixed markers, never its message, title or text. And
  what MAX never explained stays retryable: a verdict is permanent only for a marker of the schema or
  permission kind.\<close>

theorem max_reason_carries_no_text:
  "mv_reason (classify_max_error (ApiError code message localized title t))
     \<in> insert code (insert ''unclassified MAX error'' (fst ` set MAX_MARKERS))
   \<and> (mv_permanent (classify_max_error (ApiError code message localized title t)) \<longrightarrow>
       (\<exists>(m, k, n)\<in>set MAX_MARKERS. k \<in> {PERMISSION, SCHEMA}
          \<and> substring m (lower (join_space [code, message, localized, title, t]))))"
proof -
  have "\<exists>(m, k, n)\<in>set ms. k \<in> {PERMISSION, SCHEMA} \<and> substring m h"
    if "mv_permanent (first_max_marker ms h code)" for ms h
    using that by (induction ms h code rule: first_max_marker.induct)
      (auto simp: mv_permanent_def split: if_splits)
  moreover have "mv_reason (first_max_marker ms h code) \<in> insert code (insert ''unclassified MAX error'' (fst ` set ms))" for ms h
    by (rule first_max_marker_reason) (auto simp: image_iff)
  ultimately show ?thesis by (simp add: classify_max_error_def)
qed

end
