(* ===== verification/Bridge_State.thy ===== *)
theory Bridge_State
  imports Schema
begin

section \<open>Observations, health facts and alerts\<close>

text \<open>
  \<open>BridgeStateRepository\<close>, \<open>HealthStateRepository\<close> and \<open>AlertRepository\<close> of
  \<open>bridge/storage/repositories.py\<close>. A table keyed by text is a map from the key to its row;
  \<open>json.loads\<close> of a stored value that cannot be read is the row value \<open>None\<close>.
\<close>

subsection \<open>bridge_state\<close>

record bridge_observation =
  bo_last_delivery_at :: "int option"
  bo_last_error_at :: "int option"
  bo_last_error :: "string option"

type_synonym bridge_obs = "string \<Rightarrow> bridge_observation option"

definition no_observation :: bridge_observation where
  "no_observation = \<lparr>bo_last_delivery_at = None, bo_last_error_at = None, bo_last_error = None\<rparr>"

definition observation :: "string \<Rightarrow> bridge_obs \<Rightarrow> bridge_observation" where
  "observation b st = (case st b of None \<Rightarrow> no_observation | Some r \<Rightarrow> r)"

definition note_delivery :: "int \<Rightarrow> string \<Rightarrow> bridge_obs \<Rightarrow> bridge_obs" where
  "note_delivery now b st = st(b \<mapsto> (observation b st)\<lparr>bo_last_delivery_at := Some now\<rparr>)"

definition note_error :: "int \<Rightarrow> string \<Rightarrow> string \<Rightarrow> bridge_obs \<Rightarrow> bridge_obs" where
  "note_error now b error st =
     st(b \<mapsto> (observation b st)\<lparr>bo_last_error_at := Some now, bo_last_error := Some (take 500 error)\<rparr>)"

definition bridge_snapshot :: "string \<Rightarrow> bridge_obs \<Rightarrow> bridge_observation option" where
  "bridge_snapshot b st = st b"

subsection \<open>health_state\<close>

type_synonym health = "string \<Rightarrow> json option option"

definition health_set :: "string \<Rightarrow> json \<Rightarrow> health \<Rightarrow> health" where
  "health_set k v h = h(k \<mapsto> Some v)"

definition health_get :: "string \<Rightarrow> json \<Rightarrow> health \<Rightarrow> json" where
  "health_get k dflt h = (case h k of None \<Rightarrow> dflt | Some None \<Rightarrow> dflt | Some (Some v) \<Rightarrow> v)"

text \<open>
  \<open>isinstance(current, int | float)\<close>: a bool is an int in Python, and \<open>int(current)\<close> truncates a
  float. A float is kept by its printed form, so its integer part is a parameter.
\<close>

definition health_bump :: "(string \<Rightarrow> int) \<Rightarrow> string \<Rightarrow> health \<Rightarrow> int \<times> health" where
  "health_bump trunc k h =
     (let v = (case health_get k (JInt 0) h of
                 JInt n \<Rightarrow> n + 1
               | JBool b \<Rightarrow> (if b then 2 else 1)
               | JFloat f \<Rightarrow> trunc f + 1
               | _ \<Rightarrow> 1)
      in (v, health_set k (JInt v) h))"

subsection \<open>alert_outbox, alert_incidents\<close>

datatype alert_state = AL_PENDING | AL_SENT | AL_FAILED

record alert =
  al_id :: int
  al_incident_key :: string
  al_severity :: string
  al_text :: string
  al_state :: alert_state
  al_attempts :: int
  al_next_attempt_at :: int
  al_last_error :: "string option"
  al_created_at :: int
  al_updated_at :: int

record incident =
  in_opened_at :: int
  in_last_alert_at :: int
  in_resolved_at :: "int option"

record alerts =
  alert_tbl :: "alert tbl"
  incidents :: "string \<Rightarrow> incident option"

definition push_alert :: "int \<Rightarrow> string \<Rightarrow> string \<Rightarrow> string \<Rightarrow> alerts \<Rightarrow> int \<times> alerts" where
  "push_alert now key sev text a =
     (case tbl_insert (\<lambda>i. \<lparr>al_id = i, al_incident_key = key, al_severity = sev, al_text = text,
          al_state = AL_PENDING, al_attempts = 0, al_next_attempt_at = now, al_last_error = None,
          al_created_at = now, al_updated_at = now\<rparr>) (alert_tbl a) of
        (i, t) \<Rightarrow> (i, a\<lparr>alert_tbl := t\<rparr>))"

definition open_incident ::
  "int \<Rightarrow> string \<Rightarrow> string \<Rightarrow> string \<Rightarrow> int \<Rightarrow> alerts \<Rightarrow> int option \<times> alerts" where
  "open_incident now key text severity cooldown a =
     (case incidents a key of
        Some inc \<Rightarrow>
          if in_resolved_at inc = None then
            if cooldown \<le> 0 \<or> now - in_last_alert_at inc < cooldown then (None, a)
            else (case push_alert now key severity text
                    (a\<lparr>incidents := (incidents a)(key \<mapsto> inc\<lparr>in_last_alert_at := now\<rparr>)\<rparr>) of
                    (i, a') \<Rightarrow> (Some i, a'))
          else (case push_alert now key severity text
                  (a\<lparr>incidents := (incidents a)(key \<mapsto>
                     \<lparr>in_opened_at = now, in_last_alert_at = now, in_resolved_at = None\<rparr>)\<rparr>) of
                  (i, a') \<Rightarrow> (Some i, a'))
      | None \<Rightarrow>
          (case push_alert now key severity text
             (a\<lparr>incidents := (incidents a)(key \<mapsto>
                \<lparr>in_opened_at = now, in_last_alert_at = now, in_resolved_at = None\<rparr>)\<rparr>) of
             (i, a') \<Rightarrow> (Some i, a')))"

definition resolve_incident ::
  "int \<Rightarrow> string \<Rightarrow> string option \<Rightarrow> alerts \<Rightarrow> int option \<times> alerts" where
  "resolve_incident now key text a =
     (case incidents a key of
        None \<Rightarrow> (None, a)
      | Some inc \<Rightarrow>
          if in_resolved_at inc \<noteq> None then (None, a)
          else
            (let a1 = a\<lparr>incidents := (incidents a)(key \<mapsto> inc\<lparr>in_resolved_at := Some now\<rparr>)\<rparr>
             in (case text of
                   None \<Rightarrow> (None, a1)
                 | Some t \<Rightarrow> (case push_alert now key ''recovery'' t a1 of (i, a2) \<Rightarrow> (Some i, a2)))))"

definition incident_is_open :: "string \<Rightarrow> alerts \<Rightarrow> bool" where
  "incident_is_open key a = (case incidents a key of None \<Rightarrow> False | Some inc \<Rightarrow> in_resolved_at inc = None)"

definition alerts_due :: "int \<Rightarrow> nat \<Rightarrow> alerts \<Rightarrow> alert list" where
  "alerts_due now limit a =
     take limit (sort_key al_id (tbl_select (\<lambda>r. al_state r = AL_PENDING \<and> al_next_attempt_at r \<le> now)
       (alert_tbl a)))"

definition on_alert :: "int \<Rightarrow> (alert \<Rightarrow> alert) \<Rightarrow> alerts \<Rightarrow> alerts" where
  "on_alert i f a = a\<lparr>alert_tbl := tbl_update (\<lambda>r. al_id r = i) f (alert_tbl a)\<rparr>"

definition alert_mark_sent :: "int \<Rightarrow> int \<Rightarrow> alerts \<Rightarrow> alerts" where
  "alert_mark_sent now i = on_alert i (\<lambda>r. r\<lparr>al_state := AL_SENT, al_updated_at := now\<rparr>)"

definition alert_mark_retry :: "int \<Rightarrow> int \<Rightarrow> int \<Rightarrow> string \<Rightarrow> alerts \<Rightarrow> alerts" where
  "alert_mark_retry now i delay error =
     on_alert i (\<lambda>r. r\<lparr>al_attempts := al_attempts r + 1, al_next_attempt_at := now + delay,
                       al_last_error := Some (take 500 error), al_updated_at := now\<rparr>)"

definition alert_mark_failed :: "int \<Rightarrow> int \<Rightarrow> string \<Rightarrow> alerts \<Rightarrow> alerts" where
  "alert_mark_failed now i error =
     on_alert i (\<lambda>r. r\<lparr>al_state := AL_FAILED, al_attempts := al_attempts r + 1,
                       al_last_error := Some (take 500 error), al_updated_at := now\<rparr>)"

definition alert_pending_count :: "alerts \<Rightarrow> int" where
  "alert_pending_count a = tbl_count (\<lambda>r. al_state r = AL_PENDING) (alert_tbl a)"

subsection \<open>An incident speaks once\<close>

fun raise_all :: "int list \<Rightarrow> string \<Rightarrow> string \<Rightarrow> string \<Rightarrow> int \<Rightarrow> alerts \<Rightarrow> int option list \<times> alerts" where
  "raise_all [] key text sev cd a = ([], a)"
| "raise_all (t # ts) key text sev cd a =
     (let (i, a1) = open_incident t key text sev cd a; (is, a2) = raise_all ts key text sev cd a1
      in (i # is, a2))"

lemma raise_open:
  assumes "incidents a key = Some inc" "in_resolved_at inc = None"
    and "\<forall>t\<in>set ts. cd \<le> 0 \<or> t - in_last_alert_at inc < cd"
  shows "raise_all ts key text sev cd a = (map (\<lambda>_. None) ts, a)"
  using assms by (induction ts) (auto simp: open_incident_def)

text \<open>A condition that is checked on a timer tells the owner once: of any number of passes inside
  the cooldown (or of any number at all when no cooldown is set), the first queues one alert and the
  rest queue none, so the queue grows by exactly one.\<close>

theorem incident_alerts_once:
  assumes "\<not> incident_is_open key a" "\<forall>s\<in>set ts. cd \<le> 0 \<or> s - t < cd"
  shows "fst (raise_all (t # ts) key text sev cd a) = Some (seq (alert_tbl a) + 1) # map (\<lambda>_. None) ts
    \<and> alert_pending_count (snd (raise_all (t # ts) key text sev cd a)) = alert_pending_count a + 1"
proof -
  define a1 where "a1 = snd (open_incident t key text sev cd a)"
  have o: "open_incident t key text sev cd a = (Some (seq (alert_tbl a) + 1), a1)"
    and inc: "\<exists>inc. incidents a1 key = Some inc \<and> in_resolved_at inc = None \<and> in_last_alert_at inc = t"
    and pc: "alert_pending_count a1 = alert_pending_count a + 1"
    using assms(1)
    by (auto simp: a1_def open_incident_def incident_is_open_def push_alert_def tbl_insert_def
        alert_pending_count_def tbl_count_def split: option.splits)
  from inc obtain inc where "incidents a1 key = Some inc" "in_resolved_at inc = None" "in_last_alert_at inc = t" by auto
  then have "raise_all ts key text sev cd a1 = (map (\<lambda>_. None) ts, a1)"
    using assms(2) by (intro raise_open) auto
  with o pc show ?thesis by simp
qed

text \<open>A recovery is announced at most once, and only for an incident that was open: the first
  resolution closes it and queues its notice, and every later one finds it closed and changes
  nothing.\<close>

theorem recovery_announced_once:
  "(if incident_is_open key a
    then fst (resolve_incident now key text a) = map_option (\<lambda>_. seq (alert_tbl a) + 1) text
      \<and> \<not> incident_is_open key (snd (resolve_incident now key text a))
    else resolve_incident now key text a = (None, a))
   \<and> resolve_incident now' key text' (snd (resolve_incident now key text a))
       = (None, snd (resolve_incident now key text a))"
  by (auto simp: resolve_incident_def incident_is_open_def push_alert_def tbl_insert_def Let_def
      split: option.splits)

end
