(* ===== verification/Owner_Echo.thy ===== *)
theory Owner_Echo
  imports Album_Laws Failures Bridge_State
begin

section \<open>Binding the owner's ids\<close>

text \<open>
  \<open>bridge/routing/owner_echo.py\<close> and \<open>bridge/routing/owner_binding.py\<close>. A resolver answers with the
  job's result or the exception it raises, and the tables as they are then; an incident's text keeps
  its structure. An echoed part is its position, fingerprint and owner-side id. A handler that reads
  the clock twice within one call reads one value.
\<close>

definition HEAD_WAIT_MS :: int where "HEAD_WAIT_MS = 500"
definition GIVE_UP_MS :: int where "GIVE_UP_MS = 30000"
definition IN_FLIGHT_MS :: int where "IN_FLIGHT_MS = 30000"

definition echo_diagnostic :: "string \<Rightarrow> string option \<Rightarrow> string \<Rightarrow> int \<Rightarrow> string" where
  "echo_diagnostic bridge expct observed head =
     ''owner echo binding on '' @ bridge @ '': head #'' @ show_int head @ '' expected ''
       @ (case expct of None \<Rightarrow> ''none'' | Some e \<Rightarrow> if e = [] then ''none'' else e)
       @ '', observed '' @ observed"

type_synonym echo_state = "message_map \<times> bridge_obs"

definition resolve_echo ::
  "int \<Rightarrow> int \<Rightarrow> int \<Rightarrow> int \<Rightarrow> string \<Rightarrow> string \<Rightarrow> int \<Rightarrow> echo_state
   \<Rightarrow> (failure + int option) \<times> echo_state" where
  "resolve_echo now bid account owner_msg observed bridge first_seen s =
     (let (mm, st) = s in
      if by_owner_account_message account owner_msg mm \<noteq> None then (Inr None, s)
      else case oldest_unbound_echo bid mm of
        None \<Rightarrow> (Inr None, s)
      | Some head \<Rightarrow>
          if ml_echo_fingerprint head = Some observed then
            (let (bound, mm') = bind_owner_message (ml_id head) account owner_msg mm in
             if bound then (Inr None, (mm', st))
             else (Inl (UnconfirmedDeliveryError
                     (echo_diagnostic bridge (ml_echo_fingerprint head) observed (ml_id head)
                        @ '' - the row was bound to another owner message'')), (mm', st)))
          else if now - first_seen < GIVE_UP_MS then (Inl (DeferDelivery HEAD_WAIT_MS), s)
          else
            (let st' = note_error now bridge
                   (echo_diagnostic bridge (ml_echo_fingerprint head) observed (ml_id head)
                      @ '' - no echo arrived for it; owner-side id left unbound'') st;
                 mm1 = snd (map_stop_binding (ml_id head) mm)
             in case oldest_unbound_echo bid mm1 of
                  None \<Rightarrow> (Inr None, (mm1, st'))
                | Some following \<Rightarrow>
                    if ml_echo_fingerprint following = Some observed
                    then (Inr None, (snd (bind_owner_message (ml_id following) account owner_msg mm1), st'))
                    else (Inr None, (mm1, st'))))"

subsection \<open>Albums\<close>

record echo_part =
  ep_owner_message_id :: int
  ep_part_index :: int
  ep_fingerprint :: string

definition echo_matches :: "media_part list \<Rightarrow> echo_part list \<Rightarrow> bool" where
  "echo_matches ex ob \<longleftrightarrow> length ex = length ob
     \<and> list_all (\<lambda>(p, e). mp_fingerprint p = Some (ep_fingerprint e) \<and> mp_part_index p = Some (ep_part_index e))
         (zip ex ob)"

fun attach_all ::
  "int \<Rightarrow> int \<Rightarrow> (media_part \<times> echo_part) list \<Rightarrow> media_groups \<Rightarrow> (failure + unit) \<times> media_groups" where
  "attach_all now account [] mg = (Inr (), mg)"
| "attach_all now account ((p, e) # pes) mg =
     (let (bound, mg') = attach_owner_message now (mp_id p) account (ep_owner_message_id e) mg in
      if bound then attach_all now account pes mg'
      else (Inl (UnconfirmedDeliveryError ''owner album echo: a part is already bound to another owner message''), mg'))"

definition album_diagnostic :: "string \<Rightarrow> int \<Rightarrow> int \<Rightarrow> int option \<Rightarrow> string" where
  "album_diagnostic bridge ex ob link =
     ''owner album echo binding on '' @ bridge @ '': head #''
       @ show_int (case link of None \<Rightarrow> 0 | Some l \<Rightarrow> l)
       @ '' expected '' @ show_int ex @ '' part(s), observed '' @ show_int ob"

fun stop_parts :: "int \<Rightarrow> media_part list \<Rightarrow> media_groups \<Rightarrow> media_groups" where
  "stop_parts now [] mg = mg"
| "stop_parts now (p # ps) mg = stop_parts now ps (snd (stop_binding_part now (mp_id p) mg))"

type_synonym album_state = "media_groups \<times> bridge_obs"

definition attached :: "int \<Rightarrow> int \<Rightarrow> media_part list \<Rightarrow> echo_part list \<Rightarrow> media_groups \<Rightarrow> bridge_obs
   \<Rightarrow> (failure + int option) \<times> album_state" where
  "attached now account ex ob mg st =
     (case attach_all now account (zip ex ob) mg of
        (Inl e, mg') \<Rightarrow> (Inl e, (mg', st))
      | (Inr _, mg') \<Rightarrow> (Inr None, (mg', st)))"

definition resolve_album_echo ::
  "int \<Rightarrow> int \<Rightarrow> int \<Rightarrow> string \<Rightarrow> string \<Rightarrow> int \<Rightarrow> echo_part list \<Rightarrow> album_state
   \<Rightarrow> (failure + int option) \<times> album_state" where
  "resolve_album_echo now bid account bridge namespace first_seen ob s =
     (let mg = clear_group namespace (fst s); st = snd s in
      if ob = [] then (Inr None, (mg, st))
      else if part_by_owner_message account (ep_owner_message_id (hd ob)) mg \<noteq> None then (Inr None, (mg, st))
      else
        (let ex = oldest_unbound_album bid mg in
         if ex = [] then (Inr None, (mg, st))
         else if echo_matches ex ob then attached now account ex ob mg st
         else if now - first_seen < GIVE_UP_MS then (Inl (DeferDelivery HEAD_WAIT_MS), (mg, st))
         else
           (let st' = note_error now bridge
                  (album_diagnostic bridge (int (length ex)) (int (length ob)) (mp_link_id (hd ex))
                     @ '' - no echo arrived for it; owner-side ids left unbound'') st;
                mg1 = stop_parts now ex mg;
                following = oldest_unbound_album bid mg1
            in if following \<noteq> [] \<and> echo_matches following ob then attached now account following ob mg1 st'
               else (let shown = (if following = [] then ex else following) in
                     (Inl (UnconfirmedDeliveryError
                        (album_diagnostic bridge (int (length shown)) (int (length ob)) (mp_link_id (hd shown))
                           @ '' - echo matched no delivered album'')), (mg1, st'))))))"

subsection \<open>The bot's id of the owner's message\<close>

record binding_counts =
  bc_bound :: int
  bc_unresolved :: int
  bc_ambiguous :: int
  bc_conflict :: int

definition observe ::
  "int \<Rightarrow> int \<Rightarrow> int \<Rightarrow> message_map \<times> binding_counts \<Rightarrow> db_error + (message_map \<times> binding_counts)" where
  "observe now bid tg s =
     (let (mm, c) = s in
      case unattached_owner_rows bid (now - IN_FLIGHT_MS) mm of
        [] \<Rightarrow> Inr (mm, c\<lparr>bc_unresolved := bc_unresolved c + 1\<rparr>)
      | [link] \<Rightarrow>
          (case attach_bot_message_if_unset (ml_id link) tg mm of
             Inl e \<Rightarrow> Inl e
           | Inr (True, mm') \<Rightarrow> Inr (mm', c\<lparr>bc_bound := bc_bound c + 1\<rparr>)
           | Inr (False, mm') \<Rightarrow> Inr (mm', c\<lparr>bc_conflict := bc_conflict c + 1\<rparr>))
      | _ \<Rightarrow> Inr (mm, c\<lparr>bc_ambiguous := bc_ambiguous c + 1\<rparr>))"

subsection \<open>An echo binds the head of the queue or nothing\<close>

lemma owner_slot_other:
  assumes "l \<noteq> link"
  shows "owner_slot l (snd (bind_owner_message link a m mm)) = owner_slot l mm"
    "owner_slot l (snd (map_stop_binding link mm)) = owner_slot l mm"
  using assms
  by (cases "link_by_id l mm"; auto simp: owner_slot_def bind_owner_message_def map_stop_binding_def Let_def
      link_by_id_update dest: link_by_id_Some)+

lemma owner_slot_stop: "owner_slot l (snd (map_stop_binding link mm)) = owner_slot l mm"
  by (cases "link_by_id l mm") (auto simp: owner_slot_def map_stop_binding_def Let_def link_by_id_update)

lemma echo_head:
  assumes "map_ok mm" "oldest_unbound_echo bid mm = Some h"
  shows "h \<in> set (rows mm) \<and> unbound_echo bid h \<and> (\<exists>q. echo_queue bid mm = h # q)"
proof -
  obtain q where q: "echo_queue bid mm = h # q"
    using assms(2) by (auto simp: oldest_is_head[OF assms(1)] split: list.splits)
  then show ?thesis using filter_eq_ConsD[OF q] by auto
qed

lemma resolve_echo_hit:
  assumes ok: "map_ok mm" and q: "echo_queue bid mm = h # q" and fp: "ml_echo_fingerprint h = Some f"
    and new: "by_owner_account_message a m mm = None"
  shows "resolve_echo now bid a m f b t (mm, st) = (Inr None, (snd (bind_owner_message (ml_id h) a m mm), st))"
  using queue_after_bind[OF ok q, of a m] oldest_is_head[OF ok, of bid] q fp new
  by (auto simp: resolve_echo_def Let_def split_beta)

fun resolve_all ::
  "int \<Rightarrow> int \<Rightarrow> int \<Rightarrow> string \<Rightarrow> int \<Rightarrow> (int \<times> string) list \<Rightarrow> echo_state \<Rightarrow> echo_state" where
  "resolve_all now bid a b t [] s = s"
| "resolve_all now bid a b t ((m, f) # es) s =
     resolve_all now bid a b t es (snd (resolve_echo now bid a m f b t s))"

lemma unknown_after_bind:
  assumes "by_owner_account_message a m' mm = None" "m \<noteq> m'"
  shows "by_owner_account_message a m' (snd (bind_owner_message l a m mm)) = None"
  using assms by (auto simp: by_owner_account_message_def tbl_one_None bind_owner_message_def Let_def)

lemma resolve_all_slots:
  assumes "map_ok mm" "distinct (map fst es)" "\<forall>e\<in>set es. by_owner_account_message a (fst e) mm = None"
    and "length es \<le> length (echo_queue bid mm)"
    and "\<forall>k<length es. ml_echo_fingerprint (echo_queue bid mm ! k) = Some (snd (es ! k))"
  shows "(\<forall>k<length es. owner_slot (ml_id (echo_queue bid mm ! k)) (fst (resolve_all now bid a b t es (mm, st)))
            = Some (Some a, fst (es ! k)))
    \<and> (\<forall>l. l \<notin> ml_id ` set (take (length es) (echo_queue bid mm)) \<longrightarrow>
          owner_slot l (fst (resolve_all now bid a b t es (mm, st))) = owner_slot l mm)"
  using assms
proof (induction es arbitrary: mm)
  case Nil
  then show ?case by simp
next
  case (Cons e es)
  obtain m f where e: "e = (m, f)" by (cases e)
  obtain h q where q: "echo_queue bid mm = h # q" using Cons.prems(4) by (cases "echo_queue bid mm") auto
  define mm1 where "mm1 = snd (bind_owner_message (ml_id h) a m mm)"
  have fp: "ml_echo_fingerprint h = Some f" using Cons.prems(5)[rule_format, of 0] by (simp add: q e)
  have r: "resolve_echo now bid a m f b t (mm, st) = (Inr None, (mm1, st))"
    unfolding mm1_def using Cons.prems(3) by (intro resolve_echo_hit[OF Cons.prems(1) q fp]) (simp add: e)
  have ok1: "map_ok mm1" unfolding mm1_def by (rule map_ok_bindings(2)[OF Cons.prems(1)])
  have q1: "echo_queue bid mm1 = q" unfolding mm1_def using queue_after_bind[OF Cons.prems(1) q] by blast
  have h: "h \<in> set (rows mm)" "unbound_echo bid h" using filter_eq_ConsD[OF q] by auto
  have dq: "ml_id h \<notin> ml_id ` set q"
  proof -
    have "distinct (map ml_id (h # q))"
      using tbl_ok_distinct[OF map_tbl_ok[OF Cons.prems(1)]] unfolding q[symmetric] by (rule distinct_map_filter)
    then show ?thesis by simp
  qed
  have h1: "owner_slot (ml_id h) mm1 = Some (Some a, m)"
    unfolding mm1_def using owner_id.fill_empty[OF Cons.prems(1), of "ml_id h" "(a, m)"] h
      queue_after_bind[OF Cons.prems(1) q, of a m] link_by_id_eq[OF Cons.prems(1) h(1)]
    by (simp add: fill_owner_def owner_slot_def unbound_echo_def)
  have ih: "(\<forall>k<length es. owner_slot (ml_id (q ! k)) (fst (resolve_all now bid a b t es (mm1, st))) = Some (Some a, fst (es ! k)))
    \<and> (\<forall>l. l \<notin> ml_id ` set (take (length es) q) \<longrightarrow>
          owner_slot l (fst (resolve_all now bid a b t es (mm1, st))) = owner_slot l mm1)"
  proof (rule Cons.IH[OF ok1, unfolded q1])
    show "distinct (map fst es)" using Cons.prems(2) by simp
    show "\<forall>e\<in>set es. by_owner_account_message a (fst e) mm1 = None"
      using Cons.prems(2,3) unfolding mm1_def e by (auto intro!: unknown_after_bind)
    show "length es \<le> length q" using Cons.prems(4) by (simp add: q)
    show "\<forall>k<length es. ml_echo_fingerprint (q ! k) = Some (snd (es ! k))"
      using Cons.prems(5) by (auto simp: q)
  qed
  have hq: "ml_id h \<notin> ml_id ` set (take (length es) q)" using dq by (auto dest: in_set_takeD)
  have other: "owner_slot l mm1 = owner_slot l mm" if "l \<noteq> ml_id h" for l
    unfolding mm1_def using owner_slot_other(1)[OF that] by simp
  show ?case
  proof (intro conjI allI impI)
    fix k assume "k < length (e # es)"
    then show "owner_slot (ml_id (echo_queue bid mm ! k)) (fst (resolve_all now bid a b t (e # es) (mm, st)))
        = Some (Some a, fst ((e # es) ! k))"
      using ih hq h1 by (cases k) (auto simp: q e r)
  next
    fix l assume "l \<notin> ml_id ` set (take (length (e # es)) (echo_queue bid mm))"
    then show "owner_slot l (fst (resolve_all now bid a b t (e # es) (mm, st))) = owner_slot l mm"
      using ih other by (auto simp: q e r)
  qed
qed

text \<open>C14. Echoes bind in the order of the sends, even when the messages look alike. If the next echoes of
  a contact carry, in order, the fingerprints of the oldest rows still waiting, then each row gets the
  id of its own echo and no other row is touched; equal fingerprints make no difference.\<close>

theorem echoes_bind_in_order:
  assumes "map_ok mm" "distinct (map fst es)" "\<forall>e\<in>set es. by_owner_account_message a (fst e) mm = None"
    and "length es \<le> length (echo_queue bid mm)"
    and "\<forall>k<length es. ml_echo_fingerprint (echo_queue bid mm ! k) = Some (snd (es ! k))"
  shows "(\<forall>k<length es. owner_slot (ml_id (echo_queue bid mm ! k)) (fst (resolve_all now bid a b t es (mm, st)))
            = Some (Some a, fst (es ! k)))
    \<and> (\<forall>l. l \<notin> ml_id ` set (take (length es) (echo_queue bid mm)) \<longrightarrow>
          owner_slot l (fst (resolve_all now bid a b t es (mm, st))) = owner_slot l mm)"
  by (rule resolve_all_slots[OF assms])

text \<open>\<open>example_map\<close> holds two identical messages waiting for their echoes, rows 2 and 3.\<close>

theorem echoes_bind_in_order_witness:
  "owner_slot 2 (fst (resolve_all 10 55 9 ''b'' 0 [(500, ''t1:a''), (501, ''t1:a'')] (example_map, \<lambda>_. None))) = Some (Some 9, 500)
   \<and> owner_slot 3 (fst (resolve_all 10 55 9 ''b'' 0 [(500, ''t1:a''), (501, ''t1:a'')] (example_map, \<lambda>_. None))) = Some (Some 9, 501)"
proof -
  let ?es = "[(500, ''t1:a''), (501, ''t1:a'')] :: (int \<times> string) list"
  have q: "map (\<lambda>r. (ml_id r, ml_echo_fingerprint r)) (echo_queue 55 example_map) = [(2, Some ''t1:a''), (3, Some ''t1:a'')]"
    by code_simp
  then obtain r2 r3 where r: "echo_queue 55 example_map = [r2, r3]" "ml_id r2 = 2" "ml_id r3 = 3"
    "ml_echo_fingerprint r2 = Some ''t1:a''" "ml_echo_fingerprint r3 = Some ''t1:a''"
    by (auto simp: map_eq_Cons_conv)
  have d: "distinct (map fst ?es)" by simp
  have n: "by_owner_account_message 9 500 example_map = None" "by_owner_account_message 9 501 example_map = None" by code_simp+
  have nn: "\<forall>e\<in>set ?es. by_owner_account_message 9 (fst e) example_map = None" using n by simp
  have l: "length ?es \<le> length (echo_queue 55 example_map)" by (simp add: r)
  have f: "\<forall>k<length ?es. ml_echo_fingerprint (echo_queue 55 example_map ! k) = Some (snd (?es ! k))"
    by (auto simp: r less_Suc_eq)
  have all: "\<forall>k<length ?es. owner_slot (ml_id (echo_queue 55 example_map ! k))
      (fst (resolve_all 10 55 9 ''b'' 0 ?es (example_map, \<lambda>_. None))) = Some (Some 9, fst (?es ! k))"
    using echoes_bind_in_order[OF example_map_ok d nn l f] by blast
  show ?thesis using all[rule_format, of 0] all[rule_format, of 1] unfolding r(1) by (simp add: r del: resolve_all.simps)
qed

text \<open>C15. An echo is never bound on a guess. If resolving one changes the owner-side id of any row, that
  row was waiting without one, its fingerprint is the echo's, it takes exactly the echo's id, and it
  was the oldest waiting row of that bot - or the next one, after the echo had waited half a minute
  for a head that never matched.\<close>

theorem echo_never_guesses:
  assumes ok: "map_ok mm" and res: "resolve_echo now bid a m f b t (mm, st) = (out, (mm', st'))"
    and chg: "owner_slot l mm' \<noteq> owner_slot l mm"
  shows "owner_slot l mm' = Some (Some a, m) \<and>
    (\<exists>h q. echo_queue bid mm = h # q \<and>
       (l = ml_id h \<and> ml_echo_fingerprint h = Some f
        \<or> (\<exists>h' q'. q = h' # q' \<and> l = ml_id h' \<and> ml_echo_fingerprint h' = Some f
             \<and> ml_echo_fingerprint h \<noteq> Some f \<and> GIVE_UP_MS \<le> now - t)))"
proof -
  have new: "by_owner_account_message a m mm = None" and "oldest_unbound_echo bid mm \<noteq> None"
    using res chg by (auto simp: resolve_echo_def split: if_splits option.splits)
  then obtain h q where q: "echo_queue bid mm = h # q" and o: "oldest_unbound_echo bid mm = Some h"
    using echo_head[OF ok] by blast
  have bound: "owner_slot (ml_id x) (snd (bind_owner_message (ml_id x) a m m0)) = Some (Some a, m)"
    if ok0: "map_ok m0" and q0: "echo_queue bid m0 = x # qs" for x qs m0
  proof -
    have x: "x \<in> set (rows m0)" "unbound_echo bid x" using filter_eq_ConsD[OF q0] by auto
    show ?thesis
      using owner_id.fill_empty[OF ok0, of "ml_id x" "(a, m)"] x queue_after_bind[OF ok0 q0, of a m]
        link_by_id_eq[OF ok0 x(1)]
      by (simp add: fill_owner_def owner_slot_def unbound_echo_def)
  qed
  show ?thesis
  proof (cases "ml_echo_fingerprint h = Some f")
    case True
    then have mm': "mm' = snd (bind_owner_message (ml_id h) a m mm)"
      using res resolve_echo_hit[OF ok q True new, of now b t st] by simp
    then have "l = ml_id h" using chg owner_slot_other(1) by metis
    then show ?thesis using bound[OF ok q] True q mm' by auto
  next
    case False
    define m1 where "m1 = snd (map_stop_binding (ml_id h) mm)"
    have ok1: "map_ok m1" unfolding m1_def by (rule map_ok_bindings(3)[OF ok])
    have q1: "echo_queue bid m1 = q" unfolding m1_def by (rule queue_after_stop[OF ok q])
    have late: "GIVE_UP_MS \<le> now - t"
      using res chg False o new by (auto simp: resolve_echo_def Let_def split: if_splits)
    have "mm' \<noteq> m1" using chg owner_slot_stop[of l "ml_id h" mm] by (auto simp: m1_def)
    then obtain h' where h': "oldest_unbound_echo bid m1 = Some h'" "ml_echo_fingerprint h' = Some f"
      and mm': "mm' = snd (bind_owner_message (ml_id h') a m m1)"
      using res False o new late
      by (auto simp: resolve_echo_def Let_def m1_def[symmetric] split: if_splits option.splits)
    then obtain q' where q': "q = h' # q'" using echo_head[OF ok1 h'(1)] q1 by auto
    have "l = ml_id h'"
      using chg owner_slot_other(1)[of l "ml_id h'" a m m1] owner_slot_stop[of l "ml_id h" mm] mm' by (auto simp: m1_def)
    then show ?thesis using bound[OF ok1 q1[unfolded q']] q q' h' False late mm' by auto
  qed
qed

theorem echo_never_guesses_witness:
  "owner_slot 2 (fst (snd (resolve_echo 10 55 9 500 ''t1:a'' ''b'' 0 (example_map, \<lambda>_. None)))) = Some (Some 9, 500)"
proof -
  let ?r = "resolve_echo 10 55 9 500 ''t1:a'' ''b'' 0 (example_map, \<lambda>_. None)"
  have e: "?r = (fst ?r, (fst (snd ?r), snd (snd ?r)))" by simp
  have "owner_slot 2 (fst (snd ?r)) \<noteq> owner_slot 2 example_map" by code_simp
  from echo_never_guesses[OF example_map_ok e this] show ?thesis by blast
qed

text \<open>The bot's id of an owner message is bound only when there is exactly one candidate: with none
  or with several rows in flight, observing a message changes no row and only counts it.\<close>

theorem observe_binds_only_the_unambiguous:
  assumes "observe now bid tg (mm, c) = Inr (mm', c')" "mm' \<noteq> mm"
  shows "\<exists>link. unattached_owner_rows bid (now - IN_FLIGHT_MS) mm = [link]
    \<and> mm' = tbl_update (\<lambda>r. ml_id r = ml_id link \<and> ml_telegram_message_id r = None)
              (\<lambda>r. r\<lparr>ml_telegram_message_id := Some tg\<rparr>) mm"
  using assms
  by (auto simp: observe_def attach_bot_message_if_unset_def Let_def tbl_try_update_Inr
      split: list.splits sum.splits prod.splits bool.splits)

end
