(* ===== verification/Worker.thy ===== *)
theory Worker
  imports Complex_Main Outbox_Laws Failures Bridge_State
begin

section \<open>The retry policy and the worker\<close>

text \<open>
  \<open>bridge/retry/backoff.py\<close> and \<open>bridge/retry/worker.py\<close>. A float of the policy is a rational and
  the random number an argument in [0, 1); rounding of floats is not modelled. The sender is a
  parameter: for a job's kind, direction and payload it says whether the hook fired before it
  finished, and the remote id or the exception it ended with. One attempt reads one clock value.
\<close>

subsection \<open>Backoff\<close>

record backoff_policy =
  bp_initial_ms :: int
  bp_max_ms :: int
  bp_factor :: rat
  bp_max_attempts :: int
  bp_jitter :: rat

definition DEFAULT_POLICY :: backoff_policy where
  "DEFAULT_POLICY = \<lparr>bp_initial_ms = 1000, bp_max_ms = 300000, bp_factor = 2, bp_max_attempts = 12,
     bp_jitter = 1 / 5\<rparr>"

definition int_of_float :: "rat \<Rightarrow> int" where
  "int_of_float x = (if 0 \<le> x then \<lfloor>x\<rfloor> else \<lceil>x\<rceil>)"

definition capped_ms :: "backoff_policy \<Rightarrow> int \<Rightarrow> rat" where
  "capped_ms p attempt =
     min (of_int (bp_initial_ms p) * bp_factor p ^ nat (max 0 (attempt - 1))) (of_int (bp_max_ms p))"

definition delay_ms :: "backoff_policy \<Rightarrow> rat \<Rightarrow> int \<Rightarrow> int" where
  "delay_ms p u attempt =
     (let capped = capped_ms p attempt; spread = capped * bp_jitter p
      in int_of_float (capped - spread + u * 2 * spread))"

definition exhausted :: "backoff_policy \<Rightarrow> int \<Rightarrow> bool" where
  "exhausted p attempts = (attempts \<ge> bp_max_attempts p)"

subsection \<open>The worker\<close>

definition ORDER_WAIT_MS :: int where "ORDER_WAIT_MS = 200"

fun classify :: "failure \<Rightarrow> bool \<times> int option" where
  "classify (TelegramRetryAfter s t) = (True, Some s)"
| "classify (PermanentDeliveryError t) = (False, None)"
| "classify (TelegramUnauthorizedError t) = (False, None)"
| "classify (TelegramForbiddenError t) = (False, None)"
| "classify (TelegramBadRequest t) = (False, None)"
| "classify e = (True, None)"

type_synonym sender = "string \<Rightarrow> direction \<Rightarrow> json \<Rightarrow> bool \<times> (failure + int option)"

type_synonym worker_state = "outbox \<times> bridge_obs"

definition handle_failure ::
  "int \<Rightarrow> backoff_policy \<Rightarrow> rat \<Rightarrow> string \<Rightarrow> outbox_item \<Rightarrow> failure \<Rightarrow> settlement \<Rightarrow> worker_state \<Rightarrow> worker_state" where
  "handle_failure now p u bridge item e v s =
     (let (retryable0, forced) = classify e;
          retryable = (retryable0 \<and> st_verdict v \<noteq> V_PERMANENT);
          attempts = (if st_costs_attempt v then ob_attempts item + 1 else ob_attempts item);
          message = named e
      in if \<not> retryable \<or> (st_costs_attempt v \<and> exhausted p attempts)
         then (let reason = (if \<not> retryable then ''permanent''
                             else ''gave up after '' @ show_int attempts @ '' attempts'')
               in (mark_failed now (ob_id item) (reason @ '': '' @ message) (fst s),
                   note_error now bridge message (snd s)))
         else (let delay = (if st_delay_ms v \<noteq> 0 then st_delay_ms v
                            else case forced of Some f \<Rightarrow> f * 1000 | None \<Rightarrow> delay_ms p u attempts)
               in (mark_retry now (ob_id item) delay message (st_costs_attempt v) (fst s),
                   note_error now bridge message (snd s))))"

text \<open>\<open>_attempt\<close>: the second component is the cancellation it re-raises, if any.\<close>

definition worker_attempt ::
  "int \<Rightarrow> backoff_policy \<Rightarrow> rat \<Rightarrow> sender \<Rightarrow> string \<Rightarrow> outbox_item \<Rightarrow> worker_state \<Rightarrow> worker_state \<times> failure option" where
  "worker_attempt now p u deliver bridge item s =
     (let (ob, st) = s in
      if older_undelivered bridge (ob_direction item) (ob_id item) ob
      then ((defer_job now (ob_id item) ORDER_WAIT_MS ob, st), None)
      else
        (let (marked, result) = deliver (ob_kind item) (ob_direction item) (ob_payload item);
             ob1 = (if marked then mark_sending now (ob_id item) ob else ob)
         in case result of
              Inr remote \<Rightarrow> ((mark_done now (ob_id item) remote ob1, note_delivery now bridge st), None)
            | Inl e \<Rightarrow>
                (let v = settle (ob_kind item) e marked in
                 case st_verdict v of
                   V_AMBIGUOUS \<Rightarrow>
                     ((mark_ambiguous now (ob_id item) (st_detail v) ob1, note_error now bridge (st_detail v) st),
                      if is_cancelled e then Some e else None)
                 | V_DEFER \<Rightarrow> ((defer_job now (ob_id item) (st_delay_ms v) ob1, st), None)
                 | _ \<Rightarrow>
                     if is_cancelled e
                     then ((mark_retry now (ob_id item) 0 ''cancelled'' True ob1, st), Some e)
                     else (handle_failure now p u bridge item e v (ob1, st), None))))"

fun attempt_each ::
  "int \<Rightarrow> backoff_policy \<Rightarrow> rat \<Rightarrow> sender \<Rightarrow> string \<Rightarrow> outbox_item list \<Rightarrow> worker_state \<Rightarrow> worker_state \<times> failure option" where
  "attempt_each now p u deliver bridge [] s = (s, None)"
| "attempt_each now p u deliver bridge (item # items) s =
     (case worker_attempt now p u deliver bridge item s of
        (s', Some e) \<Rightarrow> (s', Some e)
      | (s', None) \<Rightarrow> attempt_each now p u deliver bridge items s')"

definition drain_once ::
  "int \<Rightarrow> nat \<Rightarrow> backoff_policy \<Rightarrow> rat \<Rightarrow> sender \<Rightarrow> string \<Rightarrow> worker_state \<Rightarrow> (worker_state \<times> failure option) \<times> bool" where
  "drain_once now limit p u deliver bridge s =
     (let (items, ob1) = claim_due now bridge limit DEFAULT_LEASE_MS (fst s)
      in (attempt_each now p u deliver bridge items (ob1, snd s), items \<noteq> []))"

subsection \<open>The delay is bounded\<close>

lemma spread_bounds:
  fixes c j u :: rat
  assumes "0 \<le> c" "0 \<le> j" "0 \<le> u" "u < 1"
  shows "c - c * j \<le> c - c * j + u * 2 * (c * j)" "c - c * j + u * 2 * (c * j) \<le> c + c * j"
proof -
  have cj: "0 \<le> c * j" using assms by simp
  have e: "u * 2 * (c * j) = 2 * (u * (c * j))" by simp
  have "0 \<le> u * (c * j)" by (rule mult_nonneg_nonneg[OF assms(3) cj])
  then show "c - c * j \<le> c - c * j + u * 2 * (c * j)" unfolding e by linarith
  have "u * (c * j) \<le> 1 * (c * j)" using assms(4) cj by (intro mult_right_mono) auto
  then show "c - c * j + u * 2 * (c * j) \<le> c + c * j" unfolding e by linarith
qed



subsection \<open>One attempt, as the queue sees it\<close>

text \<open>The contract: what state an attempt leaves its job in, from what the sender did.\<close>

definition attempt_outcome ::
  "backoff_policy \<Rightarrow> outbox_item \<Rightarrow> bool \<Rightarrow> failure + int option \<Rightarrow> outbox_state" where
  "attempt_outcome p item marked result =
     (case result of
        Inr _ \<Rightarrow> DONE
      | Inl e \<Rightarrow>
          (let v = settle (ob_kind item) e marked in
           if st_verdict v = V_AMBIGUOUS then AMBIGUOUS
           else if st_verdict v = V_DEFER \<or> is_cancelled e then PENDING
           else if st_verdict v = V_PERMANENT then FAILED
           else if st_costs_attempt v \<and> exhausted p (ob_attempts item + 1) then FAILED
           else PENDING))"

text \<open>\<open>only_changes i Q ob ob'\<close>: only row \<open>i\<close> changed, it kept its identity, and it satisfies \<open>Q\<close> now.\<close>

definition only_changes :: "int \<Rightarrow> (outbox_item \<Rightarrow> bool) \<Rightarrow> outbox \<Rightarrow> outbox \<Rightarrow> bool" where
  "only_changes i Q ob ob' \<longleftrightarrow> list_all2 (\<lambda>r r'. if ob_id r = i
       then ob_id r' = i \<and> ob_source_key r' = ob_source_key r \<and> ob_bridge_name r' = ob_bridge_name r
         \<and> ob_direction r' = ob_direction r \<and> ob_kind r' = ob_kind r \<and> Q r'
       else r' = r) (rows ob) (rows ob')"

lemma changes_on_id:
  assumes "\<And>r. ob_id r = i \<Longrightarrow> r \<in> set (rows ob) \<Longrightarrow> ob_id (f r) = i \<and> ob_source_key (f r) = ob_source_key r
     \<and> ob_bridge_name (f r) = ob_bridge_name r \<and> ob_direction (f r) = ob_direction r \<and> ob_kind (f r) = ob_kind r \<and> Q (f r)"
  shows "only_changes i Q ob (on_id i f ob)"
  using assms by (auto simp: only_changes_def on_id_def list_all2_conv_all_nth)

lemma changes_trans:
  assumes "only_changes i Q ob ob1" "only_changes i Q' ob1 ob2"
  shows "only_changes i Q' ob ob2"
  using assms unfolding only_changes_def
  by (rule list_all2_trans[rotated]) (auto split: if_splits)

lemma changes_if: "(m \<Longrightarrow> only_changes i Q ob ob1) \<Longrightarrow> (\<not> m \<Longrightarrow> only_changes i Q ob ob) \<Longrightarrow> only_changes i Q ob (if m then ob1 else ob)"
  by simp

lemma changes_mark: "only_changes i (\<lambda>_. True) ob (if m then mark_sending now i ob else ob)"
  by (auto simp: mark_sending_def intro: changes_on_id) (auto simp: only_changes_def list_all2_same)

lemma marks_rewrite:
  "only_changes i (\<lambda>r. ob_state r = DONE) ob (mark_done now i rem ob)"
  "only_changes i (\<lambda>r. ob_state r = AMBIGUOUS) ob (mark_ambiguous now i e ob)"
  "only_changes i (\<lambda>r. ob_state r = PENDING) ob (mark_retry now i d e c ob)"
  "only_changes i (\<lambda>r. ob_state r = FAILED) ob (mark_failed now i e ob)"
  "only_changes i (\<lambda>r. ob_state r = PENDING) ob (defer_job now i d ob)"
  by (auto simp: mark_done_def mark_ambiguous_def mark_retry_def mark_failed_def defer_job_def intro!: changes_on_id)

lemma unretryable_is_permanent: "\<not> fst (classify e) \<Longrightarrow> st_verdict (settle k e m) = V_PERMANENT"
proof (cases e)
  case (TelegramBadRequest t)
  then show ?thesis by (simp add: settle_bad_request)
qed (simp_all add: settle_telegram_def Let_def)

lemma handle_failure_outcome:
  assumes "\<not> is_cancelled e" "st_verdict (settle (ob_kind item) e m) \<in> {V_PERMANENT, V_RETRY}"
  shows "only_changes (ob_id item) (\<lambda>r. ob_state r = attempt_outcome p item m (Inl e)) ob
      (fst (handle_failure now p u b item e (settle (ob_kind item) e m) (ob, st)))"
  using assms unretryable_is_permanent[of e "ob_kind item" m]
  by (auto simp: handle_failure_def Let_def attempt_outcome_def marks_rewrite split: prod.split)

lemma sent_outcome:
  assumes "\<not> older_undelivered b (ob_direction item) (ob_id item) ob"
    and d: "deliver (ob_kind item) (ob_direction item) (ob_payload item) = (m, res)"
  shows "only_changes (ob_id item) (\<lambda>r. ob_state r = attempt_outcome p item m res) ob
      (fst (fst (worker_attempt now p u deliver b item (ob, st))))"
proof (cases res)
  case (Inr remote)
  then show ?thesis
    using assms changes_trans[OF changes_mark marks_rewrite(1)]
    by (simp add: worker_attempt_def Let_def attempt_outcome_def)
next
  case (Inl e)
  let ?v = "settle (ob_kind item) e m"
  note mk = changes_trans[OF changes_mark]
  show ?thesis
  proof (cases "st_verdict ?v")
    case V_AMBIGUOUS
    then show ?thesis using assms Inl mk[OF marks_rewrite(2)]
      by (simp add: worker_attempt_def Let_def attempt_outcome_def)
  next
    case V_DEFER
    then show ?thesis using assms Inl mk[OF marks_rewrite(5)]
      by (simp add: worker_attempt_def Let_def attempt_outcome_def)
  next
    case V_PERMANENT
    then show ?thesis
      using assms Inl mk[OF marks_rewrite(3)] mk[OF handle_failure_outcome[of e item m]]
      by (cases "is_cancelled e") (simp_all add: worker_attempt_def Let_def attempt_outcome_def)
  next
    case V_RETRY
    then show ?thesis
      using assms Inl mk[OF marks_rewrite(3)] mk[OF handle_failure_outcome[of e item m]]
      by (cases "is_cancelled e") (simp_all add: worker_attempt_def Let_def attempt_outcome_def)
  qed
qed

text \<open>Every branch of an attempt lands where the contract says: with something older still going out
  in its direction the job goes back to PENDING and the sender is not asked at all; otherwise the
  sender's answer alone decides between DONE, AMBIGUOUS, PENDING and FAILED. No other job is touched,
  and the job keeps its id, source key, bridge, direction and kind.\<close>

theorem attempt_follows_contract:
  "only_changes (ob_id item)
     (\<lambda>r. ob_state r =
        (if older_undelivered b (ob_direction item) (ob_id item) ob then PENDING
         else attempt_outcome p item (fst (deliver (ob_kind item) (ob_direction item) (ob_payload item)))
                (snd (deliver (ob_kind item) (ob_direction item) (ob_payload item)))))
     ob (fst (fst (worker_attempt now p u deliver b item (ob, st))))
   \<and> (older_undelivered b (ob_direction item) (ob_id item) ob \<longrightarrow>
        worker_attempt now p u deliver b item (ob, st) = worker_attempt now p u deliver' b item (ob, st))"
proof (cases "older_undelivered b (ob_direction item) (ob_id item) ob")
  case True
  then show ?thesis by (simp add: worker_attempt_def marks_rewrite)
next
  case False
  then show ?thesis using sent_outcome[OF False, where deliver = deliver] by simp
qed

theorem attempt_follows_contract_witness:
  "worker_attempt 9 DEFAULT_POLICY 0 (\<lambda>k d p. (True, Inr (Some 5))) ''b'' ((rows example_queue) ! 1) (example_queue, \<lambda>_. None)
     = worker_attempt 9 DEFAULT_POLICY 0 (\<lambda>k d p. (False, Inl (OSErrorFailure ''TimeoutError'' []))) ''b'' ((rows example_queue) ! 1)
         (example_queue, \<lambda>_. None)"
proof -
  have "older_undelivered ''b'' (ob_direction (rows example_queue ! 1)) (ob_id (rows example_queue ! 1)) example_queue"
    by code_simp
  then show ?thesis
    using attempt_follows_contract[of "rows example_queue ! 1" "''b''" example_queue DEFAULT_POLICY
        "\<lambda>k d p. (True, Inr (Some 5))" 9 0 "\<lambda>_. None" "\<lambda>k d p. (False, Inl (OSErrorFailure ''TimeoutError'' []))"]
    by blast
qed

lemma changes_row:
  assumes "only_changes i Q ob ob'" "r' \<in> set (rows ob')" "ob_id r' = i"
  shows "Q r'"
proof -
  obtain k where k: "k < length (rows ob')" "rows ob' ! k = r'" using assms(2) by (auto simp: in_set_conv_nth)
  then have "if ob_id (rows ob ! k) = i then ob_id r' = i \<and> Q r' else r' = rows ob ! k"
    using assms(1) unfolding only_changes_def list_all2_conv_all_nth by (metis (mono_tags, lifting))
  then show ?thesis using assms(3) by (auto split: if_splits)
qed

text \<open>C3. The worker never sends a message twice on a guess: if a job that creates a message made its
  remote call and is PENDING after the attempt, so that it will be sent again, then the failure proves
  that nothing was created.\<close>

theorem requeued_only_if_not_created:
  assumes "\<not> older_undelivered b (ob_direction item) (ob_id item) ob" "is_creating (ob_kind item)"
    and "deliver (ob_kind item) (ob_direction item) (ob_payload item) = (True, res)"
    and "r' \<in> set (rows (fst (fst (worker_attempt now p u deliver b item (ob, st)))))" "ob_id r' = ob_id item"
    and "ob_state r' = PENDING"
  shows "\<exists>e. res = Inl e \<and> proves_not_created e"
proof -
  have out: "attempt_outcome p item True res = PENDING"
    using changes_row[OF sent_outcome[where deliver = deliver, OF assms(1,3)] assms(4,5)] assms(6) by simp
  then obtain e where e: "res = Inl e" by (auto simp: attempt_outcome_def split: sum.splits)
  have "st_verdict (settle (ob_kind item) e True) \<noteq> V_AMBIGUOUS" using out e by (auto simp: attempt_outcome_def Let_def)
  then have "proves_not_created e"
    using assms(2) settle_ambiguous[of "ob_kind item" e True] out e by (cases e) (auto simp: proves_not_created_def attempt_outcome_def Let_def)
  with e show ?thesis by blast
qed

theorem requeued_only_if_not_created_witness:
  "proves_not_created (TelegramRetryAfter 30 ''Too Many Requests'')"
proof -
  let ?item = "(hd (rows example_queue))\<lparr>ob_state := INFLIGHT\<rparr>"
  let ?d = "(\<lambda>k d p. (True, Inl (TelegramRetryAfter 30 ''Too Many Requests''))) :: sender"
  let ?rs = "rows (fst (fst (worker_attempt 9 DEFAULT_POLICY 0 ?d ''b'' ?item (example_queue, \<lambda>_. None))))"
  have o: "\<not> older_undelivered ''b'' (ob_direction ?item) (ob_id ?item) example_queue" by code_simp
  have k: "is_creating (ob_kind ?item)" by code_simp
  have d: "?d (ob_kind ?item) (ob_direction ?item) (ob_payload ?item) = (True, Inl (TelegramRetryAfter 30 ''Too Many Requests''))"
    by simp
  have m: "hd ?rs \<in> set ?rs" by code_simp
  have i: "ob_id (hd ?rs) = ob_id ?item" by code_simp
  have s: "ob_state (hd ?rs) = PENDING" by code_simp
  show ?thesis using requeued_only_if_not_created[where deliver = ?d, OF o k d m i s] by blast
qed

subsection \<open>The budget\<close>

fun worker_series ::
  "int \<Rightarrow> backoff_policy \<Rightarrow> rat \<Rightarrow> string \<Rightarrow> int \<Rightarrow> sender list \<Rightarrow> worker_state \<Rightarrow> worker_state" where
  "worker_series now p u b i [] s = s"
| "worker_series now p u b i (d # ds) s =
     (case tbl_one (\<lambda>r. ob_id r = i \<and> ob_state r = PENDING) (fst s) of
        None \<Rightarrow> s
      | Some r \<Rightarrow> worker_series now p u b i ds
          (fst (worker_attempt now p u d b (r\<lparr>ob_state := INFLIGHT\<rparr>)
             (on_id i (\<lambda>x. x\<lparr>ob_state := INFLIGHT, ob_lease_expires_at := Some (now + DEFAULT_LEASE_MS),
                            ob_updated_at := now\<rparr>) (fst s), snd s))))"

lemma on_id_twice: "(\<And>x. ob_id (g x) = ob_id x) \<Longrightarrow> on_id i f (on_id i g ob) = on_id i (f \<circ> g) ob"
  by (simp add: on_id_def tbl_update_def)

lemma on_id_if: "(if m then on_id i g ob else ob) = on_id i (if m then g else id) ob"
  by (cases m) (simp_all add: on_id_def tbl_update_def id_def)

lemma older_on_id:
  assumes "\<And>x. ob_id (f x) = ob_id x"
  shows "older_undelivered b d i (on_id i f ob) = older_undelivered b d i ob"
proof -
  have "(\<exists>r\<in>set (rows (on_id i f ob)). ob_id r < i \<and> Q r) \<longleftrightarrow> (\<exists>r\<in>set (rows ob). ob_id r < i \<and> Q r)" for Q
    using assms by (auto simp: on_id_def)
  from this[of "\<lambda>r. ob_bridge_name r = b \<and> ob_direction r = d \<and> ob_state r \<in> {PENDING, INFLIGHT}"]
  show ?thesis by (fastforce simp: older_undelivered_def tbl_one_None)
qed

lemma handle_failure_fails:
  assumes "st_costs_attempt v" "\<not> (fst (classify e) \<and> st_verdict v \<noteq> V_PERMANENT) \<or> exhausted p (ob_attempts item + 1)"
  shows "\<exists>err. fst (handle_failure now p u b item e v s) = mark_failed now (ob_id item) err (fst s)"
  using assms by (cases "classify e") (auto simp: handle_failure_def Let_def)

lemma handle_failure_retries:
  assumes "st_costs_attempt v" "fst (classify e)" "st_verdict v \<noteq> V_PERMANENT" "\<not> exhausted p (ob_attempts item + 1)"
  shows "\<exists>d msg. fst (handle_failure now p u b item e v s) = mark_retry now (ob_id item) d msg True (fst s)"
  using assms by (cases "classify e") (auto simp: handle_failure_def Let_def)

text \<open>An attempt that fails and costs: what it writes on the job's row.\<close>

definition spent :: "backoff_policy \<Rightarrow> int \<Rightarrow> (outbox_item \<Rightarrow> outbox_item) \<Rightarrow> bool" where
  "spent p n f \<longleftrightarrow> (\<forall>x. ob_id (f x) = ob_id x \<and> ob_kind (f x) = ob_kind x \<and> ob_direction (f x) = ob_direction x
     \<and> ob_payload (f x) = ob_payload x
     \<and> (ob_state (f x) = PENDING \<longrightarrow> ob_attempts (f x) = ob_attempts x + 1 \<and> \<not> exhausted p (n + 1)))"

lemma attempt_spends:
  assumes "\<not> older_undelivered b (ob_direction item) (ob_id item) ob"
    and "deliver (ob_kind item) (ob_direction item) (ob_payload item) = (m, Inl e)" "\<not> is_cancelled e"
    and "st_costs_attempt (settle (ob_kind item) e m)" "st_verdict (settle (ob_kind item) e m) \<noteq> V_DEFER"
  shows "\<exists>f. spent p (ob_attempts item) f \<and>
    fst (fst (worker_attempt now p u deliver b item (ob, st))) = on_id (ob_id item) f ob"
proof -
  let ?v = "settle (ob_kind item) e m"
  define g :: "outbox_item \<Rightarrow> outbox_item" where "g = (if m then (\<lambda>r. r\<lparr>ob_send_started_at := Some now, ob_updated_at := now\<rparr>) else id)"
  have gk: "ob_id (g x) = ob_id x" "ob_kind (g x) = ob_kind x" "ob_direction (g x) = ob_direction x"
    "ob_payload (g x) = ob_payload x" "ob_attempts (g x) = ob_attempts x" for x
    by (auto simp: g_def)
  have ob1: "(if m then mark_sending now (ob_id item) ob else ob) = on_id (ob_id item) g ob"
    unfolding mark_sending_def on_id_if g_def by simp
  let ?amb = "\<lambda>r. r\<lparr>ob_state := AMBIGUOUS, ob_attempts := ob_attempts r + 1, ob_ambiguous_at := Some now,
    ob_lease_expires_at := None, ob_last_error := Some (take 500 (st_detail ?v)), ob_updated_at := now\<rparr>"
  show ?thesis
  proof (cases "st_verdict ?v = V_AMBIGUOUS")
    case True
    have "spent p (ob_attempts item) (?amb \<circ> g)" by (auto simp: spent_def gk)
    moreover have "fst (fst (worker_attempt now p u deliver b item (ob, st))) = on_id (ob_id item) (?amb \<circ> g) ob"
      using assms(1,2) True by (simp add: worker_attempt_def Let_def ob1 mark_ambiguous_def on_id_twice gk)
    ultimately show ?thesis by blast
  next
    case False
    let ?hf = "fst (handle_failure now p u b item e ?v (on_id (ob_id item) g ob, st))"
    have w: "fst (fst (worker_attempt now p u deliver b item (ob, st))) = ?hf"
      using assms False by (cases "st_verdict ?v") (simp_all add: worker_attempt_def ob1)
    have "\<exists>f. spent p (ob_attempts item) f \<and> ?hf = on_id (ob_id item) f ob"
    proof (cases "\<not> (fst (classify e) \<and> st_verdict ?v \<noteq> V_PERMANENT) \<or> exhausted p (ob_attempts item + 1)")
      case True
      then obtain err where "?hf = mark_failed now (ob_id item) err (on_id (ob_id item) g ob)"
        using handle_failure_fails[OF assms(4), of e p item now u b "(on_id (ob_id item) g ob, st)"] by auto
      then show ?thesis
        by (intro exI[of _ "(\<lambda>r. r\<lparr>ob_state := FAILED, ob_attempts := ob_attempts r + 1, ob_lease_expires_at := None,
          ob_last_error := Some (take 500 err), ob_updated_at := now\<rparr>) \<circ> g"])
          (auto simp: mark_failed_def on_id_twice gk spent_def)
    next
      case nf: False
      then obtain d msg where "?hf = mark_retry now (ob_id item) d msg True (on_id (ob_id item) g ob)"
        using handle_failure_retries[OF assms(4), of e p item now u b "(on_id (ob_id item) g ob, st)"] by auto
      then show ?thesis
        using nf by (intro exI[of _ "(\<lambda>r. r\<lparr>ob_state := PENDING, ob_attempts := ob_attempts r + 1, ob_lease_expires_at := None,
          ob_send_started_at := None, ob_next_attempt_at := now + d, ob_last_error := Some (take 500 msg),
          ob_updated_at := now\<rparr>) \<circ> g"])
          (auto simp: mark_retry_def on_id_twice gk spent_def)
    qed
    then show ?thesis using w by simp
  qed
qed

lemma series_budget:
  assumes "r \<in> set (rows ob)" "ob_id r = i" "ob_state r = PENDING" "\<forall>x\<in>set (rows ob). ob_id x = i \<longrightarrow> x = r"
    and "\<not> older_undelivered b (ob_direction r) i ob"
    and "\<forall>d\<in>set ds. \<exists>m e. d (ob_kind r) (ob_direction r) (ob_payload r) = (m, Inl e) \<and> \<not> is_cancelled e
       \<and> st_costs_attempt (settle (ob_kind r) e m) \<and> st_verdict (settle (ob_kind r) e m) \<noteq> V_DEFER"
    and "ds \<noteq> []" "bp_max_attempts p \<le> ob_attempts r + int (length ds)"
  shows "\<forall>x\<in>set (rows (fst (worker_series now p u b i ds (ob, st)))). ob_id x = i \<longrightarrow> ob_state x \<noteq> PENDING"
  using assms
proof (induction ds arbitrary: ob st r)
  case Nil
  show ?case using Nil.prems(7) by simp
next
  case (Cons d ds)
  let ?lease = "\<lambda>x. x\<lparr>ob_state := INFLIGHT, ob_lease_expires_at := Some (now + DEFAULT_LEASE_MS), ob_updated_at := now\<rparr>"
  let ?item = "r\<lparr>ob_state := INFLIGHT\<rparr>"
  have one: "tbl_one (\<lambda>x. ob_id x = i \<and> ob_state x = PENDING) ob = Some r"
  proof (cases "tbl_one (\<lambda>x. ob_id x = i \<and> ob_state x = PENDING) ob")
    case None
    then show ?thesis using Cons.prems(1-3) by (auto simp: tbl_one_None)
  next
    case (Some x)
    then have "x \<in> set (rows ob)" "ob_id x = i" by (auto dest: tbl_one_Some)
    then show ?thesis using Some Cons.prems(4) by simp
  qed
  obtain m e where d: "d (ob_kind r) (ob_direction r) (ob_payload r) = (m, Inl e)" "\<not> is_cancelled e"
    "st_costs_attempt (settle (ob_kind r) e m)" "st_verdict (settle (ob_kind r) e m) \<noteq> V_DEFER"
    using bspec[OF Cons.prems(6), of d] by (meson list.set_intros(1))
  define W where "W = worker_attempt now p u d b ?item (on_id i ?lease ob, st)"
  have old: "\<not> older_undelivered b (ob_direction ?item) (ob_id ?item) (on_id i ?lease ob)"
    using Cons.prems(2,5) by (simp add: older_on_id)
  have "d (ob_kind ?item) (ob_direction ?item) (ob_payload ?item) = (m, Inl e)" using d(1) by simp
  from attempt_spends[where item = ?item and deliver = d, OF old this d(2), of p now u st] d(3,4)
  obtain f where f: "spent p (ob_attempts r) f" and w0: "fst (fst W) = on_id i f (on_id i ?lease ob)"
    using Cons.prems(2) by (auto simp: W_def)
  define g where "g = f \<circ> ?lease"
  have w: "fst W = (on_id i g ob, snd (fst W))"
    using w0 on_id_twice[of ?lease i f ob] by (simp add: prod_eq_iff g_def)
  have gk: "ob_id (g r) = i" "ob_kind (g r) = ob_kind r" "ob_direction (g r) = ob_direction r"
    "ob_payload (g r) = ob_payload r" and gid: "\<And>x. ob_id (g x) = ob_id x"
    using f Cons.prems(2) by (simp_all add: spent_def g_def)
  have only: "\<forall>x\<in>set (rows (on_id i g ob)). ob_id x = i \<longrightarrow> x = g r"
    using Cons.prems(4) by (auto simp: on_id_def)
  have series: "worker_series now p u b i (d # ds) (ob, st) = worker_series now p u b i ds (on_id i g ob, snd (fst W))"
    unfolding w[symmetric] unfolding W_def by (simp only: worker_series.simps fst_conv snd_conv one option.case)
  show ?case
  proof (cases "ob_state (g r) = PENDING")
    case False
    then have "tbl_one (\<lambda>x. ob_id x = i \<and> ob_state x = PENDING) (on_id i g ob) = None"
      using only by (auto simp: tbl_one_None)
    then have "worker_series now p u b i ds (on_id i g ob, snd (fst W)) = (on_id i g ob, snd (fst W))"
      by (cases ds) simp_all
    then show ?thesis unfolding series using only False by auto
  next
    case True
    then have a: "ob_attempts (g r) = ob_attempts r + 1" "\<not> exhausted p (ob_attempts r + 1)"
      using f by (auto simp: spent_def g_def)
    then have ne: "ds \<noteq> []" using Cons.prems(8) by (auto simp: exhausted_def)
    have mem: "g r \<in> set (rows (on_id i g ob))" using Cons.prems(1,2) by (auto simp: on_id_def)
    have old': "\<not> older_undelivered b (ob_direction (g r)) i (on_id i g ob)"
      unfolding gk older_on_id[OF gid] by (rule Cons.prems(5))
    have fails: "\<forall>d\<in>set ds. \<exists>m e. d (ob_kind (g r)) (ob_direction (g r)) (ob_payload (g r)) = (m, Inl e)
        \<and> \<not> is_cancelled e \<and> st_costs_attempt (settle (ob_kind (g r)) e m) \<and> st_verdict (settle (ob_kind (g r)) e m) \<noteq> V_DEFER"
      unfolding gk by (rule ballI, rule bspec[OF Cons.prems(6)]) simp
    have budget: "bp_max_attempts p \<le> ob_attempts (g r) + int (length ds)" using Cons.prems(8) a(1) by simp
    show ?thesis
      unfolding series by (rule Cons.IH[OF mem gk(1) True only old' fails ne budget])
  qed
qed



end
