(* ===== verification/Pipe.thy ===== *)
theory Pipe
  imports Worker
begin

section \<open>The delivery pipe\<close>

text \<open>
  \<open>bridge/routing/delivery.py\<close>: what of a payload can be written down, and \<open>DeliveryPipe\<close>, which
  creates a job, attempts it inline and settles it. A Python value is \<open>pyval\<close>: \<open>PyObject\<close> is any
  object of another class, with its \<open>__dict__\<close> (empty when it has none) and what \<open>str()\<close> gives
  (\<open>None\<close> when \<open>str()\<close> raises); a key carries what \<open>str(key)\<close> gives when it is of another class. Values
  are finite trees; the depth limit is the code's.
\<close>

subsection \<open>Payloads\<close>

datatype pykey = KStr string | KInt int | KFloat string | KBool bool | KNone | KOther string

datatype pyval =
    PyNone
  | PyBool bool
  | PyInt int
  | PyFloat string
  | PyStr string
  | PyBytes "nat list"
  | PyDict "(pykey \<times> pyval) list"
  | PyList "pyval list"
  | PyTuple "pyval list"
  | PySet "pyval list"
  | PyObject "(pykey \<times> pyval) list" "string option"

definition MAX_RAW_DEPTH :: nat where "MAX_RAW_DEPTH = 8"

fun key_str :: "pykey \<Rightarrow> string" where
  "key_str (KStr s) = s"
| "key_str (KInt i) = show_int i"
| "key_str (KFloat f) = f"
| "key_str (KBool b) = (if b then ''True'' else ''False'')"
| "key_str KNone = ''None''"
| "key_str (KOther s) = s"

fun is_bytes :: "pyval \<Rightarrow> bool" where
  "is_bytes (PyBytes bs) = True"
| "is_bytes v = False"

text \<open>A later key with the same text replaces an earlier one's value and keeps its place.\<close>

fun dict_put :: "string \<Rightarrow> pyval \<Rightarrow> (pykey \<times> pyval) list \<Rightarrow> (pykey \<times> pyval) list" where
  "dict_put k v [] = [(KStr k, v)]"
| "dict_put k v ((k', v') # d) = (if k' = KStr k then (k', v) # d else (k', v') # dict_put k v d)"

fun json_safe :: "pyval \<Rightarrow> nat \<Rightarrow> pyval"
  and safe_items :: "(pykey \<times> pyval) list \<Rightarrow> nat \<Rightarrow> (pykey \<times> pyval) list \<Rightarrow> (pykey \<times> pyval) list"
  and safe_list :: "pyval list \<Rightarrow> nat \<Rightarrow> pyval list" where
  "json_safe PyNone depth = PyNone"
| "json_safe (PyBool b) depth = (if depth > MAX_RAW_DEPTH then PyNone else PyBool b)"
| "json_safe (PyInt i) depth = (if depth > MAX_RAW_DEPTH then PyNone else PyInt i)"
| "json_safe (PyFloat f) depth = (if depth > MAX_RAW_DEPTH then PyNone else PyFloat f)"
| "json_safe (PyStr s) depth = (if depth > MAX_RAW_DEPTH then PyNone else PyStr s)"
| "json_safe (PyBytes bs) depth = PyNone"
| "json_safe (PyDict d) depth =
     (if depth > MAX_RAW_DEPTH then PyNone
      else PyDict (filter (\<lambda>(k, x). x \<noteq> PyNone) (safe_items d (depth + 1) [])))"
| "json_safe (PyList vs) depth =
     (if depth > MAX_RAW_DEPTH then PyNone
      else PyList (filter (\<lambda>x. x \<noteq> PyNone) (safe_list vs (depth + 1))))"
| "json_safe (PyTuple vs) depth =
     (if depth > MAX_RAW_DEPTH then PyNone
      else PyList (filter (\<lambda>x. x \<noteq> PyNone) (safe_list vs (depth + 1))))"
| "json_safe (PySet vs) depth =
     (if depth > MAX_RAW_DEPTH then PyNone
      else PyList (filter (\<lambda>x. x \<noteq> PyNone) (safe_list vs (depth + 1))))"
| "json_safe (PyObject d s) depth =
     (if depth > MAX_RAW_DEPTH then PyNone
      else if d \<noteq> [] then
        (if depth + 1 > MAX_RAW_DEPTH then PyNone
         else PyDict (filter (\<lambda>(k, x). x \<noteq> PyNone) (safe_items d (depth + 2) [])))
      else (case s of None \<Rightarrow> PyNone | Some t \<Rightarrow> PyStr t))"
| "safe_items [] depth acc = acc"
| "safe_items ((k, v) # d) depth acc =
     (if is_bytes v then safe_items d depth acc
      else safe_items d depth (dict_put (key_str k) (json_safe v depth) acc))"
| "safe_list [] depth = []"
| "safe_list (v # vs) depth = json_safe v depth # safe_list vs depth"

text \<open>\<open>json.dumps\<close>: the value the text denotes, or \<open>None\<close> for a TypeError.\<close>

fun key_json :: "pykey \<Rightarrow> string option" where
  "key_json (KStr s) = Some s"
| "key_json (KInt i) = Some (show_int i)"
| "key_json (KFloat f) = Some f"
| "key_json (KBool b) = Some (if b then ''true'' else ''false'')"
| "key_json KNone = Some ''null''"
| "key_json (KOther s) = None"

fun dumps :: "pyval \<Rightarrow> json option"
  and dumps_items :: "(pykey \<times> pyval) list \<Rightarrow> (string \<times> json) list option"
  and dumps_list :: "pyval list \<Rightarrow> json list option" where
  "dumps PyNone = Some JNull"
| "dumps (PyBool b) = Some (JBool b)"
| "dumps (PyInt i) = Some (JInt i)"
| "dumps (PyFloat f) = Some (JFloat f)"
| "dumps (PyStr s) = Some (JStr s)"
| "dumps (PyDict d) = map_option JObj (dumps_items d)"
| "dumps (PyList vs) = map_option JList (dumps_list vs)"
| "dumps (PyTuple vs) = map_option JList (dumps_list vs)"
| "dumps (PyBytes bs) = None"
| "dumps (PySet vs) = None"
| "dumps (PyObject d s) = None"
| "dumps_items [] = Some []"
| "dumps_items ((k, v) # d) =
     (case (key_json k, dumps v, dumps_items d) of
        (Some k', Some v', Some d') \<Rightarrow> Some ((k', v') # d')
      | _ \<Rightarrow> None)"
| "dumps_list [] = Some []"
| "dumps_list (v # vs) =
     (case (dumps v, dumps_list vs) of (Some v', Some vs') \<Rightarrow> Some (v' # vs') | _ \<Rightarrow> None)"

text \<open>\<open>_storable\<close>: \<open>None\<close> is \<open>UnstorablePayloadError\<close>. The value is what the column will hold.\<close>

definition storable :: "pyval \<Rightarrow> json option" where
  "storable payload = (case dumps payload of Some j \<Rightarrow> Some j | None \<Rightarrow> dumps (json_safe payload 0))"

subsection \<open>Submitting\<close>

definition submit ::
  "int \<Rightarrow> string \<Rightarrow> direction \<Rightarrow> string \<Rightarrow> pyval \<Rightarrow> string \<Rightarrow> outbox \<Rightarrow> ((int \<times> bool) \<times> outbox) option" where
  "submit now b d kind payload key ob =
     (case storable payload of
        None \<Rightarrow> None
      | Some j \<Rightarrow> Some (claim_for_attempt now b d kind j key (Some DEFAULT_TTL_MS) DEFAULT_LEASE_MS ob))"

text \<open>\<open>submit_in_order\<close> and \<open>submit_in_kind_order\<close> differ in the barrier they ask. The claim finds the
  job just enqueued, so the payload it is given is never written.\<close>

definition submit_behind ::
  "(int \<Rightarrow> outbox \<Rightarrow> bool) \<Rightarrow> int \<Rightarrow> string \<Rightarrow> direction \<Rightarrow> string \<Rightarrow> pyval \<Rightarrow> string \<Rightarrow> outbox
   \<Rightarrow> ((int \<times> bool) \<times> outbox) option" where
  "submit_behind waits now b d kind payload key ob =
     (case storable payload of
        None \<Rightarrow> None
      | Some j \<Rightarrow>
          (let (i, ob1) = enqueue now b d kind j 0 (Some key) (Some DEFAULT_TTL_MS) ob
           in if waits i ob1 then Some ((i, False), ob1)
              else Some (claim_for_attempt now b d kind j key (Some DEFAULT_TTL_MS) DEFAULT_LEASE_MS ob1)))"

definition submit_in_order ::
  "int \<Rightarrow> string \<Rightarrow> direction \<Rightarrow> string \<Rightarrow> pyval \<Rightarrow> string \<Rightarrow> outbox \<Rightarrow> ((int \<times> bool) \<times> outbox) option" where
  "submit_in_order now b d = submit_behind (older_undelivered b d) now b d"

definition submit_in_kind_order ::
  "int \<Rightarrow> string \<Rightarrow> direction \<Rightarrow> string \<Rightarrow> pyval \<Rightarrow> string \<Rightarrow> outbox \<Rightarrow> ((int \<times> bool) \<times> outbox) option" where
  "submit_in_kind_order now b d kind = submit_behind (older_undelivered_kind b d kind) now b d kind"

fun storable_all :: "(string \<times> pyval \<times> string) list \<Rightarrow> (string \<times> json \<times> string) list option" where
  "storable_all [] = Some []"
| "storable_all ((kind, p, key) # items) =
     (case (storable p, storable_all items) of
        (Some j, Some js) \<Rightarrow> Some ((kind, j, key) # js)
      | _ \<Rightarrow> None)"

definition enqueue_batch_in_order ::
  "int \<Rightarrow> string \<Rightarrow> direction \<Rightarrow> (string \<times> pyval \<times> string) list \<Rightarrow> outbox \<Rightarrow> (int list \<times> outbox) option" where
  "enqueue_batch_in_order now b d items ob =
     (case storable_all items of
        None \<Rightarrow> None
      | Some js \<Rightarrow> Some (enqueue_batch now b d js (Some DEFAULT_TTL_MS) ob))"

text \<open>\<open>reference\<close> holds ids only; its keys are put after the two the method writes.\<close>

definition submit_unstorable ::
  "int \<Rightarrow> string \<Rightarrow> direction \<Rightarrow> string \<Rightarrow> string \<Rightarrow> string \<Rightarrow> (string \<times> json) list \<Rightarrow> outbox \<Rightarrow> int \<times> outbox" where
  "submit_unstorable now b d kind key reason ref ob =
     (let ((i, _), ob1) = claim_for_attempt now b d kind
            (JObj ([(''unstorable'', JBool True), (''reason'', JStr (take 300 reason))] @ ref))
            key (Some DEFAULT_TTL_MS) DEFAULT_LEASE_MS ob
      in (i, mark_failed now i (''payload could not be stored: '' @ reason) ob1))"

definition submit_noop ::
  "int \<Rightarrow> string \<Rightarrow> direction \<Rightarrow> string \<Rightarrow> string \<Rightarrow> string \<Rightarrow> (string \<times> json) list \<Rightarrow> outbox \<Rightarrow> int \<times> outbox" where
  "submit_noop now b d kind key reason ref ob =
     (let ((i, _), ob1) = claim_for_attempt now b d kind
            (JObj ([(''noop'', JBool True), (''reason'', JStr (take 300 reason))] @ ref))
            key (Some DEFAULT_TTL_MS) DEFAULT_LEASE_MS ob;
          ob2 = mark_failed now i (''nothing to deliver: '' @ reason) ob1
      in (i, snd (archive now i reason ob2)))"

subsection \<open>One inline attempt\<close>

record settled_result =
  sr_delivered :: bool
  sr_remote_message_id :: "int option"
  sr_ambiguous :: bool
  sr_deferred :: bool
  sr_error :: "string option"
  sr_exception :: "failure option"

definition not_delivered :: settled_result where
  "not_delivered = \<lparr>sr_delivered = False, sr_remote_message_id = None, sr_ambiguous = False,
     sr_deferred = False, sr_error = None, sr_exception = None\<rparr>"

text \<open>The left answer is the cancellation \<open>attempt\<close> lets through after recording it.\<close>

definition pipe_attempt ::
  "int \<Rightarrow> sender \<Rightarrow> int \<Rightarrow> direction \<Rightarrow> string \<Rightarrow> json \<Rightarrow> outbox \<Rightarrow> (failure + settled_result) \<times> outbox" where
  "pipe_attempt now send i d kind payload ob =
     (let (marked, result) = send kind d payload;
          ob1 = (if marked then mark_sending now i ob else ob)
      in case result of
           Inr remote \<Rightarrow>
             (Inr (not_delivered\<lparr>sr_delivered := True, sr_remote_message_id := remote\<rparr>),
              mark_done now i remote ob1)
         | Inl e \<Rightarrow>
             (let v = settle kind e marked in
              case st_verdict v of
                V_AMBIGUOUS \<Rightarrow>
                  (if is_cancelled e then Inl e
                   else Inr (not_delivered\<lparr>sr_ambiguous := True, sr_error := Some (st_detail v)\<rparr>),
                   mark_ambiguous now i (st_detail v) ob1)
              | V_DEFER \<Rightarrow>
                  (Inr (not_delivered\<lparr>sr_deferred := True\<rparr>), defer_job now i (st_delay_ms v) ob1)
              | V_PERMANENT \<Rightarrow>
                  (if is_cancelled e then Inl e
                   else Inr (not_delivered\<lparr>sr_error := Some (st_detail v), sr_exception := Some e\<rparr>),
                   mark_failed now i (''permanent: '' @ st_detail v) ob1)
              | V_RETRY \<Rightarrow>
                  (if is_cancelled e then Inl e
                   else Inr (not_delivered\<lparr>sr_error := Some (st_detail v), sr_exception := Some e\<rparr>),
                   mark_retry now i (st_delay_ms v) (st_detail v) (st_costs_attempt v) ob1)))"

subsection \<open>Every payload can be written down\<close>

lemma dumps_items_iff: "dumps_items d \<noteq> None \<longleftrightarrow> (\<forall>(k, v)\<in>set d. key_json k \<noteq> None \<and> dumps v \<noteq> None)"
  by (induction d) (auto split: option.splits)

lemma dumps_list_iff: "dumps_list vs \<noteq> None \<longleftrightarrow> (\<forall>v\<in>set vs. dumps v \<noteq> None)"
  by (induction vs) (auto split: option.splits)

lemma dict_put_items:
  "dumps v \<noteq> None \<Longrightarrow> dumps_items acc \<noteq> None \<Longrightarrow> dumps_items (dict_put k v acc) \<noteq> None"
  by (induction acc) (auto split: option.splits if_splits)

lemma keep_items: "dumps_items d \<noteq> None \<Longrightarrow> dumps_items (filter Q d) \<noteq> None"
  unfolding dumps_items_iff by auto

lemma keep_list: "dumps_list d \<noteq> None \<Longrightarrow> dumps_list (filter Q d) \<noteq> None"
  unfolding dumps_list_iff by auto

lemma json_safe_dumps:
  "dumps (json_safe v depth) \<noteq> None"
  "dumps_items acc \<noteq> None \<Longrightarrow> dumps_items (safe_items d depth acc) \<noteq> None"
  "dumps_list (safe_list vs depth) \<noteq> None"
proof (induction v depth and d depth acc and vs depth rule: json_safe_safe_items_safe_list.induct)
  case (7 d depth)
  then show ?case using keep_items by simp
next
  case (8 vs depth)
  then show ?case using keep_list by simp
next
  case (9 vs depth)
  then show ?case using keep_list by simp
next
  case (10 vs depth)
  then show ?case using keep_list by simp
next
  case (11 d s depth)
  then show ?case using keep_items by (simp split: option.split)
qed (auto simp: dict_put_items split: option.splits)



subsection \<open>In order, and once\<close>

lemma claim_keeps_older:
  assumes "claim_for_attempt now b d k p key ttl l ob = ((i, True), ob')" "\<exists>r\<in>set (rows ob). has_key key r"
  shows "older_undelivered b' d' i ob' = older_undelivered b' d' i ob"
proof -
  obtain r where r: "by_source_key key ob = Some r" using assms(2) by (cases "by_source_key key ob") (auto simp: by_source_key_None has_key_def)
  then have "ob' = on_id i (\<lambda>x. x\<lparr>ob_state := INFLIGHT, ob_lease_expires_at := Some (now + l), ob_updated_at := now\<rparr>) ob"
    using assms(1) by (auto simp: claim_for_attempt_def Let_def on_id_def split: if_splits)
  then show ?thesis by (simp add: older_on_id)
qed

lemma enqueue_has_key: "\<exists>r\<in>set (rows (snd (enqueue now b d k p dl (Some key) ttl ob))). has_key key r"
proof (cases "by_source_key key ob")
  case None
  then show ?thesis by (simp add: enqueue_def has_key_def)
next
  case (Some r)
  then show ?thesis by (auto simp: enqueue_def has_key_def dest: by_source_key_SomeD)
qed



text \<open>The state an inline attempt leaves its job in.\<close>

definition inline_outcome :: "string \<Rightarrow> bool \<Rightarrow> failure + int option \<Rightarrow> outbox_state" where
  "inline_outcome kind marked result =
     (case result of
        Inr _ \<Rightarrow> DONE
      | Inl e \<Rightarrow> (case st_verdict (settle kind e marked) of
          V_AMBIGUOUS \<Rightarrow> AMBIGUOUS | V_DEFER \<Rightarrow> PENDING | V_PERMANENT \<Rightarrow> FAILED | V_RETRY \<Rightarrow> PENDING))"

lemma cancelled_not_permanent: "is_cancelled e \<Longrightarrow> st_verdict (settle k e m) \<noteq> V_PERMANENT"
  by (cases e) auto

lemma pipe_outcome:
  assumes "send kind d payload = (m, res)"
  shows "only_changes i (\<lambda>r. ob_state r = inline_outcome kind m res) ob (snd (pipe_attempt now send i d kind payload ob))"
proof (cases res)
  case (Inr remote)
  then show ?thesis using assms changes_trans[OF changes_mark marks_rewrite(1)]
    by (simp add: pipe_attempt_def Let_def inline_outcome_def)
next
  case (Inl e)
  note mk = changes_trans[OF changes_mark]
  show ?thesis
    using assms Inl mk[OF marks_rewrite(2)] mk[OF marks_rewrite(3)] mk[OF marks_rewrite(4)] mk[OF marks_rewrite(5)]
    by (cases "st_verdict (settle kind e m)") (simp_all add: pipe_attempt_def Let_def inline_outcome_def)
qed



text \<open>\<open>submit_noop\<close> does not ask whether the claim was its own. For a source event whose job was
  already delivered it overwrites the outcome: the job that reached the chat is recorded as failed
  and archived with nothing to deliver, its attempt count raised.\<close>

theorem noop_overwrites_a_delivered_job:
  assumes "queue_ok ob" "r \<in> set (rows ob)" "ob_source_key r = Some key" "ob_state r = DONE"
  shows "fst (submit_noop now b d kind key reason ref ob) = ob_id r
    \<and> (\<exists>x\<in>set (rows (snd (submit_noop now b d kind key reason ref ob))).
          ob_id x = ob_id r \<and> ob_state x = ARCHIVED \<and> ob_attempts x = ob_attempts r + 1)"
proof -
  let ?f = "\<lambda>r. r\<lparr>ob_state := FAILED, ob_attempts := ob_attempts r + 1, ob_lease_expires_at := None,
    ob_last_error := Some (take 500 (''nothing to deliver: '' @ reason)), ob_updated_at := now\<rparr>"
  let ?ob2 = "mark_failed now (ob_id r) (''nothing to deliver: '' @ reason) ob"
  have claim: "claim_for_attempt now b d kind p key ttl l ob = ((ob_id r, False), ob)" for p ttl l
    using by_source_key_eq[OF assms(1-3)] assms(4) by (simp add: claim_for_attempt_def)
  have q2: "queue_ok ?ob2" by (rule queue_ok_marks(7)[OF assms(1)])
  have m2: "?f r \<in> set (rows ?ob2)" unfolding mark_failed_def by (rule on_id_row[OF assms(1,2)]) simp
  have one: "tbl_one (\<lambda>x. ob_id x = ob_id r) ?ob2 = Some (?f r)" using one_by_id[OF q2 m2] by simp
  obtain g where g: "snd (archive now (ob_id r) reason ?ob2) = on_id (ob_id r) g ?ob2"
    and gk: "\<And>x. ob_id (g x) = ob_id x \<and> ob_state (g x) = ARCHIVED \<and> ob_attempts (g x) = ob_attempts x"
    using one by (simp add: archive_def Let_def)
  have "g (?f r) \<in> set (rows (on_id (ob_id r) g ?ob2))"
    using on_id_row[OF q2 m2, of g] gk by simp
  then have "\<exists>x\<in>set (rows (on_id (ob_id r) g ?ob2)). ob_id x = ob_id r \<and> ob_state x = ARCHIVED \<and> ob_attempts x = ob_attempts r + 1"
    using gk by (intro bexI[of _ "g (?f r)"]) simp_all
  then show ?thesis unfolding submit_noop_def claim Let_def prod.case fst_conv snd_conv g by simp
qed

end
