(* ===== verification/Text_Chunks.thy ===== *)
theory Text_Chunks
  imports Prelude
begin

section \<open>Splitting a long text at the MAX limit\<close>

text \<open>
  \<open>routing/text_chunks.py\<close>. A Python string is the list of its code points. \<open>utf16_units\<close> encodes it and
  Python refuses to encode a lone surrogate, so that is an error; the splitter's own two
  \<open>ValueError\<close>s are the other two.
\<close>

type_synonym ucs = "nat list"

datatype split_error = Limit_too_small | Encode_error | Cannot_fit

definition MAX_TEXT_UTF16_LIMIT :: nat where
  "MAX_TEXT_UTF16_LIMIT = 4000"

definition width :: "nat \<Rightarrow> nat" where
  "width c = (if c > 65535 then 2 else 1)"

definition surrogate :: "nat \<Rightarrow> bool" where
  "surrogate c \<longleftrightarrow> 55296 \<le> c \<and> c \<le> 57343"

definition units :: "ucs \<Rightarrow> nat" where
  "units t = sum_list (map width t)"

definition utf16_units :: "ucs \<Rightarrow> split_error + nat" where
  "utf16_units t = (if list_ex surrogate t then Inl Encode_error else Inr (units t))"

text \<open>\<open>str.isspace\<close> of one character.\<close>

definition isspace :: "nat \<Rightarrow> bool" where
  "isspace c \<longleftrightarrow> (9 \<le> c \<and> c \<le> 13) \<or> (28 \<le> c \<and> c \<le> 32) \<or> c = 133 \<or> c = 160 \<or> c = 5760
     \<or> (8192 \<le> c \<and> c \<le> 8202) \<or> c = 8232 \<or> c = 8233 \<or> c = 8239 \<or> c = 8287 \<or> c = 12288"

text \<open>The greatest index from \<open>floor\<close> on that satisfies \<open>P\<close>: \<open>str.rfind(s, floor)\<close> with \<open>P i\<close> saying that
  \<open>s\<close> stands at \<open>i\<close>, and the descending scan of the last resort.\<close>

definition last_index :: "(nat \<Rightarrow> bool) \<Rightarrow> nat \<Rightarrow> ucs \<Rightarrow> nat option" where
  "last_index P floor w = find P (rev [floor..<length w])"

definition preferred_break :: "ucs \<Rightarrow> nat \<Rightarrow> nat" where
  "preferred_break w floor =
     (case last_index (\<lambda>i. take 2 (drop i w) = [10, 10]) floor w of
        Some p \<Rightarrow> p + 2
      | None \<Rightarrow> (case last_index (\<lambda>i. w ! i = 10) floor w of
          Some l \<Rightarrow> l + 1
        | None \<Rightarrow> (case last_index (\<lambda>i. isspace (w ! i)) floor w of
            Some i \<Rightarrow> i + 1
          | None \<Rightarrow> 0)))"

text \<open>How many characters fit, the inner loop.\<close>

fun fit :: "nat \<Rightarrow> nat \<Rightarrow> ucs \<Rightarrow> nat" where
  "fit limit used [] = 0"
| "fit limit used (c # cs) = (if used + width c > limit then 0 else Suc (fit limit (used + width c) cs))"

definition split_at :: "nat \<Rightarrow> ucs \<Rightarrow> nat" where
  "split_at stop t =
     (let window = take stop t; s = preferred_break window (length window div 2)
      in if s \<le> 0 then length window else s)"

lemma last_index_Some:
  assumes "last_index P floor w = Some i"
  shows "floor \<le> i \<and> i < length w \<and> P i"
proof -
  have "i \<in> set (rev [floor..<length w]) \<and> P i"
    using assms unfolding last_index_def by (metis find_Some_iff nth_mem)
  then show ?thesis by simp
qed

lemma preferred_break_bounds:
  "preferred_break w floor = 0 \<or> floor < preferred_break w floor \<and> preferred_break w floor \<le> length w"
proof -
  have "i + 2 \<le> length w" if "take 2 (drop i w) = [10, 10]" for i
    using arg_cong[OF that, of length] by simp
  then show ?thesis
    by (auto simp: preferred_break_def split: option.split dest!: last_index_Some)
qed

lemma fit_le: "fit limit used t \<le> length t"
  by (induction limit used t rule: fit.induct) auto

lemma split_at_bounds:
  assumes "0 < stop" "stop \<le> length t"
  shows "0 < split_at stop t" "split_at stop t \<le> stop" "stop div 2 < split_at stop t"
  using preferred_break_bounds[of "take stop t" "stop div 2"] assms
  by (auto simp: split_at_def Let_def min_absorb2)

function split_loop :: "nat \<Rightarrow> ucs \<Rightarrow> split_error + ucs list" where
  "split_loop limit t =
     (if t = [] then Inr []
      else let stop = fit limit 0 t in
        if stop = length t then Inr [t]
        else if stop = 0 then Inl Cannot_fit
        else (case split_loop limit (drop (split_at stop t) t) of
                Inl e \<Rightarrow> Inl e
              | Inr parts \<Rightarrow> Inr (take (split_at stop t) t # parts)))"
  by auto
termination
  by (relation "measure (\<lambda>(limit, t). length t)")
    (use fit_le split_at_bounds in \<open>auto simp: le_neq_implies_less\<close>)

declare split_loop.simps [simp del]

definition split_max_text :: "nat \<Rightarrow> ucs \<Rightarrow> split_error + ucs list" where
  "split_max_text limit t =
     (if limit < 2 then Inl Limit_too_small
      else if t = [] then Inr [t]
      else (case utf16_units t of
              Inl e \<Rightarrow> Inl e
            | Inr n \<Rightarrow> if n \<le> limit then Inr [t] else split_loop limit t))"

subsection \<open>Lossless, within the limit, and not a shower of small pieces\<close>

lemma width_bounds: "1 \<le> width c" "width c \<le> 2"
  by (simp_all add: width_def)

lemma units_simps [simp]:
  "units [] = 0" "units (c # cs) = width c + units cs" "units (xs @ ys) = units xs + units ys"
  by (simp_all add: units_def)

lemma units_le: "units t \<le> 2 * length t"
proof (induction t)
  case (Cons c t)
  then show ?case using width_bounds(2)[of c] by simp
qed simp

lemma fit_units: "used \<le> limit \<Longrightarrow> used + units (take (fit limit used t) t) \<le> limit"
  by (induction limit used t rule: fit.induct) (auto simp: add.assoc)

lemma fit_full:
  "fit limit used t < length t \<Longrightarrow> used \<le> limit \<Longrightarrow> limit < used + units (take (fit limit used t) t) + 2"
proof (induction limit used t rule: fit.induct)
  case (2 limit used c cs)
  then show ?case using width_bounds(2)[of c] by (auto simp: add.assoc)
qed simp

lemma fit_some:
  assumes "2 \<le> limit" "fit limit 0 t < length t"
  shows "limit div 2 \<le> fit limit 0 t"
proof -
  have "limit < units (take (fit limit 0 t) t) + 2" using fit_full[OF assms(2)] by simp
  moreover have "units (take (fit limit 0 t) t) \<le> 2 * fit limit 0 t"
    using units_le[of "take (fit limit 0 t) t"] fit_le[of limit 0 t] by (simp add: min_absorb2)
  ultimately show ?thesis by linarith
qed

lemma units_take_mono: "m \<le> n \<Longrightarrow> units (take m t) \<le> units (take n t)"
proof -
  assume "m \<le> n"
  then have "take n t = take m t @ take (n - m) (drop m t)" by (simp add: take_add[symmetric])
  then show ?thesis by (metis units_simps(3) le_add1)
qed

lemma split_loop_total: "2 \<le> limit \<Longrightarrow> \<exists>parts. split_loop limit t = Inr parts"
proof (induction limit t rule: split_loop.induct)
  case (1 limit t)
  show ?case
  proof (cases "t = [] \<or> fit limit 0 t = length t")
    case False
    then have "fit limit 0 t < length t" using fit_le[of limit 0 t] by simp
    then have "fit limit 0 t \<noteq> 0" using fit_some[OF "1.prems"] "1.prems" by fastforce
    then show ?thesis using False "1.IH"[OF _ refl] "1.prems" by (auto simp: split_loop.simps[of limit t] Let_def)
  qed (auto simp: split_loop.simps[of limit t])
qed

lemma split_loop_parts:
  assumes "2 \<le> limit" "split_loop limit t = Inr parts"
  shows "concat parts = t \<and> (\<forall>p\<in>set parts. p \<noteq> [] \<and> units p \<le> limit)
     \<and> (\<forall>p\<in>set (butlast parts). limit div 4 < length p)"
  using assms
proof (induction limit t arbitrary: parts rule: split_loop.induct)
  case (1 limit t)
  let ?e = "fit limit 0 t" and ?s = "split_at (fit limit 0 t) t"
  have fits: "units (take ?e t) \<le> limit" using fit_units[of 0 limit t] by simp
  consider "t = []" | "t \<noteq> []" "?e = length t" | "t \<noteq> []" "?e < length t"
    using fit_le[of limit 0 t] by fastforce
  then show ?case
  proof cases
    case 1
    then show ?thesis using "1.prems"(2) by (simp add: split_loop.simps[of limit "[]"])
  next
    case 3
    have e: "limit div 2 \<le> ?e" by (rule fit_some[OF "1.prems"(1) 3(2)])
    then have e0: "?e \<noteq> 0" using "1.prems"(1) by linarith
    have s: "0 < ?s" "?s \<le> ?e" "?e div 2 < ?s" using split_at_bounds[of ?e t] e0 3(2) by simp_all
    obtain rest where r: "split_loop limit (drop ?s t) = Inr rest" and p: "parts = take ?s t # rest"
      using "1.prems"(2) 3 e0 by (auto simp: split_loop.simps[of limit t] Let_def split: sum.splits)
    have IH: "concat rest = drop ?s t \<and> (\<forall>p\<in>set rest. p \<noteq> [] \<and> units p \<le> limit)
        \<and> (\<forall>p\<in>set (butlast rest). limit div 4 < length p)"
      by (rule "1.IH"[OF 3(1) refl _ e0 "1.prems"(1) r]) (use 3(2) in simp)
    have "units (take ?s t) \<le> limit" using units_take_mono[OF s(2)] fits by (rule order_trans)
    moreover have "limit div 4 < length (take ?s t)" using e s(2,3) 3(2) by (simp add: min_absorb2)
    moreover have "take ?s t \<noteq> []" using s(1) 3(1) by simp
    ultimately show ?thesis using IH by (simp add: p)
  qed (use "1.prems" fits in \<open>auto simp: split_loop.simps[of limit t]\<close>)
qed

text \<open>C31. A long text reaches MAX whole. Every text Python can encode is split, for every limit of at
  least two units; joined again the pieces are the text, character for character; each piece is
  within the limit; no piece of a text is empty; and every piece but the last is longer than a quarter
  of the limit, so one message never becomes a shower of small ones.\<close>

theorem split_is_lossless:
  assumes "2 \<le> limit" "\<not> list_ex surrogate t"
  shows "\<exists>parts. split_max_text limit t = Inr parts \<and> concat parts = t
    \<and> (\<forall>p\<in>set parts. units p \<le> limit \<and> (p = [] \<longrightarrow> t = []))
    \<and> (\<forall>p\<in>set (butlast parts). limit div 4 < length p)"
proof -
  obtain parts where "split_loop limit t = Inr parts" using split_loop_total[OF assms(1)] by blast
  then show ?thesis using split_loop_parts[OF assms(1), of t parts] assms
    by (auto simp: split_max_text_def utf16_units_def)
qed

theorem split_is_lossless_witness:
  "split_max_text 5 [72, 105, 10, 10, 128512, 128513, 33] = Inr [[72, 105, 10, 10], [128512, 128513, 33]]
   \<and> (\<exists>parts. split_max_text 5 [72, 105, 10, 10, 128512, 128513, 33] = Inr parts
        \<and> concat parts = [72, 105, 10, 10, 128512, 128513, 33])"
proof -
  have "\<not> list_ex surrogate [72, 105, 10, 10, 128512, 128513, 33]" by (simp add: surrogate_def)
  from split_is_lossless[OF _ this, of 5]
  have "\<exists>parts. split_max_text 5 [72, 105, 10, 10, 128512, 128513, 33] = Inr parts
        \<and> concat parts = [72, 105, 10, 10, 128512, 128513, 33]" by auto
  moreover have "split_max_text 5 [72, 105, 10, 10, 128512, 128513, 33] = Inr [[72, 105, 10, 10], [128512, 128513, 33]]"
    by (simp add: split_max_text_def utf16_units_def surrogate_def width_def split_loop.simps Let_def
        split_at_def preferred_break_def last_index_def upt_rec isspace_def)
  ultimately show ?thesis by blast
qed

end
