(* ===== verification/Keyed_Tables.thy ===== *)
theory Keyed_Tables
  imports Prelude
begin

section \<open>Tables with a key of their own\<close>

text \<open>
  The tables without a row id: one row per key, written with \<open>INSERT .. ON CONFLICT(key) DO UPDATE\<close>.
  SQLite tries the conflict target first, so the statement is an update of the row that has the key,
  or else an insertion. The contract of the small caches, a store that answers with what was put last,
  is the locale \<open>last_write\<close>.
\<close>

named_theorems keyed_simps "reading a keyed table after a statement"

definition kt_get :: "('r \<Rightarrow> 'k) \<Rightarrow> 'k \<Rightarrow> 'r list \<Rightarrow> 'r option" where
  "kt_get key k t = find (\<lambda>r. key r = k) t"

definition kt_has :: "('r \<Rightarrow> 'k) \<Rightarrow> 'k \<Rightarrow> 'r list \<Rightarrow> bool" where
  "kt_has key k t = list_ex (\<lambda>r. key r = k) t"

definition kt_update :: "('r \<Rightarrow> bool) \<Rightarrow> ('r \<Rightarrow> 'r) \<Rightarrow> 'r list \<Rightarrow> 'r list" where
  "kt_update P f t = map (\<lambda>r. if P r then f r else r) t"

definition kt_delete :: "('r \<Rightarrow> bool) \<Rightarrow> 'r list \<Rightarrow> 'r list" where
  "kt_delete P t = filter (\<lambda>r. \<not> P r) t"

definition kt_upsert :: "('r \<Rightarrow> 'k) \<Rightarrow> 'r \<Rightarrow> ('r \<Rightarrow> 'r) \<Rightarrow> 'r list \<Rightarrow> 'r list" where
  "kt_upsert key r f t =
     (if kt_has key (key r) t then kt_update (\<lambda>x. key x = key r) f t else t @ [r])"

definition kt_ok :: "('r \<Rightarrow> 'k) \<Rightarrow> 'r list \<Rightarrow> bool" where
  "kt_ok key t = distinct (map key t)"

lemma kt_ok_Nil [simp]: "kt_ok key []"
  by (simp add: kt_ok_def)

lemma kt_has_iff: "kt_has key k t \<longleftrightarrow> (\<exists>r\<in>set t. key r = k)"
  by (auto simp: kt_has_def list_ex_iff)

lemma kt_get_None: "kt_get key k t = None \<longleftrightarrow> \<not> kt_has key k t"
  by (auto simp: kt_get_def kt_has_iff find_None_iff)

lemma kt_get_has: "kt_has key k t \<longleftrightarrow> (\<exists>r. kt_get key k t = Some r)"
  using kt_get_None[of key k t] by (cases "kt_get key k t") simp_all

lemma kt_get_Some: "kt_get key k t = Some r \<Longrightarrow> r \<in> set t \<and> key r = k"
  by (induction t) (auto simp: kt_get_def split: if_splits)

lemma kt_get_eq: "kt_ok key t \<Longrightarrow> r \<in> set t \<Longrightarrow> kt_get key (key r) t = Some r"
proof (induction t)
  case (Cons x t)
  then show ?case by (cases "r = x") (simp_all add: kt_ok_def kt_get_def, metis image_eqI)
qed simp

lemma kt_get_append: "kt_get key k (xs @ ys) = (case kt_get key k xs of None \<Rightarrow> kt_get key k ys | Some r \<Rightarrow> Some r)"
  by (induction xs) (auto simp: kt_get_def)

lemma kt_get_single [simp]: "kt_get key k [r] = (if key r = k then Some r else None)"
  by (simp add: kt_get_def)

lemma kt_get_update:
  assumes "\<And>r. r \<in> set t \<Longrightarrow> P r \<Longrightarrow> key (f r) = key r"
  shows "kt_get key k (kt_update P f t) = map_option (\<lambda>r. if P r then f r else r) (kt_get key k t)"
  using assms by (induction t) (auto simp: kt_get_def kt_update_def)

lemma kt_has_update:
  assumes "\<And>r. r \<in> set t \<Longrightarrow> P r \<Longrightarrow> key (f r) = key r"
  shows "kt_has key k (kt_update P f t) \<longleftrightarrow> kt_has key k t"
  using kt_get_update[of t P key f k] assms by (simp add: kt_get_has)

lemma kt_ok_update:
  assumes "kt_ok key t" "\<And>r. r \<in> set t \<Longrightarrow> P r \<Longrightarrow> key (f r) = key r"
  shows "kt_ok key (kt_update P f t)"
proof -
  have "map key (kt_update P f t) = map key t"
    using assms(2) by (simp add: kt_update_def)
  then show ?thesis using assms(1) by (simp add: kt_ok_def)
qed

lemma kt_ok_delete [inv_intro]: "kt_ok key t \<Longrightarrow> kt_ok key (kt_delete P t)"
  by (simp add: kt_ok_def kt_delete_def distinct_map_filter)

lemma kt_get_delete:
  assumes "\<And>r. key r = k \<Longrightarrow> \<not> P r"
  shows "kt_get key k (kt_delete P t) = kt_get key k t"
  using assms by (induction t) (auto simp: kt_get_def kt_delete_def)

lemma kt_has_delete: "kt_has key k (kt_delete P t) \<longleftrightarrow> (\<exists>r\<in>set t. key r = k \<and> \<not> P r)"
  by (auto simp: kt_has_iff kt_delete_def)

lemma kt_ok_upsert [inv_intro]:
  assumes "kt_ok key t" "\<And>x. key (f x) = key x"
  shows "kt_ok key (kt_upsert key r f t)"
  using assms kt_ok_update[OF assms(1), of "\<lambda>x. key x = key r" f]
  by (auto simp: kt_upsert_def kt_ok_def kt_has_iff)

lemma kt_get_upsert:
  assumes "\<And>x. key (f x) = key x"
  shows "kt_get key k (kt_upsert key r f t) =
     (if k = key r then Some (case kt_get key k t of None \<Rightarrow> r | Some x \<Rightarrow> f x) else kt_get key k t)"
proof (cases "kt_has key (key r) t")
  case True
  then obtain x where x: "kt_get key (key r) t = Some x" by (auto simp: kt_get_has)
  show ?thesis
  proof (cases "k = key r")
    case True
    then show ?thesis using \<open>kt_has key (key r) t\<close> x kt_get_Some[OF x] assms
      by (simp add: kt_upsert_def kt_get_update)
  next
    case False
    have "kt_get key k (kt_upsert key r f t) = map_option (\<lambda>x. if key x = key r then f x else x) (kt_get key k t)"
      using \<open>kt_has key (key r) t\<close> assms by (simp add: kt_upsert_def kt_get_update)
    also have "\<dots> = kt_get key k t"
      using False kt_get_Some[of key k t] by (cases "kt_get key k t") auto
    finally show ?thesis using False by simp
  qed
next
  case False
  then have "kt_get key (key r) t = None" by (simp add: kt_get_None)
  then show ?thesis using False
    by (cases "kt_get key k t") (auto simp: kt_upsert_def kt_get_append kt_get_single)
qed

lemmas kt_gets [keyed_simps] = kt_get_update kt_get_upsert kt_get_append

subsection \<open>A store that answers with what was put last\<close>

locale last_write =
  fixes get :: "'k \<Rightarrow> 's \<Rightarrow> 'v option"
    and put :: "'k \<Rightarrow> 'v \<Rightarrow> 's \<Rightarrow> 's"
  assumes get_put: "get k' (put k v s) = (if k' = k then Some v else get k' s)"
begin

definition put_all :: "('k \<times> 'v) list \<Rightarrow> 's \<Rightarrow> 's" where
  "put_all kvs s = fold (\<lambda>(k, v). put k v) kvs s"

text \<open>After any series of writes a key reads as its last value; keys nobody wrote are untouched.\<close>

lemma last_value: "get k (put_all kvs s) = (case map_of (rev kvs) k of None \<Rightarrow> get k s | Some v \<Rightarrow> Some v)"
proof (induction kvs rule: rev_induct)
  case (snoc a kvs)
  then show ?case by (cases a) (auto simp: put_all_def get_put)
qed (simp add: put_all_def)

lemma put_twice: "get k' (put k v (put k w s)) = get k' (put k v s)"
  by (simp add: get_put)

end

end
