(* ===== verification/Registry.thy ===== *)
theory Registry
  imports Schema Interfaces Keyed_Tables "HOL-Library.Option_ord" "HOL-Library.List_Lexorder" "HOL-Library.Char_ord"
begin

section \<open>The registry of bridges\<close>

text \<open>
  \<open>BridgeRepository\<close> of \<open>storage/repositories.py\<close> over the table \<open>bridges\<close>. The unique indexes
  (one bridge per MAX chat, per bot and per username, usernames compared in lower case) are
  \<open>br_clash\<close>. The reads return the row; a statement that breaks an index changes nothing, and
  \<open>upsert\<close> raises \<open>BridgeIdentityConflictError\<close> with the name of the bridge.
\<close>

type_synonym registry = "bridge_row list"

definition br_clash :: "bridge_row \<Rightarrow> bridge_row \<Rightarrow> bool" where
  "br_clash a b \<longleftrightarrow> br_max_chat_id a = br_max_chat_id b
     \<or> (case (br_telegram_bot_id a, br_telegram_bot_id b) of (Some x, Some y) \<Rightarrow> x = y | _ \<Rightarrow> False)
     \<or> (case (br_expected_username a, br_expected_username b) of
          (Some u, Some v) \<Rightarrow> u \<noteq> [] \<and> v \<noteq> [] \<and> lower u = lower v
        | _ \<Rightarrow> False)"

definition coalesce :: "'a option \<Rightarrow> 'a option \<Rightarrow> 'a option" where
  "coalesce a b = (case a of None \<Rightarrow> b | Some _ \<Rightarrow> a)"

definition checked :: "registry \<Rightarrow> db_error + registry" where
  "checked reg = (if no_clash br_clash reg then Inr reg else Inl IntegrityError)"

definition upsert_row :: "int \<Rightarrow> bridge_row \<Rightarrow> registry \<Rightarrow> registry" where
  "upsert_row now n =
     kt_upsert br_bridge_name
       \<lparr>br_bridge_name = br_bridge_name n, br_max_chat_id = br_max_chat_id n, br_max_user_id = br_max_user_id n,
        br_telegram_bot_id = br_telegram_bot_id n, br_token_env = br_token_env n, br_title = br_title n,
        br_source = br_source n, br_state = br_state n, br_created_at = now, br_updated_at = now,
        br_profile_signature = None, br_pin_message_id = None, br_pin_text = None,
        br_expected_username = br_expected_username n, br_lifecycle_state = None, br_health = None,
        br_history_cursor = None, br_history_floor = None\<rparr>
       (\<lambda>r. r\<lparr>br_max_chat_id := br_max_chat_id n,
              br_max_user_id := coalesce (br_max_user_id n) (br_max_user_id r),
              br_telegram_bot_id := coalesce (br_telegram_bot_id n) (br_telegram_bot_id r),
              br_token_env := br_token_env n, br_title := coalesce (br_title n) (br_title r),
              br_state := br_state n,
              br_expected_username := coalesce (br_expected_username n) (br_expected_username r),
              br_updated_at := now\<rparr>)"

definition upsert :: "int \<Rightarrow> bridge_row \<Rightarrow> registry \<Rightarrow> db_error + registry" where
  "upsert now n reg =
     (case checked (upsert_row now n reg) of
        Inl _ \<Rightarrow> Inl (BridgeIdentityConflictError (br_bridge_name n))
      | Inr reg' \<Rightarrow> Inr reg')"

definition on_bridge :: "string \<Rightarrow> (bridge_row \<Rightarrow> bridge_row) \<Rightarrow> registry \<Rightarrow> registry" where
  "on_bridge name f = kt_update (\<lambda>r. br_bridge_name r = name) f"

definition bridge_get :: "string \<Rightarrow> registry \<Rightarrow> bridge_row option" where
  "bridge_get = kt_get br_bridge_name"

definition profile_signature :: "string \<Rightarrow> registry \<Rightarrow> string option" where
  "profile_signature name reg = Option.bind (bridge_get name reg) br_profile_signature"

definition set_profile_signature :: "int \<Rightarrow> string \<Rightarrow> string \<Rightarrow> registry \<Rightarrow> registry" where
  "set_profile_signature now name sig =
     on_bridge name (\<lambda>r. r\<lparr>br_profile_signature := Some sig, br_updated_at := now\<rparr>)"

definition pinned_status :: "string \<Rightarrow> registry \<Rightarrow> int option \<times> string option" where
  "pinned_status name reg =
     (case bridge_get name reg of
        None \<Rightarrow> (None, None)
      | Some r \<Rightarrow> (br_pin_message_id r, br_pin_text r))"

definition set_pinned_status :: "int \<Rightarrow> string \<Rightarrow> int option \<Rightarrow> string option \<Rightarrow> registry \<Rightarrow> registry" where
  "set_pinned_status now name m t =
     on_bridge name (\<lambda>r. r\<lparr>br_pin_message_id := m, br_pin_text := t, br_updated_at := now\<rparr>)"

definition history_cursor :: "string \<Rightarrow> registry \<Rightarrow> int option" where
  "history_cursor name reg = Option.bind (bridge_get name reg) br_history_cursor"

definition or_zero :: "int option \<Rightarrow> int" where
  "or_zero m = (case m of None \<Rightarrow> 0 | Some v \<Rightarrow> v)"

definition move_cursor :: "int \<Rightarrow> int \<Rightarrow> bridge_row \<Rightarrow> bridge_row" where
  "move_cursor now c r = r\<lparr>br_history_cursor := Some (max (or_zero (br_history_cursor r)) c), br_updated_at := now\<rparr>"

definition set_history_cursor :: "int \<Rightarrow> string \<Rightarrow> int \<Rightarrow> registry \<Rightarrow> registry" where
  "set_history_cursor now name c = on_bridge name (move_cursor now c)"

definition raise_floor :: "int \<Rightarrow> int \<Rightarrow> bridge_row \<Rightarrow> bridge_row" where
  "raise_floor now f r = r\<lparr>br_history_floor := Some (max (or_zero (br_history_floor r)) f), br_updated_at := now\<rparr>"

definition set_history_floor :: "int \<Rightarrow> string \<Rightarrow> int \<Rightarrow> registry \<Rightarrow> registry" where
  "set_history_floor now name f = on_bridge name (raise_floor now f)"

definition clear_history_cursor :: "int \<Rightarrow> string \<Rightarrow> registry \<Rightarrow> registry" where
  "clear_history_cursor now name = on_bridge name (\<lambda>r. r\<lparr>br_history_cursor := None, br_updated_at := now\<rparr>)"

definition set_lifecycle ::
  "int \<Rightarrow> string \<Rightarrow> string option \<Rightarrow> string option \<Rightarrow> string option \<Rightarrow> registry \<Rightarrow> db_error + registry" where
  "set_lifecycle now name username lifecycle health reg =
     checked (on_bridge name (\<lambda>r. r\<lparr>br_expected_username := coalesce username (br_expected_username r),
       br_lifecycle_state := coalesce lifecycle (br_lifecycle_state r), br_health := coalesce health (br_health r),
       br_updated_at := now\<rparr>) reg)"

definition by_expected_username :: "string \<Rightarrow> registry \<Rightarrow> bridge_row option" where
  "by_expected_username u = find (\<lambda>r. br_expected_username r = Some (lower u))"

definition by_max_chat :: "int \<Rightarrow> registry \<Rightarrow> bridge_row option" where
  "by_max_chat c = find (\<lambda>r. br_max_chat_id r = c)"

definition bridges_active :: "registry \<Rightarrow> bridge_row list" where
  "bridges_active reg = sort_key br_bridge_name (filter (\<lambda>r. br_state r = ACTIVE) reg)"

definition bridges_all :: "registry \<Rightarrow> bridge_row list" where
  "bridges_all reg = sort_key br_bridge_name reg"

definition by_bot_id :: "int \<Rightarrow> registry \<Rightarrow> bridge_row option" where
  "by_bot_id b = find (\<lambda>r. br_telegram_bot_id r = Some b)"

definition set_bridge_state :: "int \<Rightarrow> string \<Rightarrow> bridge_state \<Rightarrow> registry \<Rightarrow> registry" where
  "set_bridge_state now name st = on_bridge name (\<lambda>r. r\<lparr>br_state := st, br_updated_at := now\<rparr>)"

definition forget_bot :: "int \<Rightarrow> string \<Rightarrow> registry \<Rightarrow> registry" where
  "forget_bot now name =
     on_bridge name (\<lambda>r. r\<lparr>br_telegram_bot_id := None, br_history_cursor := None, br_profile_signature := None,
       br_pin_message_id := None, br_pin_text := None, br_updated_at := now\<rparr>)"

subsection \<open>Every identity belongs to one bridge\<close>

definition reg_ok :: "registry \<Rightarrow> bool" where
  "reg_ok reg \<longleftrightarrow> kt_ok br_bridge_name reg \<and> no_clash br_clash reg"

datatype reg_call =
    R_upsert bridge_row
  | R_profile string string
  | R_pin string "int option" "string option"
  | R_cursor string int
  | R_floor string int
  | R_clear_cursor string
  | R_lifecycle string "string option" "string option" "string option"
  | R_state string bridge_state
  | R_forget_bot string

definition or_same :: "registry \<Rightarrow> db_error + registry \<Rightarrow> registry" where
  "or_same reg res = (case res of Inl _ \<Rightarrow> reg | Inr reg' \<Rightarrow> reg')"

fun reg_exec :: "int \<Rightarrow> reg_call \<Rightarrow> registry \<Rightarrow> registry" where
  "reg_exec now (R_upsert n) reg = or_same reg (upsert now n reg)"
| "reg_exec now (R_profile b s) reg = set_profile_signature now b s reg"
| "reg_exec now (R_pin b m t) reg = set_pinned_status now b m t reg"
| "reg_exec now (R_cursor b c) reg = set_history_cursor now b c reg"
| "reg_exec now (R_floor b f) reg = set_history_floor now b f reg"
| "reg_exec now (R_clear_cursor b) reg = clear_history_cursor now b reg"
| "reg_exec now (R_lifecycle b u l h) reg = or_same reg (set_lifecycle now b u l h reg)"
| "reg_exec now (R_state b s) reg = set_bridge_state now b s reg"
| "reg_exec now (R_forget_bot b) reg = forget_bot now b reg"

fun reg_run :: "(int \<times> reg_call) list \<Rightarrow> registry \<Rightarrow> registry" where
  "reg_run [] reg = reg"
| "reg_run ((now, c) # cs) reg = reg_run cs (reg_exec now c reg)"

lemma br_clash_sym: "br_clash a b = br_clash b a"
  by (auto simp: br_clash_def split: option.splits)

lemma no_clash_iff: "no_clash clash rs \<longleftrightarrow> (\<forall>i<length rs. \<forall>j<i. \<not> clash (rs ! j) (rs ! i))"
  by (auto simp: no_clash_def sorted_wrt_iff_nth_less)

lemma on_bridge_clash:
  assumes "no_clash br_clash reg" "\<And>r s. br_clash (f r) s \<Longrightarrow> br_clash r s"
  shows "no_clash br_clash (on_bridge name f reg)"
  unfolding on_bridge_def kt_update_def
proof (rule no_clash_map[OF assms(1)])
  fix a b
  assume "br_clash (if br_bridge_name a = name then f a else a) (if br_bridge_name b = name then f b else b)"
  then show "br_clash a b" using assms(2) br_clash_sym by (metis (full_types))
qed

lemma on_bridge_ok [inv_intro]:
  assumes "reg_ok reg" "\<And>r. br_bridge_name (f r) = br_bridge_name r" "\<And>r s. br_clash (f r) s \<Longrightarrow> br_clash r s"
  shows "reg_ok (on_bridge name f reg)"
  using assms on_bridge_clash[OF _ assms(3)] by (auto simp: reg_ok_def on_bridge_def intro: kt_ok_update)

lemma upsert_Inr:
  "upsert now n reg = Inr reg' \<longleftrightarrow> reg' = upsert_row now n reg \<and> no_clash br_clash (upsert_row now n reg)"
  by (auto simp: upsert_def checked_def)

lemma upsert_row_ok: "kt_ok br_bridge_name reg \<Longrightarrow> kt_ok br_bridge_name (upsert_row now n reg)"
  unfolding upsert_row_def by (rule kt_ok_upsert) simp_all

lemma reg_ok_exec: "reg_ok reg \<Longrightarrow> reg_ok (reg_exec now c reg)"
proof (cases c)
  case (R_upsert n)
  then show "reg_ok reg \<Longrightarrow> ?thesis"
    by (auto simp: or_same_def reg_ok_def upsert_row_ok split: sum.split dest!: upsert_Inr[THEN iffD1])
next
  case (R_lifecycle b u l h)
  then show "reg_ok reg \<Longrightarrow> ?thesis"
    by (auto simp: or_same_def reg_ok_def set_lifecycle_def checked_def on_bridge_def intro: kt_ok_update)
qed (auto simp: set_profile_signature_def set_pinned_status_def set_history_cursor_def set_history_floor_def
      move_cursor_def raise_floor_def clear_history_cursor_def set_bridge_state_def forget_bot_def br_clash_def
      intro!: on_bridge_ok split: option.splits)

lemma reg_ok_run: "reg_ok reg \<Longrightarrow> reg_ok (reg_run cs reg)"
  by (induction cs reg rule: reg_run.induct) (simp_all add: reg_ok_exec)

lemma reg_ok_Nil [simp]: "reg_ok []"
  by (simp add: reg_ok_def no_clash_def)

lemma reg_no_clash:
  assumes "reg_ok reg" "a \<in> set reg" "b \<in> set reg" "br_clash a b"
  shows "a = b"
proof (rule ccontr)
  assume "a \<noteq> b"
  then obtain i j where "i < length reg" "reg ! i = a" "j < length reg" "reg ! j = b" "i < j \<or> j < i"
    using assms(2,3) by (metis in_set_conv_nth linorder_neqE_nat)
  then show False using assms(1,4) br_clash_sym[of a b] by (auto simp: reg_ok_def no_clash_iff)
qed

text \<open>One identity, one bridge. Whatever registry calls run, from an empty registry on, two different
  bridges never share a name, a MAX dialogue, a bot or a username, upper and lower case counted as the
  same; so each of the four lookups can only ever find one bridge.\<close>

theorem bridge_identities_unique:
  assumes "a \<in> set (reg_run cs [])" "b \<in> set (reg_run cs [])" "a \<noteq> b"
  shows "br_bridge_name a \<noteq> br_bridge_name b \<and> br_max_chat_id a \<noteq> br_max_chat_id b
    \<and> (br_telegram_bot_id a = br_telegram_bot_id b \<longrightarrow> br_telegram_bot_id a = None)
    \<and> (\<forall>u v. br_expected_username a = Some u \<and> br_expected_username b = Some v \<and> u \<noteq> [] \<and> v \<noteq> [] \<longrightarrow> lower u \<noteq> lower v)"
proof -
  have ok: "reg_ok (reg_run cs [])" by (rule reg_ok_run) simp
  then have "br_bridge_name a \<noteq> br_bridge_name b"
    using assms by (auto simp: reg_ok_def kt_ok_def distinct_map inj_on_def)
  moreover have "\<not> br_clash a b" using reg_no_clash[OF ok assms(1,2)] assms(3) by blast
  ultimately show ?thesis by (auto simp: br_clash_def split: option.splits)
qed

definition sample_bridge :: "string \<Rightarrow> int \<Rightarrow> int \<Rightarrow> bridge_row" where
  "sample_bridge name chat bid = \<lparr>br_bridge_name = name, br_max_chat_id = chat, br_max_user_id = None, br_telegram_bot_id = Some bid,
     br_token_env = [], br_title = None, br_source = [], br_state = ACTIVE, br_created_at = 0, br_updated_at = 0,
     br_profile_signature = None, br_pin_message_id = None, br_pin_text = None, br_expected_username = None,
     br_lifecycle_state = None, br_health = None, br_history_cursor = None, br_history_floor = None\<rparr>"

theorem bridge_identities_unique_witness:
  "let reg = reg_run [(1, R_upsert (sample_bridge ''a'' 5 9)), (2, R_upsert (sample_bridge ''b'' 6 9)),
                      (3, R_upsert (sample_bridge ''c'' 6 8))] []
   in map br_bridge_name reg = [''a'', ''c''] \<and> br_max_chat_id (hd reg) \<noteq> br_max_chat_id (last reg)"
proof -
  let ?reg = "reg_run [(1, R_upsert (sample_bridge ''a'' 5 9)), (2, R_upsert (sample_bridge ''b'' 6 9)),
                       (3, R_upsert (sample_bridge ''c'' 6 8))] []"
  have c: "map br_bridge_name ?reg = [''a'', ''c'']" "hd ?reg \<in> set ?reg" "last ?reg \<in> set ?reg" "hd ?reg \<noteq> last ?reg" by code_simp+
  show ?thesis using bridge_identities_unique[OF c(2-4)] c(1) by (simp add: Let_def)
qed

lemma no_clash_set:
  assumes "kt_ok br_bridge_name reg"
  shows "no_clash br_clash reg \<longleftrightarrow> (\<forall>a\<in>set reg. \<forall>b\<in>set reg. br_bridge_name a \<noteq> br_bridge_name b \<longrightarrow> \<not> br_clash a b)"
proof -
  have d: "br_bridge_name (reg ! i) = br_bridge_name (reg ! j) \<longleftrightarrow> i = j" if "i < length reg" "j < length reg" for i j
    using assms that nth_eq_iff_index_eq[of "map br_bridge_name reg" i j] by (simp add: kt_ok_def)
  show ?thesis
  proof
    assume nc: "no_clash br_clash reg"
    have "\<not> br_clash (reg ! i) (reg ! j)" if "i < length reg" "j < length reg" "i \<noteq> j" for i j
      using nc that br_clash_sym[of "reg ! i" "reg ! j"] unfolding no_clash_iff by (cases "i < j") auto
    then show "\<forall>a\<in>set reg. \<forall>b\<in>set reg. br_bridge_name a \<noteq> br_bridge_name b \<longrightarrow> \<not> br_clash a b"
      by (metis in_set_conv_nth)
  next
    assume "\<forall>a\<in>set reg. \<forall>b\<in>set reg. br_bridge_name a \<noteq> br_bridge_name b \<longrightarrow> \<not> br_clash a b"
    then show "no_clash br_clash reg" using d unfolding no_clash_iff by simp
  qed
qed

definition fresh_row :: "int \<Rightarrow> bridge_row \<Rightarrow> bridge_row" where
  "fresh_row now n = n\<lparr>br_created_at := now, br_updated_at := now, br_profile_signature := None,
     br_pin_message_id := None, br_pin_text := None, br_lifecycle_state := None, br_health := None,
     br_history_cursor := None, br_history_floor := None\<rparr>"

definition merged_row :: "int \<Rightarrow> bridge_row \<Rightarrow> bridge_row \<Rightarrow> bridge_row" where
  "merged_row now n r = r\<lparr>br_max_chat_id := br_max_chat_id n,
     br_max_user_id := coalesce (br_max_user_id n) (br_max_user_id r),
     br_telegram_bot_id := coalesce (br_telegram_bot_id n) (br_telegram_bot_id r),
     br_token_env := br_token_env n, br_title := coalesce (br_title n) (br_title r), br_state := br_state n,
     br_expected_username := coalesce (br_expected_username n) (br_expected_username r), br_updated_at := now\<rparr>"

definition upserted :: "int \<Rightarrow> bridge_row \<Rightarrow> registry \<Rightarrow> bridge_row" where
  "upserted now n reg = (case bridge_get (br_bridge_name n) reg of
     None \<Rightarrow> fresh_row now n | Some r \<Rightarrow> merged_row now n r)"

lemma upsert_row_get:
  "bridge_get k (upsert_row now n reg) = (if k = br_bridge_name n then Some (upserted now n reg) else bridge_get k reg)"
  unfolding bridge_get_def upsert_row_def
  by (subst kt_get_upsert) (auto simp: upserted_def bridge_get_def fresh_row_def merged_row_def split: option.split)

lemma upserted_name [simp]: "br_bridge_name (upserted now n reg) = br_bridge_name n"
  by (auto simp: upserted_def fresh_row_def merged_row_def bridge_get_def split: option.split dest: kt_get_Some)

text \<open>\<open>upsert\<close> is exact. It is refused, and changes nothing, exactly if another bridge already holds
  the MAX dialogue, the bot or the username the row would end up with; otherwise the bridge reads back
  as the new values, with the bot, the username, the title and the user kept where the caller gave
  none and everything the caller cannot know (history marks, profile, pin, lifecycle) untouched, and
  every other bridge is as it was.\<close>

theorem upsert_exact:
  assumes "reg_ok reg"
  shows "(upsert now n reg = Inl (BridgeIdentityConflictError (br_bridge_name n))
      \<longleftrightarrow> (\<exists>r\<in>set reg. br_bridge_name r \<noteq> br_bridge_name n \<and> br_clash r (upserted now n reg)))
    \<and> (\<forall>reg'. upsert now n reg = Inr reg' \<longrightarrow>
        (\<forall>k. bridge_get k reg' = (if k = br_bridge_name n then Some (upserted now n reg) else bridge_get k reg)))"
proof -
  let ?u = "upsert_row now n reg"
  have ok: "kt_ok br_bridge_name reg" using assms by (simp add: reg_ok_def)
  have oku: "kt_ok br_bridge_name ?u" by (rule upsert_row_ok[OF ok])
  have mem: "x \<in> set ?u \<longleftrightarrow> (x = upserted now n reg \<or> x \<in> set reg \<and> br_bridge_name x \<noteq> br_bridge_name n)" for x
  proof
    assume "x \<in> set ?u"
    then have "bridge_get (br_bridge_name x) ?u = Some x" using kt_get_eq[OF oku] by (simp add: bridge_get_def)
    then show "x = upserted now n reg \<or> x \<in> set reg \<and> br_bridge_name x \<noteq> br_bridge_name n"
      unfolding upsert_row_get by (auto simp: bridge_get_def split: if_splits dest: kt_get_Some)
  next
    assume "x = upserted now n reg \<or> x \<in> set reg \<and> br_bridge_name x \<noteq> br_bridge_name n"
    then have "bridge_get (br_bridge_name x) ?u = Some x"
      unfolding upsert_row_get using kt_get_eq[OF ok] by (auto simp: bridge_get_def)
    then show "x \<in> set ?u" by (auto simp: bridge_get_def dest: kt_get_Some)
  qed
  have old: "\<not> br_clash a b" if "a \<in> set reg" "b \<in> set reg" "br_bridge_name a \<noteq> br_bridge_name b" for a b
    using assms that by (auto simp: reg_ok_def no_clash_set)
  have "no_clash br_clash ?u \<longleftrightarrow> (\<forall>r\<in>set reg. br_bridge_name r \<noteq> br_bridge_name n \<longrightarrow> \<not> br_clash r (upserted now n reg))"
    unfolding no_clash_set[OF oku] using mem old br_clash_sym by (metis upserted_name)
  then show ?thesis using upsert_row_get by (auto simp: upsert_def checked_def)
qed

subsection \<open>The history marks\<close>

interpretation floor_mark: watermark "\<lambda>r. or_zero (br_history_floor r)" "\<lambda>v. v" "raise_floor now" for now
  by unfold_locales (simp add: raise_floor_def or_zero_def)

interpretation cursor_mark: watermark "\<lambda>r. or_zero (br_history_cursor r)" "\<lambda>v. v" "move_cursor now" for now
  by unfold_locales (simp add: move_cursor_def or_zero_def)

lemma get_on_bridge:
  assumes "\<And>r. br_bridge_name (f r) = br_bridge_name r"
  shows "bridge_get b (on_bridge name f reg)
    = map_option (\<lambda>r. if br_bridge_name r = name then f r else r) (bridge_get b reg)"
  unfolding bridge_get_def on_bridge_def by (rule kt_get_update) (simp add: assms)

lemma get_checked:
  assumes "bridge_get b reg = Some r" "checked reg' = res"
    "\<exists>r'. bridge_get b reg' = Some r' \<and> Q r'" "Q r"
  shows "\<exists>r'. bridge_get b (or_same reg res) = Some r' \<and> Q r'"
  using assms by (auto simp: checked_def or_same_def)

lemma floor_exec:
  assumes "bridge_get b reg = Some r"
  shows "\<exists>r'. bridge_get b (reg_exec now c reg) = Some r' \<and> or_zero (br_history_floor r) \<le> or_zero (br_history_floor r')
    \<and> (\<forall>f. c = R_floor b f \<longrightarrow> f \<le> or_zero (br_history_floor r'))"
proof (cases c)
  case (R_upsert n)
  show ?thesis
  proof (cases "upsert now n reg")
    case (Inr reg')
    then have "reg' = upsert_row now n reg" by (simp add: upsert_Inr)
    then show ?thesis using R_upsert Inr assms
      by (auto simp: or_same_def upsert_row_get upserted_def merged_row_def)
  qed (use R_upsert assms in \<open>simp add: or_same_def\<close>)
next
  case (R_lifecycle n u l h)
  then show ?thesis using assms by (auto simp: or_same_def set_lifecycle_def checked_def get_on_bridge)
next
  case (R_floor n f)
  have "br_bridge_name r = b" using assms by (auto simp: bridge_get_def dest: kt_get_Some)
  then show ?thesis using R_floor assms
    by (auto simp: set_history_floor_def get_on_bridge raise_floor_def or_zero_def)
qed (use assms in \<open>auto simp: set_profile_signature_def set_pinned_status_def set_history_cursor_def
      move_cursor_def clear_history_cursor_def set_bridge_state_def forget_bot_def get_on_bridge\<close>)

text \<open>The history floor only rises. Once a floor is set for a bridge, no sequence of registry calls -
  another bot, a cleared cursor, a new import, a change of state, a lower floor - brings it down again:
  every floor ever set still lies at or below the one in force. So a message at or below it, which is
  never carried automatically, stays so for good.\<close>

theorem history_floor_for_good:
  assumes "bridge_get b reg = Some r"
  shows "\<exists>r'. bridge_get b (reg_run cs reg) = Some r' \<and> or_zero (br_history_floor r) \<le> or_zero (br_history_floor r')
    \<and> (\<forall>now f. (now, R_floor b f) \<in> set cs \<longrightarrow> f \<le> or_zero (br_history_floor r'))"
  using assms
proof (induction cs arbitrary: reg r)
  case (Cons x cs)
  obtain now c where x: "x = (now, c)" by (cases x)
  from floor_exec[OF Cons.prems, of now c] obtain r1 where r1': "bridge_get b (reg_exec now c reg) = Some r1
    \<and> or_zero (br_history_floor r) \<le> or_zero (br_history_floor r1)
    \<and> (\<forall>f. c = R_floor b f \<longrightarrow> f \<le> or_zero (br_history_floor r1))"
    by (rule exE)
  note r1 = r1'[THEN conjunct1] r1'[THEN conjunct2, THEN conjunct1] r1'[THEN conjunct2, THEN conjunct2]
  from Cons.IH[OF r1(1)] obtain r2 where r2': "bridge_get b (reg_run cs (reg_exec now c reg)) = Some r2
    \<and> or_zero (br_history_floor r1) \<le> or_zero (br_history_floor r2)
    \<and> (\<forall>now f. (now, R_floor b f) \<in> set cs \<longrightarrow> f \<le> or_zero (br_history_floor r2))"
    by (rule exE)
  note r2 = r2'[THEN conjunct1] r2'[THEN conjunct2, THEN conjunct1] r2'[THEN conjunct2, THEN conjunct2]
  have "f \<le> or_zero (br_history_floor r2)" if "(t, R_floor b f) \<in> set (x # cs)" for t f
  proof (cases "(t, R_floor b f) = (now, c)")
    case True
    then show ?thesis using r1(3) r2(2) by (metis order_trans prod.inject)
  next
    case False
    then show ?thesis using that r2(3) unfolding x set_simps insert_iff by blast
  qed
  moreover have "or_zero (br_history_floor r) \<le> or_zero (br_history_floor r2)" using r1(2) r2(2) by (rule order_trans)
  ultimately show ?case using r2(1) by (auto simp only: x reg_run.simps)
qed simp

end
