(* ===== verification/Contact_State.thy ===== *)
theory Contact_State
  imports Schema Interfaces Keyed_Tables Text_Chunks
begin

section \<open>What the bridge remembers about a contact\<close>

text \<open>
  \<open>ReadStateRepository\<close>, \<open>ReactionStateRepository\<close>, \<open>ForwardAuthorRepository\<close>, the two sticker
  repositories and \<open>PendingContactRepository\<close> of \<open>storage/repositories.py\<close>. Each is a table keyed by
  what it is about; the pending contacts also hold the messages of people who have no bridge yet.
  Reaction counters are stored as the dictionary their JSON text stands for.
\<close>

subsection \<open>Read marks\<close>

type_synonym read_state = "read_marks list"

definition no_marks :: "string \<Rightarrow> read_marks" where
  "no_marks b = \<lparr>rm_bridge_name = b, rm_contact_read_mark = 0, rm_own_read_mark = 0,
     rm_last_ticked_message_id = None, rm_status_message_id = None, rm_status_text = None, rm_delivered_at = 0\<rparr>"

definition read_get :: "string \<Rightarrow> read_state \<Rightarrow> read_marks" where
  "read_get b s = (case kt_get rm_bridge_name b s of None \<Rightarrow> no_marks b | Some r \<Rightarrow> r)"

definition note_delivered :: "string \<Rightarrow> int \<Rightarrow> read_state \<Rightarrow> read_state" where
  "note_delivered b at =
     kt_upsert rm_bridge_name ((no_marks b)\<lparr>rm_delivered_at := at\<rparr>) (\<lambda>r. r\<lparr>rm_delivered_at := at\<rparr>)"

definition set_status_line :: "string \<Rightarrow> int option \<Rightarrow> string option \<Rightarrow> read_state \<Rightarrow> read_state" where
  "set_status_line b m t =
     kt_upsert rm_bridge_name ((no_marks b)\<lparr>rm_status_message_id := m, rm_status_text := t\<rparr>)
       (\<lambda>r. r\<lparr>rm_status_message_id := m, rm_status_text := t\<rparr>)"

definition note_contact_read :: "string \<Rightarrow> int \<Rightarrow> int option \<Rightarrow> read_state \<Rightarrow> bool \<times> read_state" where
  "note_contact_read b mark ticked s =
     (let current = read_get b s in
      if mark \<le> rm_contact_read_mark current then (False, s)
      else (True, kt_upsert rm_bridge_name
        ((no_marks b)\<lparr>rm_contact_read_mark := mark, rm_own_read_mark := rm_own_read_mark current,
                      rm_last_ticked_message_id := ticked\<rparr>)
        (\<lambda>r. r\<lparr>rm_contact_read_mark := mark, rm_last_ticked_message_id := ticked\<rparr>) s))"

definition note_own_read :: "string \<Rightarrow> int \<Rightarrow> read_state \<Rightarrow> bool \<times> read_state" where
  "note_own_read b mark s =
     (let current = read_get b s in
      if mark \<le> rm_own_read_mark current then (False, s)
      else (True, kt_upsert rm_bridge_name
        ((no_marks b)\<lparr>rm_contact_read_mark := rm_contact_read_mark current, rm_own_read_mark := mark,
                      rm_last_ticked_message_id := rm_last_ticked_message_id current\<rparr>)
        (\<lambda>r. r\<lparr>rm_own_read_mark := mark\<rparr>) s))"

lemma read_get_upsert:
  assumes "\<And>x. rm_bridge_name (f x) = rm_bridge_name x" "rm_bridge_name r = b" "f (no_marks b) = r"
  shows "read_get k (kt_upsert rm_bridge_name r f s) = (if k = b then f (read_get b s) else read_get k s)"
  using assms by (auto simp: read_get_def kt_get_upsert split: option.split)

lemma no_marks_simps [simp]: "rm_bridge_name (no_marks b) = b" "rm_contact_read_mark (no_marks b) = 0"
  "rm_own_read_mark (no_marks b) = 0"
  by (simp_all add: no_marks_def)

lemma read_get_name [simp]: "rm_bridge_name (read_get b s) = b"
  by (auto simp: read_get_def split: option.split dest: kt_get_Some)

text \<open>Every write changes its own columns of its own bridge and nothing else, whether the row exists or not.\<close>

lemma read_get_writes:
  "read_get k (note_delivered b at s) = (if k = b then (read_get b s)\<lparr>rm_delivered_at := at\<rparr> else read_get k s)"
  "read_get k (set_status_line b m t s)
     = (if k = b then (read_get b s)\<lparr>rm_status_message_id := m, rm_status_text := t\<rparr> else read_get k s)"
  "read_get k (snd (note_contact_read b mark ticked s)) =
     (if k = b \<and> rm_contact_read_mark (read_get b s) < mark
      then (read_get b s)\<lparr>rm_contact_read_mark := mark, rm_last_ticked_message_id := ticked\<rparr> else read_get k s)"
  "read_get k (snd (note_own_read b mark s)) =
     (if k = b \<and> rm_own_read_mark (read_get b s) < mark
      then (read_get b s)\<lparr>rm_own_read_mark := mark\<rparr> else read_get k s)"
proof -
  show "read_get k (note_delivered b at s) = (if k = b then (read_get b s)\<lparr>rm_delivered_at := at\<rparr> else read_get k s)"
    unfolding note_delivered_def by (rule read_get_upsert) simp_all
  show "read_get k (set_status_line b m t s)
     = (if k = b then (read_get b s)\<lparr>rm_status_message_id := m, rm_status_text := t\<rparr> else read_get k s)"
    unfolding set_status_line_def by (rule read_get_upsert) simp_all
  show "read_get k (snd (note_contact_read b mark ticked s)) =
     (if k = b \<and> rm_contact_read_mark (read_get b s) < mark
      then (read_get b s)\<lparr>rm_contact_read_mark := mark, rm_last_ticked_message_id := ticked\<rparr> else read_get k s)"
    by (auto simp: note_contact_read_def Let_def read_get_def kt_get_upsert no_marks_def split: option.split)
  show "read_get k (snd (note_own_read b mark s)) =
     (if k = b \<and> rm_own_read_mark (read_get b s) < mark
      then (read_get b s)\<lparr>rm_own_read_mark := mark\<rparr> else read_get k s)"
    by (auto simp: note_own_read_def Let_def read_get_def kt_get_upsert no_marks_def split: option.split)
qed

lemma note_read_moves:
  "fst (note_contact_read b mark ticked s) \<longleftrightarrow> rm_contact_read_mark (read_get b s) < mark"
  "fst (note_own_read b mark s) \<longleftrightarrow> rm_own_read_mark (read_get b s) < mark"
  by (auto simp: note_contact_read_def note_own_read_def Let_def)

interpretation contact_read: reporting_watermark
  "\<lambda>s. rm_contact_read_mark (read_get b s)" fst
  "\<lambda>(mark, ticked) s. snd (note_contact_read b mark ticked s)" "\<lambda>(mark, ticked) s. fst (note_contact_read b mark ticked s)" for b
  by unfold_locales (auto simp: read_get_writes note_read_moves)

interpretation own_read: reporting_watermark
  "\<lambda>s. rm_own_read_mark (read_get b s)" "\<lambda>v. v" "\<lambda>mark s. snd (note_own_read b mark s)" "\<lambda>mark s. fst (note_own_read b mark s)" for b
  by unfold_locales (auto simp: read_get_writes note_read_moves)

text \<open>A repeated or late read mark is not acted on. However often MAX repeats the contact's read marks
  and in whatever order, the mark kept is the newest one; a mark reported as new once is never reported
  as new again, so the tick under a message is drawn once; and the contact's mark and the owner's own
  mark never disturb each other.\<close>

theorem read_marks_only_rise:
  "rm_contact_read_mark (read_get b (fold (\<lambda>(m, t) s. snd (note_contact_read b m t s)) ms s))
      = Max (insert (rm_contact_read_mark (read_get b s)) (fst ` set ms))
   \<and> rm_own_read_mark (read_get b (fold (\<lambda>(m, t) s. snd (note_contact_read b m t s)) ms s)) = rm_own_read_mark (read_get b s)
   \<and> \<not> (fst (note_contact_read b m t s)
        \<and> fst (note_contact_read b m t' (fold (\<lambda>(m, t) s. snd (note_contact_read b m t s)) ms (snd (note_contact_read b m t s)))))"
proof -
  have "rm_own_read_mark (read_get b (fold (\<lambda>(m, t) s. snd (note_contact_read b m t s)) ms s)) = rm_own_read_mark (read_get b s)"
    by (induction ms arbitrary: s) (auto simp: read_get_writes)
  moreover have "fst (note_contact_read b m t s) \<Longrightarrow> \<not> fst (note_contact_read b m t'
      (fold (\<lambda>(m, t) s. snd (note_contact_read b m t s)) ms (snd (note_contact_read b m t s))))"
    using contact_read.moves_once[where v = "(m, t)" and s = s and vs = ms and b = b] by (simp add: note_read_moves)
  moreover note contact_read.advances_max[where vs = ms and s = s and b = b]
  ultimately show ?thesis by blast
qed

subsection \<open>Reactions, forwards, stickers\<close>

type_synonym reaction_state = "reaction_snapshot list"

abbreviation reaction_key :: "reaction_snapshot \<Rightarrow> int \<times> int" where
  "reaction_key r \<equiv> (rs_max_chat_id r, rs_max_message_id r)"

definition reaction_get :: "int \<Rightarrow> int \<Rightarrow> reaction_state \<Rightarrow> reaction_snapshot option" where
  "reaction_get chat msg = kt_get reaction_key (chat, msg)"

definition reaction_put :: "reaction_snapshot \<Rightarrow> reaction_state \<Rightarrow> reaction_state" where
  "reaction_put n = kt_upsert reaction_key n
     (\<lambda>r. r\<lparr>rs_counters := rs_counters n, rs_your_reaction := rs_your_reaction n\<rparr>)"

record forward_author =
  fa_peer_id :: int
  fa_name :: string
  fa_username :: "string option"

definition strip :: "string \<Rightarrow> string" where
  "strip s = rev (dropWhile (\<lambda>c. isspace (of_char c)) (rev (dropWhile (\<lambda>c. isspace (of_char c)) s)))"

definition author_remember :: "int \<Rightarrow> string \<Rightarrow> string option \<Rightarrow> forward_author list \<Rightarrow> forward_author list" where
  "author_remember peer name username s =
     (let cleaned = strip name in
      if cleaned = [] then s
      else kt_upsert fa_peer_id \<lparr>fa_peer_id = peer, fa_name = cleaned, fa_username = username\<rparr>
             (\<lambda>r. r\<lparr>fa_name := cleaned, fa_username := username\<rparr>) s)"

definition author_of :: "int \<Rightarrow> forward_author list \<Rightarrow> (string \<times> string option) option" where
  "author_of peer s =
     (case kt_get fa_peer_id peer s of
        None \<Rightarrow> None
      | Some r \<Rightarrow> Some (fa_name r, case fa_username r of Some u \<Rightarrow> if u = [] then None else Some u | None \<Rightarrow> None))"

text \<open>The two sticker tables have the same shape: a hash of a file and the MAX sticker it is.\<close>

record sticker_row =
  sk_sha256 :: string
  sk_max_sticker_id :: int
  sk_created_at :: int

definition sticker_get :: "string \<Rightarrow> sticker_row list \<Rightarrow> int option" where
  "sticker_get h s = map_option sk_max_sticker_id (kt_get sk_sha256 h s)"

definition sticker_put :: "int \<Rightarrow> string \<Rightarrow> int \<Rightarrow> sticker_row list \<Rightarrow> sticker_row list" where
  "sticker_put now h i = kt_upsert sk_sha256 \<lparr>sk_sha256 = h, sk_max_sticker_id = i, sk_created_at = now\<rparr>
     (\<lambda>r. r\<lparr>sk_max_sticker_id := i\<rparr>)"

definition sticker_origin_get :: "string \<Rightarrow> sticker_row list \<Rightarrow> int option" where
  "sticker_origin_get = sticker_get"

definition sticker_origin_put :: "int \<Rightarrow> string \<Rightarrow> int \<Rightarrow> sticker_row list \<Rightarrow> sticker_row list" where
  "sticker_origin_put = sticker_put"

interpretation stickers: last_write sticker_get "sticker_put now" for now
  by unfold_locales (auto simp: sticker_get_def sticker_put_def kt_get_upsert split: option.split)

interpretation reactions: last_write "\<lambda>(c, m) s. map_option (\<lambda>r. (rs_counters r, rs_your_reaction r)) (reaction_get c m s)"
  "\<lambda>(c, m) (v, y). reaction_put \<lparr>rs_max_chat_id = c, rs_max_message_id = m, rs_counters = v, rs_your_reaction = y\<rparr>"
  by unfold_locales (auto simp: reaction_get_def reaction_put_def kt_get_upsert split: option.split if_splits)

lemma author_of_remember:
  "author_of p' (author_remember p n u s) =
     (if p' = p \<and> strip n \<noteq> [] then Some (strip n, case u of Some u \<Rightarrow> if u = [] then None else Some u | None \<Rightarrow> None)
      else author_of p' s)"
  by (auto simp: author_of_def author_remember_def Let_def kt_get_upsert split: option.split)

subsection \<open>People without a bridge\<close>

record pending =
  contacts :: "pending_contact list"
  held :: "buffered_message tbl"

definition no_pending :: pending where
  "no_pending = \<lparr>contacts = [], held = empty_tbl\<rparr>"

definition on_contact :: "int \<Rightarrow> (pending_contact \<Rightarrow> pending_contact) \<Rightarrow> pending \<Rightarrow> pending" where
  "on_contact chat f s = s\<lparr>contacts := kt_update (\<lambda>r. pc_max_chat_id r = chat) f (contacts s)\<rparr>"

definition contact_get :: "int \<Rightarrow> pending \<Rightarrow> (pending_contact \<times> int) option" where
  "contact_get chat s =
     map_option (\<lambda>r. (r, tbl_count (\<lambda>m. bm_max_chat_id m = chat) (held s))) (kt_get pc_max_chat_id chat (contacts s))"

definition keep_new :: "'a option \<Rightarrow> 'a option \<Rightarrow> 'a option" where
  "keep_new new old = (case new of None \<Rightarrow> old | Some v \<Rightarrow> Some v)"

definition note_seen :: "int \<Rightarrow> int \<Rightarrow> int option \<Rightarrow> string option \<Rightarrow> pending \<Rightarrow> pending" where
  "note_seen now chat user name s =
     s\<lparr>contacts := kt_upsert pc_max_chat_id
         \<lparr>pc_max_chat_id = chat, pc_max_user_id = user, pc_display_name = name, pc_state = NEW,
          pc_first_seen_at = now, pc_asked_at = None\<rparr>
         (\<lambda>r. r\<lparr>pc_max_user_id := keep_new user (pc_max_user_id r),
                pc_display_name := keep_new name (pc_display_name r)\<rparr>) (contacts s)\<rparr>"

definition set_contact_state :: "int \<Rightarrow> int \<Rightarrow> pending_contact_state \<Rightarrow> pending \<Rightarrow> pending" where
  "set_contact_state now chat st =
     on_contact chat (\<lambda>r. r\<lparr>pc_state := st,
       pc_asked_at := keep_new (if st = ASKED then Some now else None) (pc_asked_at r)\<rparr>)"

definition ask :: "int \<Rightarrow> pending_contact \<Rightarrow> pending_contact" where
  "ask now r = r\<lparr>pc_state := ASKED,
     pc_asked_at := Some (max now ((case pc_asked_at r of None \<Rightarrow> 0 | Some a \<Rightarrow> a) + 1))\<rparr>"

definition note_asked :: "int \<Rightarrow> int \<Rightarrow> pending \<Rightarrow> int \<times> pending" where
  "note_asked now chat s =
     (let s' = on_contact chat (ask now) s
      in (case contact_get chat s' of
            None \<Rightarrow> 0
          | Some (r, _) \<Rightarrow> (case pc_asked_at r of None \<Rightarrow> 0 | Some a \<Rightarrow> a), s'))"

definition asked_with :: "int \<Rightarrow> int \<Rightarrow> pending_contact \<Rightarrow> bool" where
  "asked_with chat revision r \<longleftrightarrow> pc_max_chat_id r = chat \<and> pc_asked_at r = Some revision"

definition consume_announcement :: "int \<Rightarrow> int \<Rightarrow> int \<Rightarrow> pending \<Rightarrow> bool \<times> pending" where
  "consume_announcement now chat revision s =
     (length (filter (asked_with chat revision) (contacts s)) = 1,
      s\<lparr>contacts := kt_update (asked_with chat revision)
          (\<lambda>r. r\<lparr>pc_asked_at := map_option (\<lambda>a. max now (a + 1)) (pc_asked_at r)\<rparr>) (contacts s)\<rparr>)"

definition buffer_message :: "int \<Rightarrow> int \<Rightarrow> json \<Rightarrow> int \<Rightarrow> pending \<Rightarrow> bool \<times> pending" where
  "buffer_message now chat payload cap s =
     (if tbl_count (\<lambda>m. bm_max_chat_id m = chat) (held s) \<ge> cap then (False, s)
      else (True, s\<lparr>held := snd (tbl_insert
        (\<lambda>i. \<lparr>bm_id = i, bm_max_chat_id = chat, bm_payload = payload, bm_created_at = now\<rparr>) (held s))\<rparr>))"

definition drain :: "int \<Rightarrow> pending \<Rightarrow> json list \<times> pending" where
  "drain chat s =
     (map bm_payload (sort_key bm_id (tbl_select (\<lambda>m. bm_max_chat_id m = chat) (held s))),
      s\<lparr>held := tbl_delete (\<lambda>m. bm_max_chat_id m = chat) (held s)\<rparr>)"

definition count_in_state :: "pending_contact_state \<Rightarrow> pending \<Rightarrow> int" where
  "count_in_state st s = int (length (filter (\<lambda>r. pc_state r = st) (contacts s)))"

definition expire_buffered :: "int \<Rightarrow> int \<Rightarrow> pending \<Rightarrow> int \<times> pending" where
  "expire_buffered now older s =
     (let old = (\<lambda>m. bm_created_at m < now - older)
      in (tbl_count old (held s), s\<lparr>held := tbl_delete old (held s)\<rparr>))"

subsection \<open>One question, one answer\<close>

definition pending_ok :: "pending \<Rightarrow> bool" where
  "pending_ok s \<longleftrightarrow> kt_ok pc_max_chat_id (contacts s) \<and> tbl_ok bm_id (\<lambda>_ _. False) (held s)"

datatype pending_call =
    P_seen int "int option" "string option"
  | P_state int pending_contact_state
  | P_asked int
  | P_consume int int
  | P_buffer int json int
  | P_drain int
  | P_expire int

fun pending_exec :: "int \<Rightarrow> pending_call \<Rightarrow> pending \<Rightarrow> pending" where
  "pending_exec now (P_seen c u n) s = note_seen now c u n s"
| "pending_exec now (P_state c st) s = set_contact_state now c st s"
| "pending_exec now (P_asked c) s = snd (note_asked now c s)"
| "pending_exec now (P_consume c r) s = snd (consume_announcement now c r s)"
| "pending_exec now (P_buffer c p cap) s = snd (buffer_message now c p cap s)"
| "pending_exec now (P_drain c) s = snd (drain c s)"
| "pending_exec now (P_expire older) s = snd (expire_buffered now older s)"

fun pending_run :: "(int \<times> pending_call) list \<Rightarrow> pending \<Rightarrow> pending" where
  "pending_run [] s = s"
| "pending_run ((now, c) # cs) s = pending_run cs (pending_exec now c s)"

lemmas contact_writes = note_seen_def set_contact_state_def on_contact_def note_asked_def ask_def
  consume_announcement_def asked_with_def buffer_message_def drain_def expire_buffered_def Let_def

lemma pending_ok_empty [simp]: "pending_ok no_pending"
  by (simp add: pending_ok_def no_pending_def)

lemma pending_ok_exec: "pending_ok s \<Longrightarrow> pending_ok (pending_exec now c s)"
  by (cases c)
    (auto simp: pending_ok_def contact_writes tbl_ok_delete intro!: kt_ok_upsert kt_ok_update tbl_ok_insert)

text \<open>The revision a contact's last question carries.\<close>

definition revision :: "int \<Rightarrow> pending \<Rightarrow> int option" where
  "revision chat s = Option.bind (kt_get pc_max_chat_id chat (contacts s)) pc_asked_at"

fun reasks :: "int \<Rightarrow> pending_call \<Rightarrow> bool" where
  "reasks chat (P_state c st) = (c = chat \<and> st = ASKED)"
| "reasks chat c = False"

lemma revision_rises:
  assumes "revision chat s = Some a" "\<not> reasks chat c"
  shows "\<exists>a'. revision chat (pending_exec now c s) = Some a' \<and> a \<le> a'"
proof -
  obtain r where r: "kt_get pc_max_chat_id chat (contacts s) = Some r" "pc_asked_at r = Some a"
    using assms(1) by (auto simp: revision_def bind_eq_Some_conv)
  have "pc_max_chat_id r = chat" using kt_get_Some[OF r(1)] by simp
  then show ?thesis using r assms(2)
    by (cases c) (auto simp: revision_def contact_writes kt_get_update kt_get_upsert keep_new_def)
qed

lemma revision_rises_run:
  assumes "revision chat s = Some a" "\<forall>(t, c)\<in>set cs. \<not> reasks chat c"
  shows "\<exists>a'. revision chat (pending_run cs s) = Some a' \<and> a \<le> a'"
  using assms
proof (induction cs arbitrary: s a)
  case (Cons x cs)
  obtain t c where x: "x = (t, c)" by (cases x)
  obtain a1 where a1: "revision chat (pending_exec t c s) = Some a1" "a \<le> a1"
    using revision_rises[OF Cons.prems(1), of c t] Cons.prems(2) by (auto simp: x)
  then show ?case using Cons.IH[OF a1(1)] Cons.prems(2) by (fastforce simp: x)
qed auto

lemma pending_ok_run: "pending_ok s \<Longrightarrow> pending_ok (pending_run cs s)"
  by (induction cs s rule: pending_run.induct) (simp_all add: pending_ok_exec)

lemma consume_iff:
  assumes "pending_ok s"
  shows "fst (consume_announcement now chat r s) \<longleftrightarrow> revision chat s = Some r"
proof -
  have "filter (asked_with chat r) cs = (case kt_get pc_max_chat_id chat cs of
      Some x \<Rightarrow> if pc_asked_at x = Some r then [x] else [] | None \<Rightarrow> [])" if "kt_ok pc_max_chat_id cs" for cs
    using that
  proof (induction cs)
    case (Cons x cs)
    have "filter (asked_with chat r) cs = []" if "pc_max_chat_id x = chat"
      using that Cons.prems by (auto simp: kt_ok_def asked_with_def filter_empty_conv) (metis image_eqI)
    moreover have "asked_with chat r x \<longleftrightarrow> pc_max_chat_id x = chat \<and> pc_asked_at x = Some r" by (simp add: asked_with_def)
    ultimately show ?case using Cons
      by (cases "pc_max_chat_id x = chat") (simp_all add: kt_ok_def kt_get_def)
  qed (simp add: kt_get_def)
  then show ?thesis using assms
    by (auto simp: consume_announcement_def pending_ok_def revision_def split: option.splits)
qed

text \<open>A question put to the owner is answered once. An answer is accepted exactly if it names the
  revision of the contact's latest question; once accepted, no sequence of later calls - new questions
  in the same millisecond included - lets the same button, or an older one, be accepted again; and a
  new question always carries a higher revision than every one before it. (Setting the state ASKED
  directly, which no caller does, is the one call left out.)\<close>

theorem question_answered_once:
  assumes "pending_ok s" "fst (consume_announcement now chat r s)" "\<forall>(t, c)\<in>set cs. \<not> reasks chat c" "r' \<le> r"
  shows "revision chat s = Some r
    \<and> \<not> fst (consume_announcement now' chat r' (pending_run cs (snd (consume_announcement now chat r s))))
    \<and> fst (note_asked t chat (pending_run cs (snd (consume_announcement now chat r s)))) > r"
proof -
  let ?s = "snd (consume_announcement now chat r s)"
  have rev: "revision chat s = Some r" using assms(1,2) consume_iff by blast
  then obtain y where y: "kt_get pc_max_chat_id chat (contacts s) = Some y" "pc_asked_at y = Some r"
    by (auto simp: revision_def bind_eq_Some_conv)
  then have "revision chat ?s = Some (max now (r + 1))"
    using kt_get_Some[OF y(1)] by (simp add: revision_def consume_announcement_def asked_with_def kt_get_update)
  then obtain a where a: "revision chat (pending_run cs ?s) = Some a" "r < a"
    using revision_rises_run[OF _ assms(3)] by fastforce
  have ok: "pending_ok (pending_run cs ?s)"
    using pending_ok_run[OF pending_ok_exec[OF assms(1), of now "P_consume chat r"]] by simp
  obtain x where x: "kt_get pc_max_chat_id chat (contacts (pending_run cs ?s)) = Some x" "pc_asked_at x = Some a"
    using a(1) by (auto simp: revision_def bind_eq_Some_conv)
  have "fst (note_asked t chat (pending_run cs ?s)) > r"
    using x a(2) kt_get_Some[OF x(1)]
    by (simp add: note_asked_def Let_def on_contact_def contact_get_def kt_get_update ask_def)
  then show ?thesis using rev a assms(4) consume_iff[OF ok] by auto
qed

theorem question_answered_once_witness:
  "let s = snd (note_asked 5 7 (note_seen 1 7 None None no_pending)); s1 = snd (consume_announcement 6 7 5 s)
   in fst (consume_announcement 6 7 5 s) \<and> \<not> fst (consume_announcement 9 7 5 (pending_run [(8, P_asked 7)] s1))"
proof -
  let ?s = "snd (note_asked 5 7 (note_seen 1 7 None None no_pending))"
  have ok: "pending_ok ?s"
    using pending_ok_exec[of "note_seen 1 7 None None no_pending" 5 "P_asked 7"] pending_ok_exec[of no_pending 1 "P_seen 7 None None"]
    by simp
  have c: "fst (consume_announcement 6 7 5 ?s)" "\<forall>(t, c)\<in>set [(8, P_asked 7)]. \<not> reasks 7 c" "(5::int) \<le> 5" by code_simp+
  show ?thesis using question_answered_once[OF ok c, of 9 0] c(1) by (simp only: Let_def) blast
qed

subsection \<open>Held messages\<close>

definition held_for :: "int \<Rightarrow> pending \<Rightarrow> json list" where
  "held_for chat s = map bm_payload (filter (\<lambda>m. bm_max_chat_id m = chat) (rows (held s)))"

fun buffer_all :: "(int \<times> int \<times> json) list \<Rightarrow> int \<Rightarrow> pending \<Rightarrow> pending" where
  "buffer_all [] cap s = s"
| "buffer_all ((now, chat, p) # ms) cap s = buffer_all ms cap (snd (buffer_message now chat p cap s))"

lemma held_buffer:
  "held_for chat (snd (buffer_message now c p cap s)) =
     (if c = chat \<and> int (length (held_for chat s)) < cap then held_for chat s @ [p] else held_for chat s)"
  by (auto simp: held_for_def buffer_message_def tbl_count_def tbl_insert_def)

lemma held_buffer_all:
  assumes "length (held_for chat s) \<le> nat cap"
  shows "held_for chat (buffer_all ms cap s) = take (nat cap) (held_for chat s @ map (snd \<circ> snd) (filter (\<lambda>m. fst (snd m) = chat) ms))"
  using assms
proof (induction ms cap s rule: buffer_all.induct)
  case (2 now c p ms cap s)
  let ?h = "held_for chat s"
  have "length (held_for chat (snd (buffer_message now c p cap s))) \<le> nat cap"
    using "2.prems" by (auto simp: held_buffer)
  from "2.IH"[OF this] show ?case
    using "2.prems" by (cases "length ?h < nat cap") (auto simp: held_buffer take_Cons')
qed simp

lemma drain_held:
  assumes "pending_ok s"
  shows "drain chat s = (held_for chat s, s\<lparr>held := tbl_delete (\<lambda>m. bm_max_chat_id m = chat) (held s)\<rparr>)"
proof -
  have "sort_key bm_id (filter (\<lambda>m. bm_max_chat_id m = chat) (rows (held s))) = filter (\<lambda>m. bm_max_chat_id m = chat) (rows (held s))"
    using assms sort_key_id[of bm_id "\<lambda>_ _. False" "held s"] by (simp add: pending_ok_def tbl_select_def)
  then show ?thesis by (simp add: drain_def held_for_def tbl_select_def)
qed

lemma held_drained: "pending_ok s \<Longrightarrow> held_for c (snd (drain chat s)) = (if c = chat then [] else held_for c s)"
  by (auto simp: drain_held held_for_def tbl_delete_def intro: arg_cong[where f = "map bm_payload"] filter_cong)

text \<open>What a stranger writes before there is a bridge is replayed in order, once, and cannot fill the
  disk. Of the messages that arrive, whoever else writes in between, the first \<open>cap\<close> of a chat are
  held and no more; draining the chat hands them over in arrival order and empties it, so a second
  drain has nothing to replay; and other chats keep theirs.\<close>

theorem stranger_replayed_in_order:
  assumes "pending_ok s" "held_for chat s = []"
  shows "fst (drain chat (buffer_all ms cap s)) = take (nat cap) (map (snd \<circ> snd) (filter (\<lambda>m. fst (snd m) = chat) ms))
    \<and> fst (drain chat (snd (drain chat (buffer_all ms cap s)))) = []
    \<and> (c \<noteq> chat \<longrightarrow> held_for c (snd (drain chat (buffer_all ms cap s))) = held_for c (buffer_all ms cap s))"
proof -
  have ok: "pending_ok (buffer_all ms cap s)" using assms(1)
  proof (induction ms cap s rule: buffer_all.induct)
    case (2 now c p ms cap s)
    then show ?case using pending_ok_exec[of s now "P_buffer c p cap"] by simp
  qed simp
  have ok': "pending_ok (snd (drain chat (buffer_all ms cap s)))" using pending_ok_exec[OF ok, of now "P_drain chat"] by simp
  show ?thesis using held_buffer_all[of chat s cap ms] assms(2)
    by (simp add: drain_held[OF ok'] held_drained[OF ok]) (simp add: drain_held[OF ok])
qed

end
