(* ===== verification/Owner_Inbox.thy ===== *)
theory Owner_Inbox
  imports Schema Interfaces Keyed_Tables "HOL-Library.Option_ord" "HOL-Library.Product_Lexorder"
begin

section \<open>What the owner did, written down before anything is derived from it\<close>

text \<open>
  \<open>OwnerMessageStateRepository\<close> and \<open>OwnerUpdateInboxRepository\<close> of \<open>storage/repositories.py\<close>: the last
  confirmed state of each owner message, which moves forward by \<open>pts\<close> only, and the durable inbox of
  owner updates, whose rows are claimed under a lease, reopened, buried or accounted for. The id of a
  row is its whole key. SQLite leaves the order of rows with equal \<open>next_attempt_at\<close> and
  \<open>created_at\<close> open; the model keeps insertion order.
\<close>

subsection \<open>owner_message_state\<close>

type_synonym owner_states = "owner_message_state list"

abbreviation os_key :: "owner_message_state \<Rightarrow> int \<times> int \<times> int" where
  "os_key r \<equiv> (os_account_id r, os_bot_id r, os_message_id r)"

definition state_get :: "int \<times> int \<times> int \<Rightarrow> owner_states \<Rightarrow> owner_message_state option" where
  "state_get k = kt_get os_key k"

definition state_row :: "int \<Rightarrow> int \<times> int \<times> int \<Rightarrow> string \<Rightarrow> chosen \<Rightarrow> int \<Rightarrow> owner_message_state" where
  "state_row now k fp chosen pts = (case k of (a, b, m) \<Rightarrow>
     \<lparr>os_account_id = a, os_bot_id = b, os_message_id = m, os_content_fingerprint = fp, os_chosen = chosen,
      os_pts = pts, os_updated_at = now\<rparr>)"

definition advance :: "int \<Rightarrow> int \<times> int \<times> int \<Rightarrow> string \<Rightarrow> chosen \<Rightarrow> int \<Rightarrow> owner_states \<Rightarrow> bool \<times> owner_states" where
  "advance now k fp chosen pts s =
     (case state_get k s of
        None \<Rightarrow> (True, s @ [state_row now k fp chosen pts])
      | Some r \<Rightarrow>
          if pts > os_pts r
          then (True, kt_update (\<lambda>x. os_key x = k)
                 (\<lambda>x. x\<lparr>os_content_fingerprint := fp, os_chosen := chosen, os_pts := pts, os_updated_at := now\<rparr>) s)
          else (False, s))"

definition seed :: "int \<Rightarrow> int \<times> int \<times> int \<Rightarrow> string \<Rightarrow> chosen \<Rightarrow> owner_states \<Rightarrow> bool \<times> owner_states" where
  "seed now k fp chosen s =
     (if kt_has os_key k s then (False, s) else (True, s @ [state_row now k fp chosen 0]))"

definition state_count :: "owner_states \<Rightarrow> int" where
  "state_count s = int (length s)"

lemma state_row_simps [simp]: "os_key (state_row now k fp c p) = k" "os_pts (state_row now k fp c p) = p"
  "os_content_fingerprint (state_row now k fp c p) = fp" "os_chosen (state_row now k fp c p) = c"
  by (cases k; simp add: state_row_def)+

lemma state_get_advance:
  "state_get k (snd (advance now k' fp c p s)) =
     (if k = k' \<and> (case state_get k s of None \<Rightarrow> True | Some r \<Rightarrow> os_pts r < p)
      then Some (case state_get k s of None \<Rightarrow> state_row now k fp c p
        | Some r \<Rightarrow> r\<lparr>os_content_fingerprint := fp, os_chosen := c, os_pts := p, os_updated_at := now\<rparr>)
      else state_get k s)"
proof (cases "state_get k' s")
  case None
  then show ?thesis by (auto simp: advance_def state_get_def kt_get_append split: option.split)
next
  case (Some r)
  have other: "os_key x \<noteq> k'" if "kt_get os_key k s = Some x" "k \<noteq> k'" for x
    using kt_get_Some[OF that(1), THEN conjunct2] that(2) by metis
  have same: "os_key r = k'" using kt_get_Some[OF Some[unfolded state_get_def]] by (rule conjunct2)
  show ?thesis
  proof (cases "k = k'")
    case True
    then show ?thesis using Some same by (simp add: advance_def state_get_def kt_get_update)
  next
    case False
    then show ?thesis using Some other[OF _ False]
      by (cases "kt_get os_key k s") (simp_all add: advance_def state_get_def kt_get_update)
  qed
qed

definition pts_of :: "int \<times> int \<times> int \<Rightarrow> owner_states \<Rightarrow> int option" where
  "pts_of k s = map_option os_pts (state_get k s)"

interpretation owner_pts: reporting_watermark "pts_of k" "\<lambda>(fp, c, p). Some p"
  "\<lambda>(fp, c, p) s. snd (advance now k fp c p s)" "\<lambda>(fp, c, p) s. fst (advance now k fp c p s)" for k now
proof (unfold_locales, goal_cases)
  case (1 v s)
  then show ?case by (cases v) (auto simp: pts_of_def state_get_advance max_def split: option.splits)
next
  case (2 v s)
  then show ?case by (cases v) (auto simp: pts_of_def advance_def split: option.splits)
qed

text \<open>The last confirmed version of an owner message is the newest one. Whatever order live updates
  of one message arrive in, replays included, the row ends at the highest \<open>pts\<close>; an update is reported
  as new exactly if it is newer than what is stored; the fetch that seeds a baseline never moves a row
  that is there.\<close>

theorem newest_version_wins:
  "pts_of k (fold (\<lambda>(fp, c, p) s. snd (advance now k fp c p s)) us s)
     = Max (insert (pts_of k s) ((\<lambda>(fp, c, p). Some p) ` set us))
   \<and> (fst (advance now k fp c p s) \<longleftrightarrow> pts_of k s < Some p)
   \<and> (pts_of k s \<noteq> None \<longrightarrow> seed now k fp' c' s = (False, s))"
  using owner_pts.advances_max[where k = k and now = now and vs = us and s = s]
    owner_pts.moves_iff[where k = k and now = now and v = "(fp, c, p)" and s = s]
  by (auto simp: seed_def pts_of_def state_get_def kt_get_has)

subsection \<open>owner_update_inbox\<close>

type_synonym owner_inbox = "owner_update list"

definition ou_due :: "int \<Rightarrow> owner_update \<Rightarrow> bool" where
  "ou_due now r \<longleftrightarrow> (ou_state r = OPEN \<and> ou_next_attempt_at r \<le> now)
     \<or> (ou_state r = CLAIMED \<and> (case ou_lease_expires_at r of None \<Rightarrow> False | Some e \<Rightarrow> e \<le> now))"

definition new_owner_update ::
  "int \<Rightarrow> inbox_key \<Rightarrow> string option \<Rightarrow> string option \<Rightarrow> chosen option \<Rightarrow> owner_update" where
  "new_owner_update now k t fp chosen =
     \<lparr>ou_key = k, ou_content_text = t, ou_content_fingerprint = fp, ou_chosen = chosen, ou_state = OPEN,
      ou_attempts = 0, ou_next_attempt_at = now, ou_lease_expires_at = None, ou_last_error = None,
      ou_created_at = now, ou_updated_at = now, ou_accounted_at = None\<rparr>"

definition remember ::
  "int \<Rightarrow> inbox_key \<Rightarrow> string option \<Rightarrow> string option \<Rightarrow> chosen option \<Rightarrow> owner_inbox \<Rightarrow> bool \<times> owner_inbox" where
  "remember now k t fp chosen ib =
     (if kt_has ou_key k ib then (False, ib) else (True, ib @ [new_owner_update now k t fp chosen]))"

fun remember_many :: "int \<Rightarrow> inbox_key list \<Rightarrow> owner_inbox \<Rightarrow> int \<times> owner_inbox" where
  "remember_many now [] ib = (0, ib)"
| "remember_many now (k # ks) ib =
     (let (new, ib1) = remember now k None None None ib; (n, ib2) = remember_many now ks ib1
      in ((if new then 1 else 0) + n, ib2))"

definition smallest :: "int list \<Rightarrow> int option" where
  "smallest xs = (case xs of [] \<Rightarrow> None | y # ys \<Rightarrow> Some (fold min ys y))"

definition next_due_ms :: "owner_inbox \<Rightarrow> int option" where
  "next_due_ms ib = smallest (map ou_next_attempt_at (filter (\<lambda>r. ou_state r = OPEN) ib)
     @ map (\<lambda>r. the (ou_lease_expires_at r)) (filter (\<lambda>r. ou_state r = CLAIMED \<and> ou_lease_expires_at r \<noteq> None) ib))"

definition owner_claim_due :: "int \<Rightarrow> nat \<Rightarrow> int \<Rightarrow> owner_inbox \<Rightarrow> owner_update list \<times> owner_inbox" where
  "owner_claim_due now n lease ib =
     (let got = take n (sort_key (\<lambda>r. (ou_next_attempt_at r, ou_created_at r)) (filter (ou_due now) ib))
      in (got, kt_update (\<lambda>r. ou_key r \<in> ou_key ` set got)
            (\<lambda>r. r\<lparr>ou_state := CLAIMED, ou_lease_expires_at := Some (now + lease), ou_updated_at := now\<rparr>) ib))"

definition on_update :: "inbox_key \<Rightarrow> (owner_update_state \<Rightarrow> bool) \<Rightarrow> (owner_update \<Rightarrow> owner_update) \<Rightarrow> owner_inbox \<Rightarrow> owner_inbox" where
  "on_update k st f = kt_update (\<lambda>r. ou_key r = k \<and> st (ou_state r)) f"

definition reopen :: "int \<Rightarrow> inbox_key \<Rightarrow> int \<Rightarrow> string \<Rightarrow> owner_inbox \<Rightarrow> owner_inbox" where
  "reopen now k delay error = on_update k (\<lambda>st. st \<noteq> ACCOUNTED)
     (\<lambda>r. r\<lparr>ou_state := OPEN, ou_attempts := ou_attempts r + 1, ou_lease_expires_at := None,
            ou_next_attempt_at := now + delay, ou_last_error := Some error, ou_updated_at := now\<rparr>)"

definition bury :: "int \<Rightarrow> inbox_key \<Rightarrow> string \<Rightarrow> owner_inbox \<Rightarrow> owner_inbox" where
  "bury now k error = on_update k (\<lambda>st. st \<noteq> ACCOUNTED)
     (\<lambda>r. r\<lparr>ou_state := DEAD, ou_attempts := ou_attempts r + 1, ou_lease_expires_at := None,
            ou_last_error := Some error, ou_updated_at := now\<rparr>)"

definition mark_accounted :: "int \<Rightarrow> inbox_key \<Rightarrow> owner_inbox \<Rightarrow> owner_inbox" where
  "mark_accounted now k = on_update k (\<lambda>_. True)
     (\<lambda>r. r\<lparr>ou_state := ACCOUNTED, ou_accounted_at := Some now, ou_updated_at := now, ou_content_text := None,
            ou_chosen := None, ou_lease_expires_at := None\<rparr>)"

definition drop_accounted :: "inbox_key \<Rightarrow> owner_inbox \<Rightarrow> owner_inbox" where
  "drop_accounted k = kt_delete (\<lambda>r. ou_key r = k \<and> ou_state r = ACCOUNTED)"

definition account :: "int \<Rightarrow> inbox_key \<Rightarrow> owner_inbox \<Rightarrow> owner_inbox" where
  "account now k ib = drop_accounted k (mark_accounted now k ib)"

definition sweep_accounted :: "owner_inbox \<Rightarrow> int \<times> owner_inbox" where
  "sweep_accounted ib = (int (length (filter (\<lambda>r. ou_state r = ACCOUNTED) ib)), kt_delete (\<lambda>r. ou_state r = ACCOUNTED) ib)"

definition update_counts :: "owner_inbox \<Rightarrow> (owner_update_state \<times> int) list" where
  "update_counts ib = map (\<lambda>st. (st, int (length (filter (\<lambda>r. ou_state r = st) ib)))) (remdups (map ou_state ib))"

definition oldest_open_ms :: "owner_inbox \<Rightarrow> int option" where
  "oldest_open_ms ib = smallest (map ou_created_at (filter (\<lambda>r. ou_state r \<in> {OPEN, CLAIMED}) ib))"

definition stuck :: "nat \<Rightarrow> owner_inbox \<Rightarrow> owner_update list" where
  "stuck n ib = take n (sort_key ou_created_at (filter (\<lambda>r. ou_state r = DEAD) ib))"

definition retry_dead :: "int \<Rightarrow> inbox_key \<Rightarrow> owner_inbox \<Rightarrow> bool \<times> owner_inbox" where
  "retry_dead now k ib =
     (list_ex (\<lambda>r. ou_key r = k \<and> ou_state r = DEAD) ib,
      on_update k (\<lambda>st. st = DEAD) (\<lambda>r. r\<lparr>ou_state := OPEN, ou_next_attempt_at := now, ou_lease_expires_at := None,
        ou_last_error := None, ou_updated_at := now\<rparr>) ib)"

definition archive_dead :: "inbox_key \<Rightarrow> owner_inbox \<Rightarrow> bool \<times> owner_inbox" where
  "archive_dead k ib =
     (list_ex (\<lambda>r. ou_key r = k \<and> ou_state r = DEAD) ib, kt_delete (\<lambda>r. ou_key r = k \<and> ou_state r = DEAD) ib)"

subsection \<open>Claims, and what keeps a row\<close>

definition owner_inbox_ok :: "owner_inbox \<Rightarrow> bool" where
  "owner_inbox_ok ib \<longleftrightarrow> kt_ok ou_key ib \<and> (\<forall>r\<in>set ib. ou_state r = CLAIMED \<longleftrightarrow> ou_lease_expires_at r \<noteq> None)"

lemma owner_inbox_ok_Nil [simp]: "owner_inbox_ok []"
  by (simp add: owner_inbox_ok_def)

lemma owner_inbox_ok_update:
  assumes "owner_inbox_ok ib" "\<And>r. ou_key (f r) = ou_key r"
    "\<And>r. r \<in> set ib \<Longrightarrow> P r \<Longrightarrow> ou_state (f r) = CLAIMED \<longleftrightarrow> ou_lease_expires_at (f r) \<noteq> None"
  shows "owner_inbox_ok (kt_update P f ib)"
  using assms kt_ok_update[of ou_key ib P f] by (auto simp: owner_inbox_ok_def kt_update_def)

lemma owner_inbox_ok_delete [inv_intro]: "owner_inbox_ok ib \<Longrightarrow> owner_inbox_ok (kt_delete P ib)"
  using kt_ok_delete[of ou_key ib P] by (auto simp: owner_inbox_ok_def kt_delete_def)

lemma owner_inbox_ok_remember [inv_intro]: "owner_inbox_ok ib \<Longrightarrow> owner_inbox_ok (snd (remember now k t fp c ib))"
  by (auto simp: remember_def owner_inbox_ok_def kt_ok_def kt_has_iff new_owner_update_def)

lemma owner_inbox_ok_remember_many [inv_intro]: "owner_inbox_ok ib \<Longrightarrow> owner_inbox_ok (snd (remember_many now ks ib))"
  by (induction ks arbitrary: ib) (simp_all add: case_prod_beta Let_def owner_inbox_ok_remember)

lemma owner_inbox_ok_claim [inv_intro]: "owner_inbox_ok ib \<Longrightarrow> owner_inbox_ok (snd (owner_claim_due now n l ib))"
  by (simp add: owner_claim_due_def Let_def owner_inbox_ok_update)

lemma owner_inbox_ok_marks [inv_intro]:
  assumes "owner_inbox_ok ib"
  shows "owner_inbox_ok (reopen now k d e ib)" "owner_inbox_ok (bury now k e ib)" "owner_inbox_ok (mark_accounted now k ib)"
    "owner_inbox_ok (account now k ib)" "owner_inbox_ok (snd (sweep_accounted ib))"
    "owner_inbox_ok (snd (retry_dead now k ib))" "owner_inbox_ok (snd (archive_dead k ib))"
  using assms unfolding account_def drop_accounted_def mark_accounted_def
  by (auto simp: reopen_def bury_def on_update_def sweep_accounted_def retry_dead_def archive_dead_def
      intro!: owner_inbox_ok_update owner_inbox_ok_delete)

lemma remember_has:
  "kt_has ou_key k' (snd (remember now k t fp c ib)) \<longleftrightarrow> kt_has ou_key k' ib \<or> k' = k"
  "fst (remember now k t fp c ib) \<longleftrightarrow> \<not> kt_has ou_key k ib"
  by (auto simp: remember_def kt_has_iff new_owner_update_def)

interpretation remembered: claim_once owner_inbox_ok "\<lambda>ib k. kt_has ou_key k ib" "\<lambda>k. remember now k t fp c" for now t fp c
  by unfold_locales (simp_all add: owner_inbox_ok_remember remember_has)

definition lease_updates :: "nat \<Rightarrow> int \<Rightarrow> int \<Rightarrow> owner_inbox \<Rightarrow> inbox_key list \<times> owner_inbox" where
  "lease_updates n l now ib = (map ou_key (fst (owner_claim_due now n l ib)), snd (owner_claim_due now n l ib))"

definition update_held :: "int \<Rightarrow> owner_inbox \<Rightarrow> inbox_key \<Rightarrow> bool" where
  "update_held t ib k \<longleftrightarrow> (\<exists>r\<in>set ib. ou_key r = k \<and> ou_state r = CLAIMED
     \<and> (case ou_lease_expires_at r of None \<Rightarrow> False | Some e \<Rightarrow> t < e))"

lemma lease_updates_row:
  assumes "k \<in> set (fst (lease_updates n l now ib))"
  shows "\<exists>r\<in>set ib. ou_key r = k \<and> ou_due now r"
  using assms by (auto simp: lease_updates_def owner_claim_due_def Let_def dest!: in_set_takeD)

lemma owner_key_unique: "owner_inbox_ok ib \<Longrightarrow> a \<in> set ib \<Longrightarrow> b \<in> set ib \<Longrightarrow> ou_key a = ou_key b \<Longrightarrow> a = b"
  by (auto simp: owner_inbox_ok_def kt_ok_def distinct_map inj_on_def)

lemma lease_updates_free:
  assumes "owner_inbox_ok ib" "k \<in> set (fst (lease_updates n l now ib))"
  shows "\<not> update_held now ib k"
proof
  assume "update_held now ib k"
  then obtain r where r: "r \<in> set ib" "ou_key r = k" "ou_state r = CLAIMED"
    and e: "case ou_lease_expires_at r of None \<Rightarrow> False | Some e \<Rightarrow> now < e" by (auto simp: update_held_def)
  obtain r' where "r' \<in> set ib" "ou_key r' = k" "ou_due now r'" using lease_updates_row[OF assms(2)] by blast
  then show False using owner_key_unique[OF assms(1) _ r(1)] r e by (auto simp: ou_due_def split: option.splits)
qed

lemma lease_updates_snd:
  "snd (lease_updates n l now ib) = kt_update (\<lambda>r. ou_key r \<in> set (fst (lease_updates n l now ib)))
     (\<lambda>r. r\<lparr>ou_state := CLAIMED, ou_lease_expires_at := Some (now + l), ou_updated_at := now\<rparr>) ib"
  by (simp add: lease_updates_def owner_claim_due_def Let_def)

interpretation owner_lease: leasing owner_inbox_ok update_held "lease_updates n l" l for n l
proof (unfold_locales, goal_cases)
  case (1 s now)
  then show ?case by (simp add: lease_updates_def owner_inbox_ok_claim)
next
  case (2 s now)
  then have "distinct (map ou_key (sort_key (\<lambda>r. (ou_next_attempt_at r, ou_created_at r)) (filter (ou_due now) s)))"
    by (simp add: owner_inbox_ok_def kt_ok_def distinct_map inj_on_def)
  then show ?case by (simp add: lease_updates_def owner_claim_due_def Let_def take_map[symmetric])
next
  case (3 s k now)
  then show ?case by (rule lease_updates_free)
next
  case (4 s k now t)
  then obtain r where r: "r \<in> set s" "ou_key r = k" using lease_updates_row by blast
  show ?case unfolding update_held_def lease_updates_snd kt_update_def
    using 4 r by (intro bexI[of _ "r\<lparr>ou_state := CLAIMED, ou_lease_expires_at := Some (now + l), ou_updated_at := now\<rparr>"]) (auto simp: image_iff)
next
  case (5 s t k now)
  then obtain r where r: "r \<in> set s" "ou_key r = k" "ou_state r = CLAIMED"
    "case ou_lease_expires_at r of None \<Rightarrow> False | Some e \<Rightarrow> t < e" by (auto simp: update_held_def)
  have "k \<notin> set (fst (lease_updates n l now s))" using 5 lease_updates_free by blast
  then show ?case unfolding update_held_def lease_updates_snd kt_update_def
    using r by (intro bexI[of _ r]) (auto simp: image_iff)
qed

subsection \<open>Sequences of calls\<close>

datatype owner_call =
    U_remember inbox_key "string option" "string option" "chosen option"
  | U_remember_many "inbox_key list"
  | U_claim nat int
  | U_reopen inbox_key int string
  | U_bury inbox_key string
  | U_account inbox_key
  | U_sweep
  | U_retry inbox_key
  | U_archive inbox_key

fun owner_exec :: "int \<Rightarrow> owner_call \<Rightarrow> owner_inbox \<Rightarrow> owner_inbox" where
  "owner_exec now (U_remember k t fp c) ib = snd (remember now k t fp c ib)"
| "owner_exec now (U_remember_many ks) ib = snd (remember_many now ks ib)"
| "owner_exec now (U_claim n l) ib = snd (owner_claim_due now n l ib)"
| "owner_exec now (U_reopen k d e) ib = reopen now k d e ib"
| "owner_exec now (U_bury k e) ib = bury now k e ib"
| "owner_exec now (U_account k) ib = account now k ib"
| "owner_exec now U_sweep ib = snd (sweep_accounted ib)"
| "owner_exec now (U_retry k) ib = snd (retry_dead now k ib)"
| "owner_exec now (U_archive k) ib = snd (archive_dead k ib)"

fun owner_run :: "(int \<times> owner_call) list \<Rightarrow> owner_inbox \<Rightarrow> owner_inbox" where
  "owner_run [] ib = ib"
| "owner_run ((now, c) # cs) ib = owner_run cs (owner_exec now c ib)"

fun settles :: "inbox_key \<Rightarrow> owner_call \<Rightarrow> bool" where
  "settles k (U_account k') = (k' = k)"
| "settles k (U_archive k') = (k' = k)"
| "settles k c = False"

lemma owner_inbox_ok_run: "owner_inbox_ok ib \<Longrightarrow> owner_inbox_ok (owner_run cs ib)"
proof (induction cs ib rule: owner_run.induct)
  case (2 now c cs ib)
  then show ?case by (cases c) (simp_all add: inv_intro)
qed simp

text \<open>An update that is waiting: written down with its content, and not finished.\<close>

definition unfinished :: "owner_inbox \<Rightarrow> inbox_key \<Rightarrow> string option \<Rightarrow> string option \<Rightarrow> chosen option \<Rightarrow> bool" where
  "unfinished ib k t fp c \<longleftrightarrow> (\<exists>r\<in>set ib. ou_key r = k \<and> ou_content_text r = t \<and> ou_content_fingerprint r = fp
     \<and> ou_chosen r = c \<and> ou_state r \<noteq> ACCOUNTED)"

lemma unfinished_update:
  assumes "unfinished ib k t fp c"
    and "\<And>r. ou_key r = k \<Longrightarrow> P r \<Longrightarrow> ou_key (f r) = k \<and> ou_content_text (f r) = ou_content_text r
       \<and> ou_content_fingerprint (f r) = ou_content_fingerprint r \<and> ou_chosen (f r) = ou_chosen r \<and> ou_state (f r) \<noteq> ACCOUNTED"
  shows "unfinished (kt_update P f ib) k t fp c"
proof -
  obtain r where r: "r \<in> set ib" "ou_key r = k" "ou_content_text r = t" "ou_content_fingerprint r = fp" "ou_chosen r = c"
    "ou_state r \<noteq> ACCOUNTED" using assms(1) by (auto simp: unfinished_def)
  have "(if P r then f r else r) \<in> set (kt_update P f ib)" using r(1) by (auto simp: kt_update_def)
  then show ?thesis unfolding unfinished_def using r assms(2)[of r]
    by (intro bexI[of _ "if P r then f r else r"]) auto
qed

lemma unfinished_delete:
  assumes "unfinished ib k t fp c" "\<And>r. ou_key r = k \<Longrightarrow> ou_state r \<noteq> ACCOUNTED \<Longrightarrow> \<not> P r"
  shows "unfinished (kt_delete P ib) k t fp c"
  using assms by (auto simp: unfinished_def kt_delete_def)

lemma unfinished_remember: "unfinished ib k t fp c \<Longrightarrow> unfinished (snd (remember now k' t' fp' c' ib)) k t fp c"
  by (auto simp: remember_def unfinished_def)

lemma unfinished_exec:
  assumes "unfinished ib k t fp c" "\<not> settles k call"
  shows "unfinished (owner_exec now call ib) k t fp c"
proof (cases call)
  case (U_remember_many ks)
  have "unfinished (snd (remember_many now ks ib)) k t fp c" using assms(1)
    by (induction ks arbitrary: ib) (simp_all add: case_prod_beta Let_def unfinished_remember)
  then show ?thesis using U_remember_many by simp
qed (use assms in \<open>auto simp: unfinished_remember owner_claim_due_def Let_def reopen_def bury_def on_update_def account_def
    drop_accounted_def mark_accounted_def sweep_accounted_def retry_dead_def archive_dead_def
    intro!: unfinished_update unfinished_delete\<close>)

lemma unfinished_run:
  "unfinished ib k t fp c \<Longrightarrow> \<forall>(n, call)\<in>set cs. \<not> settles k call \<Longrightarrow> unfinished (owner_run cs ib) k t fp c"
  by (induction cs ib rule: owner_run.induct) (auto simp: unfinished_exec)

text \<open>C25. What the owner did is not lost. An update once written down keeps its content until it is
  itself accounted for or archived by the owner's word: no replay of it, no claim, failure, other
  update's outcome or sweep removes or changes it; and it is never stuck out of sight - at any later
  moment it is either dead, which the owner is shown, or due as soon as its wait or its lease is over.\<close>

theorem owner_update_survives:
  assumes "owner_inbox_ok ib" "remember now k t fp c ib = (True, ib1)" "\<forall>(n, call)\<in>set cs. \<not> settles k call"
  shows "\<exists>r\<in>set (owner_run cs ib1). ou_key r = k \<and> ou_content_text r = t \<and> ou_content_fingerprint r = fp \<and> ou_chosen r = c
    \<and> (if ou_state r = DEAD then r \<in> set (stuck (length (owner_run cs ib1)) (owner_run cs ib1))
       else \<exists>wait. \<forall>later\<ge>wait. k \<in> set (fst (lease_updates (length (owner_run cs ib1)) l later (owner_run cs ib1))))"
proof -
  have e: "ib1 = snd (remember now k t fp c ib)" "fst (remember now k t fp c ib)" using assms(2) by simp_all
  have ok: "owner_inbox_ok (owner_run cs ib1)"
    unfolding e(1) by (rule owner_inbox_ok_run[OF owner_inbox_ok_remember[OF assms(1)]])
  have "unfinished ib1 k t fp c" using e by (auto simp: remember_def unfinished_def new_owner_update_def split: if_splits)
  then have "unfinished (owner_run cs ib1) k t fp c" using assms(3) by (rule unfinished_run)
  then obtain r where r: "r \<in> set (owner_run cs ib1)" "ou_key r = k" "ou_content_text r = t" "ou_content_fingerprint r = fp"
    "ou_chosen r = c" "ou_state r \<noteq> ACCOUNTED" by (auto simp: unfinished_def)
  have "r \<in> set (stuck (length (owner_run cs ib1)) (owner_run cs ib1))" if "ou_state r = DEAD"
    using r(1) that by (simp add: stuck_def)
  moreover have "\<exists>wait. \<forall>later\<ge>wait. k \<in> set (fst (lease_updates (length (owner_run cs ib1)) l later (owner_run cs ib1)))"
    if "ou_state r \<noteq> DEAD"
  proof -
    have "ou_state r = CLAIMED \<longleftrightarrow> ou_lease_expires_at r \<noteq> None" using ok r(1) by (simp add: owner_inbox_ok_def)
    then have "ou_due later r" if "later \<ge> max (ou_next_attempt_at r) (the (ou_lease_expires_at r))" for later
      using that r(6) \<open>ou_state r \<noteq> DEAD\<close> by (cases "ou_state r") (auto simp: ou_due_def)
    then have "k \<in> set (fst (lease_updates (length (owner_run cs ib1)) l later (owner_run cs ib1)))"
      if "later \<ge> max (ou_next_attempt_at r) (the (ou_lease_expires_at r))" for later
      using that r(1,2) by (force simp: lease_updates_def owner_claim_due_def Let_def)
    then show ?thesis by blast
  qed
  ultimately show ?thesis using r by (intro bexI[of _ r]) auto
qed

theorem owner_update_survives_witness:
  "let k = \<lparr>ik_account_id = 7, ik_bot_id = 9, ik_message_id = 100, ik_family = SNAPSHOT, ik_pts = 3\<rparr>;
       ib = owner_run [(2, U_claim 5 10), (3, U_reopen k 30 ''x''), (4, U_sweep)] (snd (remember 1 k (Some ''hi'') (Some ''f'') None []))
   in \<exists>r\<in>set ib. ou_key r = k \<and> ou_content_text r = Some ''hi''"
proof -
  let ?k = "\<lparr>ik_account_id = 7, ik_bot_id = 9, ik_message_id = 100, ik_family = SNAPSHOT, ik_pts = 3\<rparr>"
  have r: "remember 1 ?k (Some ''hi'') (Some ''f'') None [] = (True, snd (remember 1 ?k (Some ''hi'') (Some ''f'') None []))" by code_simp
  have n: "\<forall>(n, call)\<in>set [(2::int, U_claim 5 10), (3, U_reopen ?k 30 ''x''), (4, U_sweep)]. \<not> settles ?k call" by simp
  show ?thesis using owner_update_survives[OF owner_inbox_ok_Nil r n, of 0] by (simp only: Let_def) blast
qed

lemma account_leaves_nothing: "\<forall>r\<in>set (account now k ib). ou_key r \<noteq> k"
proof -
  have "ou_state r = ACCOUNTED" if m: "r \<in> set (mark_accounted now k ib)" "ou_key r = k" for r
  proof -
    obtain x where x: "r = (if ou_key x = k then x\<lparr>ou_state := ACCOUNTED, ou_accounted_at := Some now,
        ou_updated_at := now, ou_content_text := None, ou_chosen := None, ou_lease_expires_at := None\<rparr> else x)"
      using m(1) unfolding mark_accounted_def on_update_def kt_update_def set_map simp_thms by (rule imageE)
    then show ?thesis using m(2) by (cases "ou_key x = k") simp_all
  qed
  then show ?thesis by (simp add: account_def drop_accounted_def kt_delete_def) blast
qed

text \<open>Two drains never run the same update at once: within one lease period no key is handed out
  twice, whatever number of drains ask; a second sight of an update is written down only if the first
  is finished and gone; and once an update is accounted for, neither its row nor its text is left.\<close>

theorem owner_update_claimed_once:
  assumes "owner_inbox_ok ib" "sorted ts" "\<forall>t\<in>set ts. \<forall>t'\<in>set ts. t < t' + l"
  shows "distinct (fst (owner_lease.leases n l ts ib))
    \<and> remembered.grants now t fp c k ks ib = (if k \<in> set ks \<and> \<not> kt_has ou_key k ib then 1 else 0)
    \<and> (\<forall>r\<in>set (account now k ib). ou_key r \<noteq> k)"
  by (intro conjI owner_lease.handed_out_once[OF assms] remembered.grants_exact[OF assms(1)] account_leaves_nothing)

end
