(* ===== verification/Owner_Updates.thy ===== *)
theory Owner_Updates
  imports Owner_Inbox Message_Map Failures
begin

section \<open>One update, two independent questions\<close>

text \<open>
  \<open>routing/owner_updates.py\<close> and the snapshot it subtracts from, \<open>telegram/owner_snapshot.py\<close>. An update
  is written down, read against the last confirmed version of its message, and its two differences -
  the text, the representative reaction - are carried before that version moves. What the dispatcher
  calls outside itself (the \<open>Edits\<close>, \<open>Reactions\<close> and \<open>Mappings\<close> protocols) is a record of functions over
  an environment; each call may fail. The lock per message makes one reading a single step.
\<close>

subsection \<open>The owner's reactions\<close>

text \<open>One entry of a message's reaction results: its \<open>chosen_order\<close>, emoticon and document id.\<close>

type_synonym reaction_entry = "int option \<times> string \<times> int option"

fun pick :: "reaction_entry \<Rightarrow> (int \<times> reaction_kind \<times> string) option" where
  "pick (None, e, d) = None"
| "pick (Some n, e, d) =
     (if e \<noteq> [] then Some (n, EMOJI, e)
      else case d of Some i \<Rightarrow> Some (n, CUSTOM, show_int i) | None \<Rightarrow> None)"

definition chosen_of :: "reaction_entry list \<Rightarrow> chosen" where
  "chosen_of rs = map snd (sort_key fst (List.map_filter pick rs))"

definition representative :: "chosen \<Rightarrow> (reaction_kind \<times> string) option" where
  "representative c = (if c = [] then None else Some (last c))"

subsection \<open>The dispatcher\<close>

record dispatch_counts =
  dc_without_baseline :: int
  dc_unproven_edit :: int
  dc_unresolved_reaction :: int
  dc_custom_emoji :: int
  dc_resolved_reaction :: int
  dc_stale_update :: int
  dc_no_projection_change :: int

record 'e dispatch =
  ds_states :: owner_states
  ds_inbox :: "owner_inbox option"
  ds_counts :: dispatch_counts
  ds_env :: 'e

text \<open>An edit to carry (account, message, text, pts) and a reaction to show (bot, MAX chat and message,
  account, message, emoji, custom id, pts).\<close>

record owner_edit =
  oe_account :: int
  oe_message :: int
  oe_text :: string
  oe_pts :: int

record owner_reaction =
  or_bot :: int
  or_max_chat :: int
  or_max_message :: int
  or_account :: int
  or_message :: int
  or_emoji :: "string option"
  or_custom :: "string option"
  or_pts :: int

record 'e ports =
  by_owner_account :: "int \<Rightarrow> int \<Rightarrow> 'e \<Rightarrow> message_link option"
  on_owner_edit :: "owner_edit \<Rightarrow> 'e \<Rightarrow> failure option \<times> 'e"
  apply_owner_reaction :: "owner_reaction \<Rightarrow> 'e \<Rightarrow> failure option \<times> 'e"
  on_owner_deletes :: "int \<Rightarrow> int list \<Rightarrow> 'e \<Rightarrow> failure option \<times> 'e"
  owner_bot_for :: "int \<Rightarrow> int \<Rightarrow> 'e \<Rightarrow> int option"

definition RETRY_MS :: int where
  "RETRY_MS = 30000"

definition count_update :: "(dispatch_counts \<Rightarrow> dispatch_counts) \<Rightarrow> 'e dispatch \<Rightarrow> 'e dispatch" where
  "count_update f d = d\<lparr>ds_counts := f (ds_counts d)\<rparr>"

definition seed_baseline :: "int \<Rightarrow> int \<times> int \<times> int \<Rightarrow> string \<Rightarrow> chosen \<Rightarrow> 'e dispatch \<Rightarrow> bool \<times> 'e dispatch" where
  "seed_baseline now k fp c d =
     (let (b, s) = seed now k fp c (ds_states d) in (b, d\<lparr>ds_states := s\<rparr>))"

definition note_new_message :: "int \<Rightarrow> int \<Rightarrow> int \<Rightarrow> int option \<Rightarrow> string \<Rightarrow> 'e dispatch \<Rightarrow> 'e dispatch" where
  "note_new_message now acct bid message fp d =
     (case message of None \<Rightarrow> d | Some m \<Rightarrow> snd (seed_baseline now (acct, bid, m) fp [] d))"

definition carry_reaction ::
  "'e ports \<Rightarrow> int \<Rightarrow> int \<Rightarrow> int \<Rightarrow> (reaction_kind \<times> string) option \<Rightarrow> int \<Rightarrow> 'e dispatch \<Rightarrow> failure option \<times> 'e dispatch" where
  "carry_reaction po acct bid message chosen pts d =
     (case by_owner_account po acct message (ds_env d) of
        None \<Rightarrow> (None, count_update (\<lambda>c. c\<lparr>dc_unresolved_reaction := dc_unresolved_reaction c + 1\<rparr>) d)
      | Some link \<Rightarrow>
          (case ml_max_message_id link of
             None \<Rightarrow> (None, count_update (\<lambda>c. c\<lparr>dc_unresolved_reaction := dc_unresolved_reaction c + 1\<rparr>) d)
           | Some max_message \<Rightarrow>
               (let custom = (case chosen of Some (CUSTOM, v) \<Rightarrow> Some v | _ \<Rightarrow> None);
                    emoji = (case chosen of Some (EMOJI, v) \<Rightarrow> Some v | _ \<Rightarrow> None);
                    d1 = (if custom \<noteq> None
                          then count_update (\<lambda>c. c\<lparr>dc_custom_emoji := dc_custom_emoji c + 1\<rparr>) d else d);
                    d2 = count_update (\<lambda>c. c\<lparr>dc_resolved_reaction := dc_resolved_reaction c + 1\<rparr>) d1;
                    (e, env) = apply_owner_reaction po
                      \<lparr>or_bot = bid, or_max_chat = ml_max_chat_id link, or_max_message = max_message,
                       or_account = acct, or_message = message, or_emoji = emoji, or_custom = custom,
                       or_pts = pts\<rparr> (ds_env d2)
                in (e, d2\<lparr>ds_env := env\<rparr>))))"

definition advance_state :: "int \<Rightarrow> int \<times> int \<times> int \<Rightarrow> string \<Rightarrow> chosen \<Rightarrow> int \<Rightarrow> 'e dispatch \<Rightarrow> 'e dispatch" where
  "advance_state now k fp c pts d = d\<lparr>ds_states := snd (advance now k fp c pts (ds_states d))\<rparr>"

definition first_sight ::
  "int \<Rightarrow> int \<times> int \<times> int \<Rightarrow> int \<Rightarrow> string \<Rightarrow> chosen \<Rightarrow> string option \<Rightarrow> bool \<Rightarrow> 'e dispatch \<Rightarrow> 'e dispatch" where
  "first_sight now k pts fp c text outgoing d =
     (let d1 = (if outgoing \<and> text \<noteq> None
                then count_update (\<lambda>n. n\<lparr>dc_unproven_edit := dc_unproven_edit n + 1\<rparr>) d else d);
          d2 = count_update (\<lambda>n. n\<lparr>dc_without_baseline := dc_without_baseline n + 1\<rparr>) d1
      in advance_state now k fp c pts d2)"

definition carry_edit ::
  "'e ports \<Rightarrow> int \<Rightarrow> int \<Rightarrow> int \<Rightarrow> string \<Rightarrow> string option \<Rightarrow> bool \<Rightarrow> owner_message_state \<Rightarrow> 'e dispatch
   \<Rightarrow> failure option \<times> 'e dispatch" where
  "carry_edit po acct message pts fp text outgoing previous d =
     (case text of
        None \<Rightarrow> (None, d)
      | Some t \<Rightarrow>
          if outgoing \<and> fp \<noteq> os_content_fingerprint previous
          then (let (e, env) = on_owner_edit po
                  \<lparr>oe_account = acct, oe_message = message, oe_text = t, oe_pts = pts\<rparr> (ds_env d)
                in (e, d\<lparr>ds_env := env\<rparr>))
          else (None, d))"

definition carry_projection ::
  "'e ports \<Rightarrow> int \<Rightarrow> int \<Rightarrow> int \<Rightarrow> int \<Rightarrow> chosen \<Rightarrow> owner_message_state \<Rightarrow> 'e dispatch \<Rightarrow> failure option \<times> 'e dispatch" where
  "carry_projection po acct bid message pts c previous d =
     (if representative (os_chosen previous) = representative c
      then (None, count_update (\<lambda>n. n\<lparr>dc_no_projection_change := dc_no_projection_change n + 1\<rparr>) d)
      else carry_reaction po acct bid message (representative c) pts d)"

definition read_decide_and_commit ::
  "'e ports \<Rightarrow> int \<Rightarrow> int \<times> int \<times> int \<Rightarrow> int \<Rightarrow> string \<Rightarrow> chosen \<Rightarrow> string option \<Rightarrow> bool \<Rightarrow> 'e dispatch
   \<Rightarrow> failure option \<times> 'e dispatch" where
  "read_decide_and_commit po now k pts fp c text outgoing d =
     (case k of (acct, bid, message) \<Rightarrow>
      case state_get k (ds_states d) of
        None \<Rightarrow> (None, first_sight now k pts fp c text outgoing d)
      | Some previous \<Rightarrow>
          if pts \<le> os_pts previous
          then (None, count_update (\<lambda>n. n\<lparr>dc_stale_update := dc_stale_update n + 1\<rparr>) d)
          else
            (case carry_edit po acct message pts fp text outgoing previous d of
               (Some e, d1) \<Rightarrow> (Some e, d1)
             | (None, d1) \<Rightarrow>
                 (case carry_projection po acct bid message pts c previous d1 of
                    (Some e, d2) \<Rightarrow> (Some e, d2)
                  | (None, d2) \<Rightarrow> (None, advance_state now k fp c pts d2))))"

definition with_inbox :: "(owner_inbox \<Rightarrow> owner_inbox) \<Rightarrow> 'e dispatch \<Rightarrow> 'e dispatch" where
  "with_inbox f d = d\<lparr>ds_inbox := map_option f (ds_inbox d)\<rparr>"

text \<open>After the effects: an exception reopens the row and is raised again - a cancellation is no
  \<open>Exception\<close> and leaves the row as it is - and success accounts for the row.\<close>

definition after_effects :: "int \<Rightarrow> inbox_key \<Rightarrow> failure option \<times> 'e dispatch \<Rightarrow> failure option \<times> 'e dispatch" where
  "after_effects now k res =
     (case res of
        (Some e, d) \<Rightarrow>
          (Some e, if is_cancelled e then d else with_inbox (reopen now k RETRY_MS (type_name e)) d)
      | (None, d) \<Rightarrow> (None, with_inbox (account now k) d))"

definition message_of :: "inbox_key \<Rightarrow> int \<times> int \<times> int" where
  "message_of k = (ik_account_id k, ik_bot_id k, ik_message_id k)"

definition settle_update ::
  "'e ports \<Rightarrow> int \<Rightarrow> inbox_key \<Rightarrow> string \<Rightarrow> chosen \<Rightarrow> string option \<Rightarrow> bool \<Rightarrow> 'e dispatch \<Rightarrow> failure option \<times> 'e dispatch" where
  "settle_update po now k fp c text outgoing d =
     after_effects now k (read_decide_and_commit po now (message_of k) (ik_pts k) fp c text outgoing d)"

definition on_owner_update ::
  "'e ports \<Rightarrow> int \<Rightarrow> int \<times> int \<times> int \<Rightarrow> int \<Rightarrow> string \<Rightarrow> chosen \<Rightarrow> string option \<Rightarrow> bool \<Rightarrow> 'e dispatch
   \<Rightarrow> failure option \<times> 'e dispatch" where
  "on_owner_update po now m pts fp c text outgoing d =
     (case ds_inbox d of
        None \<Rightarrow> read_decide_and_commit po now m pts fp c text outgoing d
      | Some _ \<Rightarrow>
          (case m of (acct, bid, message) \<Rightarrow>
           let k = \<lparr>ik_account_id = acct, ik_bot_id = bid, ik_message_id = message, ik_family = SNAPSHOT, ik_pts = pts\<rparr>;
               t = (if outgoing then text else None);
               d1 = with_inbox (\<lambda>ib. snd (remember now k t (Some fp) (Some c) ib)) d
           in settle_update po now k fp c t outgoing d1))"

definition settle_delete :: "'e ports \<Rightarrow> int \<Rightarrow> inbox_key \<Rightarrow> 'e dispatch \<Rightarrow> failure option \<times> 'e dispatch" where
  "settle_delete po now k d =
     after_effects now k
       (let (e, env) = on_owner_deletes po (ik_account_id k) [ik_message_id k] (ds_env d) in (e, d\<lparr>ds_env := env\<rparr>))"

fun settle_deletes :: "'e ports \<Rightarrow> int \<Rightarrow> inbox_key list \<Rightarrow> 'e dispatch \<Rightarrow> failure option \<times> 'e dispatch" where
  "settle_deletes po now [] d = (None, d)"
| "settle_deletes po now (k # ks) d =
     (case settle_delete po now k d of
        (Some e, d1) \<Rightarrow> (Some e, d1)
      | (None, d1) \<Rightarrow> settle_deletes po now ks d1)"

definition on_owner_delete :: "'e ports \<Rightarrow> int \<Rightarrow> int \<Rightarrow> int list \<Rightarrow> int \<Rightarrow> 'e dispatch \<Rightarrow> failure option \<times> 'e dispatch" where
  "on_owner_delete po now acct messages pts d =
     (let keys = List.map_filter (\<lambda>m. map_option (\<lambda>b. \<lparr>ik_account_id = acct, ik_bot_id = b, ik_message_id = m,
                    ik_family = DELETE, ik_pts = pts\<rparr>) (owner_bot_for po acct m (ds_env d))) messages
      in if keys = [] then (None, d)
         else (case ds_inbox d of
            None \<Rightarrow> (let (e, env) = on_owner_deletes po acct (map ik_message_id keys) (ds_env d) in (e, d\<lparr>ds_env := env\<rparr>))
          | Some _ \<Rightarrow> settle_deletes po now keys (with_inbox (\<lambda>ib. snd (remember_many now keys ib)) d)))"

definition settle_row :: "'e ports \<Rightarrow> int \<Rightarrow> owner_update \<Rightarrow> 'e dispatch \<Rightarrow> failure option \<times> 'e dispatch" where
  "settle_row po now u d =
     (if ik_family (ou_key u) = DELETE then settle_delete po now (ou_key u) d
      else settle_update po now (ou_key u) (case ou_content_fingerprint u of None \<Rightarrow> [] | Some f \<Rightarrow> f)
             (case ou_chosen u of None \<Rightarrow> [] | Some c \<Rightarrow> c) (ou_content_text u) (ou_content_text u \<noteq> None) d)"

fun settle_rows :: "'e ports \<Rightarrow> int \<Rightarrow> owner_update list \<Rightarrow> int \<Rightarrow> 'e dispatch \<Rightarrow> (failure + int) \<times> 'e dispatch" where
  "settle_rows po now [] n d = (Inr n, d)"
| "settle_rows po now (u # us) n d =
     (case settle_row po now u d of
        (Some e, d1) \<Rightarrow> (Inl e, d1)
      | (None, d1) \<Rightarrow> settle_rows po now us (n + 1) d1)"

definition drain_updates :: "'e ports \<Rightarrow> int \<Rightarrow> nat \<Rightarrow> 'e dispatch \<Rightarrow> (failure + int) \<times> 'e dispatch" where
  "drain_updates po now limit d =
     (case ds_inbox d of
        None \<Rightarrow> (Inr 0, d)
      | Some ib \<Rightarrow>
          (let (us, ib1) = owner_claim_due now limit 60000 ib
           in settle_rows po now us 0 (d\<lparr>ds_inbox := Some ib1\<rparr>)))"

subsection \<open>Effects first, then the version, then the row\<close>

lemma count_update_simps [simp]: "ds_states (count_update f d) = ds_states d" "ds_inbox (count_update f d) = ds_inbox d"
  "ds_env (count_update f d) = ds_env d"
  by (simp_all add: count_update_def)

lemma carry_reaction_keeps:
  "ds_states (snd (carry_reaction po a b m c p d)) = ds_states d \<and> ds_inbox (snd (carry_reaction po a b m c p d)) = ds_inbox d"
  by (simp add: carry_reaction_def Let_def case_prod_beta split: option.split)

lemma carry_edit_keeps:
  "ds_states (snd (carry_edit po a m p fp t og pr d)) = ds_states d \<and> ds_inbox (snd (carry_edit po a m p fp t og pr d)) = ds_inbox d"
  by (simp add: carry_edit_def Let_def case_prod_beta split: option.split)

lemma carry_projection_keeps:
  "ds_states (snd (carry_projection po a b m p c pr d)) = ds_states d \<and> ds_inbox (snd (carry_projection po a b m p c pr d)) = ds_inbox d"
  by (simp add: carry_projection_def carry_reaction_keeps)

lemma first_sight_states: "ds_states (first_sight now k pts fp c t og d) = snd (advance now k fp c pts (ds_states d))"
  "ds_inbox (first_sight now k pts fp c t og d) = ds_inbox d"
  "ds_env (first_sight now k pts fp c t og d) = ds_env d"
  by (simp_all add: first_sight_def advance_state_def Let_def)

lemma pts_advance: "pts_of k (snd (advance now k fp c p s)) = max (pts_of k s) (Some p)"
  using owner_pts.advance_mark[where k = k and now = now and v = "(fp, c, p)" and s = s] by simp

lemma read_decide_result:
  "case read_decide_and_commit po now k pts fp c t og d of
     (None, d') \<Rightarrow> ds_inbox d' = ds_inbox d \<and> pts_of k (ds_states d') = max (pts_of k (ds_states d)) (Some pts)
   | (Some e, d') \<Rightarrow> ds_inbox d' = ds_inbox d \<and> ds_states d' = ds_states d"
proof -
  obtain a b m where k: "k = (a, b, m)" by (cases k)
  show ?thesis
  proof (cases "state_get k (ds_states d)")
    case None
    then show ?thesis by (simp add: read_decide_and_commit_def k first_sight_states pts_advance)
  next
    case (Some r)
    show ?thesis
    proof (cases "pts \<le> os_pts r")
      case True
      then show ?thesis using Some by (simp add: read_decide_and_commit_def k pts_of_def max_absorb1)
    next
      case False
      obtain e1 d1 where 1: "carry_edit po a m pts fp t og r d = (e1, d1)" by (cases "carry_edit po a m pts fp t og r d")
      obtain e2 d2 where 2: "carry_projection po a b m pts c r d1 = (e2, d2)" by (cases "carry_projection po a b m pts c r d1")
      have "ds_states d2 = ds_states d1" "ds_inbox d2 = ds_inbox d1" "ds_states d1 = ds_states d" "ds_inbox d1 = ds_inbox d"
        using carry_edit_keeps[of po a m pts fp t og r d] carry_projection_keeps[of po a b m pts c r d1] by (simp_all add: 1 2)
      then show ?thesis using Some False
        by (auto simp: read_decide_and_commit_def k 1 2 advance_state_def pts_advance split: option.split)
    qed
  qed
qed

lemma with_inbox_simps [simp]: "ds_states (with_inbox f d) = ds_states d" "ds_env (with_inbox f d) = ds_env d"
  "ds_inbox (with_inbox f d) = map_option f (ds_inbox d)"
  by (simp_all add: with_inbox_def)


definition no_counts :: dispatch_counts where
  "no_counts = \<lparr>dc_without_baseline = 0, dc_unproven_edit = 0, dc_unresolved_reaction = 0, dc_custom_emoji = 0,
     dc_resolved_reaction = 0, dc_stale_update = 0, dc_no_projection_change = 0\<rparr>"

text \<open>Ports of a world where nothing is bridged.\<close>

definition no_ports :: "unit ports" where
  "no_ports = \<lparr>by_owner_account = (\<lambda>_ _ _. None), on_owner_edit = (\<lambda>_ e. (None, e)), apply_owner_reaction = (\<lambda>_ e. (None, e)),
     on_owner_deletes = (\<lambda>_ _ e. (None, e)), owner_bot_for = (\<lambda>_ _ _. None)\<rparr>"


subsection \<open>What MAX shows is the representative of the confirmed version\<close>

definition projected :: "chosen \<Rightarrow> string option" where
  "projected c = (case representative c of Some (EMOJI, v) \<Rightarrow> Some v | _ \<Rightarrow> None)"

text \<open>MAX as the dispatcher sees it: the one reaction it shows for the owner, and whether each of the
  coming calls fails.\<close>

definition showing :: "message_link \<Rightarrow> (failure option list \<times> string option) ports" where
  "showing link =
     \<lparr>by_owner_account = (\<lambda>_ _ _. Some link),
      on_owner_edit = (\<lambda>e (fs, s). (case fs of [] \<Rightarrow> None | f # _ \<Rightarrow> f, (tl fs, s))),
      apply_owner_reaction = (\<lambda>r (fs, s). case fs of Some f # fs' \<Rightarrow> (Some f, (fs', s)) | _ \<Rightarrow> (None, (tl fs, or_emoji r))),
      on_owner_deletes = (\<lambda>_ _ s. (None, s)), owner_bot_for = (\<lambda>_ _ _. None)\<rparr>"

type_synonym reading = "int \<times> string \<times> chosen \<times> string option \<times> bool"

fun readings :: "'e ports \<Rightarrow> int \<Rightarrow> int \<times> int \<times> int \<Rightarrow> reading list \<Rightarrow> 'e dispatch \<Rightarrow> 'e dispatch" where
  "readings po now k [] d = d"
| "readings po now k ((pts, fp, c, t, og) # us) d =
     readings po now k us (snd (read_decide_and_commit po now k pts fp c t og d))"

definition in_step :: "int \<times> int \<times> int \<Rightarrow> (failure option list \<times> string option) dispatch \<Rightarrow> bool" where
  "in_step k d \<longleftrightarrow> (\<exists>r. state_get k (ds_states d) = Some r \<and> snd (ds_env d) = projected (os_chosen r))"

lemma projected_eq: "representative c = representative c' \<Longrightarrow> projected c = projected c'"
  by (simp add: projected_def)

lemma carry_edit_showing: "snd (ds_env (snd (carry_edit (showing link) a m p fp t og pr d))) = snd (ds_env d)"
  by (simp add: carry_edit_def showing_def Let_def case_prod_beta split: option.split)

lemma carry_projection_showing:
  assumes "ml_max_message_id link \<noteq> None" "snd (ds_env d) = projected (os_chosen pr)"
  shows "case carry_projection (showing link) a b m p c pr d of
      (None, d') \<Rightarrow> snd (ds_env d') = projected c | (Some e, d') \<Rightarrow> snd (ds_env d') = snd (ds_env d)"
  using assms
  by (auto simp: carry_projection_def carry_reaction_def showing_def Let_def case_prod_beta projected_def
      split: option.split list.split reaction_kind.split)

lemma in_step_read:
  assumes "in_step k d" "ml_max_message_id link \<noteq> None"
  shows "in_step k (snd (read_decide_and_commit (showing link) now k pts fp c t og d))"
proof -
  obtain a b m where k: "k = (a, b, m)" by (cases k)
  obtain r where r: "state_get k (ds_states d) = Some r" "snd (ds_env d) = projected (os_chosen r)"
    using assms(1) by (auto simp: in_step_def)
  show ?thesis
  proof (cases "pts \<le> os_pts r")
    case True
    then show ?thesis using r by (simp add: read_decide_and_commit_def k in_step_def)
  next
    case False
    obtain e1 d1 where 1: "carry_edit (showing link) a m pts fp t og r d = (e1, d1)" by (cases "carry_edit (showing link) a m pts fp t og r d")
    obtain e2 d2 where 2: "carry_projection (showing link) a b m pts c r d1 = (e2, d2)" by (cases "carry_projection (showing link) a b m pts c r d1")
    have keep: "ds_states d2 = ds_states d" "ds_states d1 = ds_states d" "snd (ds_env d1) = snd (ds_env d)"
      using carry_edit_keeps[of "showing link" a m pts fp t og r d] carry_projection_keeps[of "showing link" a b m pts c r d1]
        carry_edit_showing[of link a m pts fp t og r d] by (simp_all add: 1 2)
    have "case e2 of None \<Rightarrow> snd (ds_env d2) = projected c | Some _ \<Rightarrow> snd (ds_env d2) = snd (ds_env d)"
      using carry_projection_showing[OF assms(2), where d = d1 and pr = r and a = a and b = b and m = m and p = pts and c = c]
        r(2) keep(3) by (cases e2) (simp_all add: 2)
    then show ?thesis using r False keep
      by (auto simp: read_decide_and_commit_def k 1 2 in_step_def advance_state_def state_get_advance[of "(a, b, m)"] split: option.split)
  qed
qed

lemma read_no_failure:
  assumes "fst (ds_env d) = []"
  shows "fst (read_decide_and_commit (showing link) now k pts fp c t og d) = None
    \<and> fst (ds_env (snd (read_decide_and_commit (showing link) now k pts fp c t og d))) = []"
proof -
  have e: "fst (carry_edit (showing link) a m pts fp t og r d) = None
      \<and> fst (ds_env (snd (carry_edit (showing link) a m pts fp t og r d))) = []" for a m r
    using assms by (auto simp: carry_edit_def showing_def Let_def case_prod_beta split: option.split)
  have p: "fst (carry_projection (showing link) a b m pts c r d1) = None
      \<and> fst (ds_env (snd (carry_projection (showing link) a b m pts c r d1))) = []" if "fst (ds_env d1) = []" for a b m r d1
    using that by (auto simp: carry_projection_def carry_reaction_def showing_def Let_def case_prod_beta split: option.split)
  show ?thesis using assms e p
    by (auto simp: read_decide_and_commit_def first_sight_states advance_state_def split: prod.split option.split)
      (metis fst_conv snd_conv option.distinct(1))+
qed

lemma Max_insert_max: "finite S \<Longrightarrow> Max (insert (max a b) S) = Max (insert a (insert b S))" for a :: "'a::linorder"
  by (cases "S = {}") (simp_all add: max.assoc)

text \<open>MAX shows the owner's current choice. Once a message has a baseline that agrees with MAX, then
  whatever updates of it are read, in whatever order, replayed or failing anywhere on the way, what MAX
  shows for the owner is the last chosen ordinary emoji of the confirmed version, and nothing for a
  custom one or an emptied set; and when no call fails, the confirmed version is the newest one read.\<close>

theorem max_shows_the_current_choice:
  assumes "in_step k d" "ml_max_message_id link \<noteq> None"
  shows "in_step k (readings (showing link) now k us d)
    \<and> (fst (ds_env d) = [] \<longrightarrow>
        pts_of k (ds_states (readings (showing link) now k us d)) = Max (insert (pts_of k (ds_states d)) ((\<lambda>u. Some (fst u)) ` set us)))"
  using assms(1)
proof (induction us arbitrary: d)
  case (Cons u us)
  obtain pts fp c t og where u: "u = (pts, fp, c, t, og)" by (cases u)
  let ?d = "snd (read_decide_and_commit (showing link) now k pts fp c t og d)"
  have step: "in_step k ?d" by (rule in_step_read[OF Cons.prems assms(2)])
  have "fst (ds_env ?d) = [] \<and> pts_of k (ds_states ?d) = max (pts_of k (ds_states d)) (Some pts)" if "fst (ds_env d) = []"
    using read_no_failure[OF that, where link = link and now = now and k = k and pts = pts and fp = fp and c = c and t = t and og = og]
      read_decide_result[where po = "showing link" and now = now and k = k and pts = pts and fp = fp and c = c and t = t and og = og and d = d]
    by (auto split: prod.splits option.splits)
  moreover have "Max (insert (max a b) (f ` set us)) = Max (insert a (insert b (f ` set us)))" for a b :: "int option" and f
    by (rule Max_insert_max) simp
  ultimately show ?case using Cons.IH[OF step] by (simp add: u del: Max_insert)
qed simp

theorem max_shows_the_current_choice_witness:
  "let link = \<lparr>ml_id = 1, ml_bridge_name = ''b'', ml_max_chat_id = 5, ml_max_message_id = Some 77, ml_telegram_bot_id = 9,
         ml_telegram_chat_id = 3, ml_telegram_message_id = None, ml_direction = TG_TO_MAX, ml_source_marker = FROM_TG,
         ml_created_at = 0, ml_echo_fingerprint = None, ml_owner_message_id = Some 100, ml_owner_account_id = Some 7\<rparr>;
       d = \<lparr>ds_states = [state_row 0 (7, 9, 100) ''f'' [] 1], ds_inbox = None, ds_counts = no_counts, ds_env = ([], None)\<rparr>
   in pts_of (7, 9, 100) (ds_states (readings (showing link) 2 (7, 9, 100)
        [(8, ''f'', [(EMOJI, ''x'')], None, False), (5, ''f'', [], None, False)] d)) = Some 8"
proof -
  let ?link = "\<lparr>ml_id = 1, ml_bridge_name = ''b'', ml_max_chat_id = 5, ml_max_message_id = Some 77, ml_telegram_bot_id = 9,
         ml_telegram_chat_id = 3, ml_telegram_message_id = None, ml_direction = TG_TO_MAX, ml_source_marker = FROM_TG,
         ml_created_at = 0, ml_echo_fingerprint = None, ml_owner_message_id = Some 100, ml_owner_account_id = Some 7\<rparr>"
  let ?d = "\<lparr>ds_states = [state_row 0 (7, 9, 100) ''f'' [] 1], ds_inbox = None, ds_counts = no_counts, ds_env = ([], None)\<rparr>"
  have g: "state_get (7, 9, 100) (ds_states ?d) = Some (state_row 0 (7, 9, 100) ''f'' [] 1)" by code_simp
  then have i: "in_step (7, 9, 100) ?d" by (simp add: in_step_def projected_def representative_def state_row_def)
  have l: "ml_max_message_id ?link \<noteq> None" by simp
  have p: "pts_of (7, 9, 100) (ds_states ?d) = Some 1" using g by (simp add: pts_of_def state_row_def)
  show ?thesis
    using max_shows_the_current_choice[OF i l, of 2 "[(8, ''f'', [(EMOJI, ''x'')], None, False), (5, ''f'', [], None, False)]"] p
    by (simp only: Let_def) (simp add: less_eq_option_def max_def)
qed

end
