(* ===== verification/Presentation.thy ===== *)
theory Presentation
  imports Text_Chunks
begin

section \<open>Drawing a message, and taking the drawing off again\<close>

text \<open>
  \<open>formatting/stamps.py\<close>, \<open>formatting/forwards.py\<close>, \<open>formatting/presentation.py\<close> and the renderers of
  \<open>routing/router.py\<close> that put them together. Texts are lists of code points. The local clock of the
  machine - \<open>datetime.fromtimestamp\<close> in the configured zone - is the argument \<open>clock\<close>, which answers
  None where Python raises; a moment carries the wall-clock fields \<open>strftime\<close> prints and the instant
  itself in microseconds. The regular expressions are written as the matchers they compile to.
\<close>

datatype timestamp_style = STYLE_OFF | STYLE_COMPACT | STYLE_FULL

record moment =
  mo_at :: int
  mo_year :: nat
  mo_month :: nat
  mo_day :: nat
  mo_hour :: nat
  mo_minute :: nat

definition asc :: "string \<Rightarrow> ucs" where
  "asc s = map of_char s"

definition pad2 :: "nat \<Rightarrow> ucs" where
  "pad2 n = [48 + n div 10 mod 10, 48 + n mod 10]"

text \<open>\<open>%d/%m\<close>, \<open>%d/%m/%Y\<close> and \<open>%H:%M\<close>.\<close>

definition day_month :: "moment \<Rightarrow> ucs" where
  "day_month m = pad2 (mo_day m) @ [47] @ pad2 (mo_month m)"

definition day_month_year :: "moment \<Rightarrow> ucs" where
  "day_month_year m = day_month m @ [47] @ asc (show_nat (mo_year m))"

definition hour_minute :: "moment \<Rightarrow> ucs" where
  "hour_minute m = pad2 (mo_hour m) @ [58] @ pad2 (mo_minute m)"

subsection \<open>stamps.py\<close>

definition same_date :: "moment \<Rightarrow> moment \<Rightarrow> bool" where
  "same_date a b \<longleftrightarrow> mo_year a = mo_year b \<and> mo_month a = mo_month b \<and> mo_day a = mo_day b"

definition the_moment :: "(int \<Rightarrow> moment option) \<Rightarrow> int option \<Rightarrow> moment option" where
  "the_moment clock ts = (case ts of None \<Rightarrow> None | Some t \<Rightarrow> if t = 0 then None else clock t)"

definition format_clock :: "(int \<Rightarrow> moment option) \<Rightarrow> moment \<Rightarrow> int option \<Rightarrow> ucs" where
  "format_clock clock now ts =
     (case the_moment clock ts of
        None \<Rightarrow> []
      | Some m \<Rightarrow>
          if same_date m now then hour_minute m
          else if mo_year m = mo_year now then day_month m @ [32] @ hour_minute m
          else day_month_year m @ [32] @ hour_minute m)"

definition FRESH_WINDOW_SECONDS :: int where
  "FRESH_WINDOW_SECONDS = 120"

definition EDIT_MARK :: ucs where
  "EDIT_MARK = [1080, 1079, 1084, 46]"

definition format_edit_mark :: "(int \<Rightarrow> moment option) \<Rightarrow> moment \<Rightarrow> int option \<Rightarrow> timestamp_style \<Rightarrow> ucs" where
  "format_edit_mark clock now edited_at style =
     (if style = STYLE_OFF \<or> edited_at = None \<or> edited_at = Some 0 then []
      else (let stamp = format_clock clock now edited_at
            in if stamp = [] then [] else [32, 40] @ EDIT_MARK @ [32] @ stamp @ [41]))"

definition format_stamp :: "(int \<Rightarrow> moment option) \<Rightarrow> moment \<Rightarrow> int option \<Rightarrow> timestamp_style \<Rightarrow> int \<Rightarrow> ucs" where
  "format_stamp clock now ts style fresh_within =
     (if style = STYLE_OFF then []
      else (case the_moment clock ts of
        None \<Rightarrow> []
      | Some m \<Rightarrow>
          if style \<noteq> STYLE_FULL \<and> fresh_within > 0 \<and> \<bar>mo_at now - mo_at m\<bar> \<le> fresh_within * 1000000 then []
          else if style = STYLE_FULL \<or> mo_year m \<noteq> mo_year now
          then [91] @ day_month_year m @ [32] @ hour_minute m @ [93, 32]
          else [91] @ day_month m @ [32] @ hour_minute m @ [93, 32]))"

subsection \<open>forwards.py\<close>

definition ARROW :: nat where "ARROW = 8618"

definition FORWARD_FROM :: ucs where
  "FORWARD_FROM = ARROW # 32 # [1055, 1077, 1088, 1077, 1089, 1083, 1072, 1085, 1086, 32, 1086, 1090]"

definition FORWARD_ANONYMOUS :: ucs where
  "FORWARD_ANONYMOUS = ARROW # 32 # [1055, 1077, 1088, 1077, 1089, 1083, 1072, 1085, 1085, 1086, 1077, 32, 1089, 1086, 1086, 1073, 1097, 1077, 1085, 1080, 1077]"

text \<open>\<open>str.strip()\<close>, and \<open>str.lstrip\<close> of one character.\<close>

definition ustrip :: "ucs \<Rightarrow> ucs" where
  "ustrip t = rev (dropWhile isspace (rev (dropWhile isspace t)))"

definition ulstrip :: "nat \<Rightarrow> ucs \<Rightarrow> ucs" where
  "ulstrip c t = dropWhile (\<lambda>x. x = c) t"

definition forward_header :: "ucs option \<Rightarrow> ucs" where
  "forward_header name =
     (let cleaned = ustrip (case name of None \<Rightarrow> [] | Some n \<Rightarrow> n)
      in if cleaned \<noteq> [] then FORWARD_FROM @ [32] @ cleaned @ [10] else FORWARD_ANONYMOUS @ [10])"

definition PROFILE_HOST :: ucs where "PROFILE_HOST = asc ''t.me''"

definition profile_url :: "ucs \<Rightarrow> ucs" where
  "profile_url username = asc ''https://'' @ PROFILE_HOST @ [47] @ ustrip (ulstrip 64 username)"

definition linked :: "ucs option \<Rightarrow> ucs option \<Rightarrow> ucs" where
  "linked name username =
     (let handle = ustrip (ulstrip 64 (case username of None \<Rightarrow> [] | Some u \<Rightarrow> u));
          label = ustrip (case name of None \<Rightarrow> [] | Some n \<Rightarrow> n)
      in if handle = [] then label
         else (let shown = filter (\<lambda>c. c \<noteq> 91 \<and> c \<noteq> 93) (if label \<noteq> [] then label else PROFILE_HOST @ [47] @ handle)
               in [91] @ shown @ [93, 40] @ profile_url handle @ [41]))"

definition forward_prefix ::
  "(int \<Rightarrow> moment option) \<Rightarrow> moment \<Rightarrow> ucs option \<Rightarrow> ucs option \<Rightarrow> int option \<Rightarrow> timestamp_style \<Rightarrow> ucs" where
  "forward_prefix clock now name username at_ms style =
     (let stamp = format_stamp clock now at_ms style FRESH_WINDOW_SECONDS; l = linked name username
      in if l = [] then stamp @ FORWARD_ANONYMOUS @ [10] else stamp @ FORWARD_FROM @ [32] @ l @ [10])"

text \<open>\<open>utf16_length\<close> refuses a lone surrogate as \<open>utf16_units\<close> does.\<close>

definition utf16_length :: "ucs \<Rightarrow> split_error + nat" where
  "utf16_length t = utf16_units t"

subsection \<open>presentation.py\<close>

text \<open>\<open>\d\<close> of a \<open>str\<close> pattern: any decimal digit of Unicode 15; each block of ten by its first.\<close>

definition digit_starts :: "nat list" where
  "digit_starts =
     [48, 1632, 1776, 1984, 2406, 2534, 2662, 2790, 2918, 3046, 3174, 3302, 3430, 3558, 3664, 3792, 3872,
     4160, 4240, 6112, 6160, 6470, 6608, 6784, 6800, 6992, 7088, 7232, 7248, 42528, 43216, 43264, 43472,
     43504, 43600, 44016, 65296, 66720, 68912, 69734, 69872, 69942, 70096, 70384, 70736, 70864, 71248,
     71360, 71472, 71904, 72016, 72784, 73040, 73120, 73552, 92768, 92864, 93008, 120782, 120792, 120802,
     120812, 120822, 123200, 123632, 124144, 125264, 130032]"

definition is_digit :: "nat \<Rightarrow> bool" where
  "is_digit c = list_ex (\<lambda>s. s \<le> c \<and> c < s + 10) digit_starts"

fun lit :: "ucs \<Rightarrow> ucs \<Rightarrow> ucs option" where
  "lit [] t = Some t"
| "lit (c # p) [] = None"
| "lit (c # p) (d # t) = (if c = d then lit p t else None)"

fun digits :: "nat \<Rightarrow> ucs \<Rightarrow> ucs option" where
  "digits 0 t = Some t"
| "digits (Suc n) [] = None"
| "digits (Suc n) (c # t) = (if is_digit c then digits n t else None)"

definition date_match :: "ucs \<Rightarrow> ucs option" where
  "date_match t =
     Option.bind (digits 2 t) (\<lambda>t. Option.bind (lit [47] t) (\<lambda>t. Option.bind (digits 2 t) (\<lambda>t.
       case Option.bind (lit [47] t) (digits 4) of Some r \<Rightarrow> Some r | None \<Rightarrow> Some t)))"

definition clock_match :: "ucs \<Rightarrow> ucs option" where
  "clock_match t = Option.bind (digits 2 t) (\<lambda>t. Option.bind (lit [58] t) (digits 2))"

definition stamp_match :: "ucs \<Rightarrow> ucs option" where
  "stamp_match t =
     Option.bind (lit [91] t) (\<lambda>t. Option.bind (date_match t) (\<lambda>t. Option.bind (lit [32] t) (\<lambda>t.
       Option.bind (clock_match t) (lit [93, 32]))))"

definition forward_match :: "ucs \<Rightarrow> ucs option" where
  "forward_match t =
     Option.bind (lit [ARROW, 32] t) (\<lambda>t. case dropWhile (\<lambda>c. c \<noteq> 10) t of [] \<Rightarrow> None | _ # r \<Rightarrow> Some r)"

definition mark_match :: "ucs \<Rightarrow> ucs option" where
  "mark_match t =
     Option.bind (lit ([32, 40] @ EDIT_MARK @ [32]) t) (\<lambda>t.
       Option.bind (clock_match (case Option.bind (date_match t) (lit [32]) of Some r \<Rightarrow> r | None \<Rightarrow> t)) (lit [41]))"

text \<open>\<open>$\<close> stands at the end and before a final newline, which stays.\<close>

fun strip_mark :: "ucs \<Rightarrow> ucs" where
  "strip_mark [] = []"
| "strip_mark (c # t) =
     (case mark_match (c # t) of
        Some r \<Rightarrow> if r = [] \<or> r = [10] then r else c # strip_mark t
      | None \<Rightarrow> c # strip_mark t)"

definition drop_match :: "(ucs \<Rightarrow> ucs option) \<Rightarrow> ucs \<Rightarrow> ucs" where
  "drop_match m t = (case m t of Some r \<Rightarrow> r | None \<Rightarrow> t)"

definition strip_presentation :: "ucs \<Rightarrow> ucs" where
  "strip_presentation t = strip_mark (drop_match forward_match (drop_match stamp_match t))"

end
