(* ===== verification/Rendering.thy ===== *)
theory Rendering
  imports Presentation "HOL-Library.List_Lexorder" "HOL-Library.Sublist"
begin

section \<open>Formatting ranges and the rendered message\<close>

text \<open>
  \<open>formatting/elements.py\<close> and the renderers of \<open>routing/router.py\<close>. A formatting range is a record of the
  keys its dictionary may hold, an absent key being None; a text is a list of code points and a range
  counts UTF-16 units. Python's refusals to encode or decode are errors of the result.
\<close>

subsection \<open>elements.py: the two vocabularies\<close>

record entity =
  en_type :: "string option"
  en_offset :: "int option"
  en_length :: "int option"
  en_url :: "ucs option"

record element =
  el_type :: "string option"
  el_from :: "int option"
  el_from_alt :: "int option"
  el_length :: "int option"
  el_url :: "ucs option"

definition TO_MAX :: "(string \<times> string) list" where
  "TO_MAX = [(''bold'', ''STRONG''), (''italic'', ''EMPHASIZED''), (''underline'', ''UNDERLINE''),
     (''strikethrough'', ''STRIKETHROUGH''), (''code'', ''MONOSPACED''), (''pre'', ''CODE''), (''text_link'', ''LINK'')]"

definition TO_TELEGRAM :: "(string \<times> string) list" where
  "TO_TELEGRAM = [(''STRONG'', ''bold''), (''EMPHASIZED'', ''italic''), (''UNDERLINE'', ''underline''),
     (''STRIKETHROUGH'', ''strikethrough''), (''MONOSPACED'', ''code''), (''CODE'', ''pre''), (''LINK'', ''text_link''),
     (''HEADING'', ''bold'')]"

definition SELF_EVIDENT :: "string list" where
  "SELF_EVIDENT = [''url'', ''mention'', ''hashtag'', ''bot_command'', ''email'', ''phone_number'']"

definition upper_char :: "char \<Rightarrow> char" where
  "upper_char c = (let n = of_char c :: nat in if 97 \<le> n \<and> n \<le> 122 then char_of (n - 32) else c)"

definition kind_of :: "string option \<Rightarrow> string" where
  "kind_of v = (case v of None \<Rightarrow> [] | Some s \<Rightarrow> map upper_char s)"

definition some_text :: "'a list option \<Rightarrow> 'a list" where
  "some_text v = (case v of None \<Rightarrow> [] | Some s \<Rightarrow> s)"

definition some_int :: "int option \<Rightarrow> int" where
  "some_int v = (case v of None \<Rightarrow> 0 | Some n \<Rightarrow> n)"

definition to_element :: "entity \<Rightarrow> element option" where
  "to_element e =
     (let kind = some_text (en_type e)
      in if kind \<in> set SELF_EVIDENT then None
         else (case map_of TO_MAX kind of
           None \<Rightarrow> None
         | Some mapped \<Rightarrow> Some \<lparr>el_type = Some mapped, el_from = Some (some_int (en_offset e)), el_from_alt = None,
             el_length = Some (some_int (en_length e)),
             el_url = (if mapped = ''LINK'' \<and> some_text (en_url e) \<noteq> [] then en_url e else None)\<rparr>))"

definition entities_to_elements :: "entity list \<Rightarrow> element list" where
  "entities_to_elements es = List.map_filter to_element es"

definition to_entity :: "element \<Rightarrow> entity option" where
  "to_entity e =
     (case map_of TO_TELEGRAM (kind_of (el_type e)) of
        None \<Rightarrow> None
      | Some mapped \<Rightarrow>
          (case (if el_from e \<noteq> None then el_from e else el_from_alt e) of
             None \<Rightarrow> None
           | Some offset \<Rightarrow>
               if some_int (el_length e) = 0 then None
               else if mapped = ''text_link''
               then (if some_text (el_url e) = [] then None
                     else Some \<lparr>en_type = Some mapped, en_offset = Some offset, en_length = el_length e, en_url = el_url e\<rparr>)
               else Some \<lparr>en_type = Some mapped, en_offset = Some offset, en_length = el_length e, en_url = None\<rparr>))"

definition elements_to_entities :: "element list \<Rightarrow> entity list" where
  "elements_to_entities es = List.map_filter to_entity es"

definition shift_entities :: "entity list \<Rightarrow> int \<Rightarrow> entity list" where
  "shift_entities es offset =
     (if offset = 0 then es else map (\<lambda>e. e\<lparr>en_offset := Some (some_int (en_offset e) + offset)\<rparr>) es)"

subsection \<open>elements.py: formatting as markdown\<close>

datatype markdown_error = Md_encode | Md_decode | Md_no_key

fun encode16 :: "ucs \<Rightarrow> nat list" where
  "encode16 [] = []"
| "encode16 (c # t) =
     (if c > 65535 then (55296 + (c - 65536) div 1024) # (56320 + (c - 65536) mod 1024) # encode16 t
      else c # encode16 t)"

fun decode16 :: "nat list \<Rightarrow> ucs option" where
  "decode16 [] = Some []"
| "decode16 (u # us) =
     (if 55296 \<le> u \<and> u \<le> 56319
      then (case us of
              [] \<Rightarrow> None
            | v # vs \<Rightarrow> if 56320 \<le> v \<and> v \<le> 57343
                then map_option ((#) (65536 + (u - 55296) * 1024 + (v - 56320))) (decode16 vs) else None)
      else if 56320 \<le> u \<and> u \<le> 57343 then None
      else map_option ((#) u) (decode16 us))"

text \<open>A slice \<open>xs[a:b]\<close>, a negative bound counting from the end.\<close>

definition bound :: "int \<Rightarrow> nat \<Rightarrow> nat" where
  "bound i n = (if i < 0 then nat (max 0 (i + int n)) else min (nat i) n)"

definition pyslice :: "'a list \<Rightarrow> int \<Rightarrow> int \<Rightarrow> 'a list" where
  "pyslice xs a b = take (bound b (length xs) - bound a (length xs)) (drop (bound a (length xs)) xs)"

definition MARKDOWN :: "(string \<times> string \<times> string) list" where
  "MARKDOWN = [(''bold'', ''**'', ''**''), (''italic'', ''_'', ''_''), (''underline'', ''__'', ''__''),
     (''strikethrough'', ''~~'', ''~~''), (''code'', ''`'', ''`''), (''pre'', ''```'', ''```'')]"

definition markdown_range :: "entity \<Rightarrow> bool" where
  "markdown_range e \<longleftrightarrow> (case en_type e of None \<Rightarrow> False | Some k \<Rightarrow> map_of MARKDOWN k \<noteq> None \<or> k = ''text_link'')"

definition wrapped :: "entity \<Rightarrow> ucs \<Rightarrow> ucs" where
  "wrapped e body =
     (if en_type e = Some ''text_link'' then [91] @ body @ [93, 40] @ some_text (en_url e) @ [41]
      else (case map_of MARKDOWN (some_text (en_type e)) of
              None \<Rightarrow> body
            | Some (opener, closer) \<Rightarrow> asc opener @ body @ asc closer))"

fun render_ranges :: "nat list \<Rightarrow> int \<Rightarrow> entity list \<Rightarrow> markdown_error + ucs" where
  "render_ranges us cursor [] =
     (case decode16 (pyslice us cursor (int (length us))) of None \<Rightarrow> Inl Md_decode | Some t \<Rightarrow> Inr t)"
| "render_ranges us cursor (e # es) =
     (let offset = some_int (en_offset e); len = some_int (en_length e)
      in if offset < cursor then render_ranges us cursor es
         else (case (decode16 (pyslice us cursor offset), decode16 (pyslice us offset (offset + len))) of
           (Some before, Some body) \<Rightarrow>
             (case render_ranges us (offset + len) es of
                Inl x \<Rightarrow> Inl x
              | Inr rest \<Rightarrow> Inr (before @ wrapped e body @ rest))
         | _ \<Rightarrow> Inl Md_decode))"

definition entities_to_markdown :: "ucs \<Rightarrow> entity list \<Rightarrow> markdown_error + ucs" where
  "entities_to_markdown t es =
     (let ranges = filter markdown_range es
      in if ranges = [] then Inr t
         else if list_ex surrogate t then Inl Md_encode
         else if list_ex (\<lambda>e. en_offset e = None \<or> en_length e = None) ranges then Inl Md_no_key
         else render_ranges (encode16 t) 0
           (sort_key (\<lambda>e. some_int (en_offset e)) (sort_key (\<lambda>e. - some_int (en_length e)) ranges)))"

subsection \<open>router.py: the message as it stands in Telegram\<close>

record forward_info =
  fw_display_name :: "ucs option"
  fw_chat_name :: "ucs option"
  fw_original_timestamp :: "int option"
  fw_profile_link :: "ucs option"

text \<open>The fields of \<open>IncomingMaxMessage\<close> the renderers read; an attachment by the value of its kind.\<close>

record max_message =
  mm_text :: ucs
  mm_timestamp :: int
  mm_is_outgoing :: bool
  mm_attachments :: "ucs list"
  mm_forward :: "forward_info option"
  mm_edited_at :: "int option"
  mm_elements :: "element list"

record render_context =
  rc_clock :: "int \<Rightarrow> moment option"
  rc_now :: moment
  rc_style :: timestamp_style

definition OWN_MESSAGE_PREFIX :: ucs where "OWN_MESSAGE_PREFIX = [1042, 1099, 58, 32]"

definition stamp_of :: "render_context \<Rightarrow> max_message \<Rightarrow> ucs" where
  "stamp_of rc m =
     (let original = (case mm_forward m of None \<Rightarrow> None | Some f \<Rightarrow> fw_original_timestamp f);
          at = (if original = None \<or> original = Some 0 then Some (mm_timestamp m) else original)
      in format_stamp (rc_clock rc) (rc_now rc) at (rc_style rc) FRESH_WINDOW_SECONDS)"

definition forward_line :: "max_message \<Rightarrow> ucs" where
  "forward_line m =
     (case mm_forward m of
        None \<Rightarrow> []
      | Some f \<Rightarrow> forward_header (if some_text (fw_display_name f) \<noteq> [] then fw_display_name f else fw_chat_name f))"

definition prefix_of :: "render_context \<Rightarrow> max_message \<Rightarrow> ucs" where
  "prefix_of rc m = stamp_of rc m @ (if mm_is_outgoing m then OWN_MESSAGE_PREFIX else []) @ forward_line m"

definition prefix_as_owner :: "render_context \<Rightarrow> max_message \<Rightarrow> ucs" where
  "prefix_as_owner rc m = stamp_of rc m @ forward_line m"

definition edit_mark :: "render_context \<Rightarrow> max_message \<Rightarrow> bool \<Rightarrow> ucs" where
  "edit_mark rc m show =
     (if \<not> show then [] else format_edit_mark (rc_clock rc) (rc_now rc) (mm_edited_at m) (rc_style rc))"

definition caption_of :: "render_context \<Rightarrow> max_message \<Rightarrow> bool \<Rightarrow> ucs" where
  "caption_of rc m mark =
     (let body = ustrip (mm_text m)
      in if body = [] then ustrip (prefix_of rc m) else prefix_of rc m @ body @ edit_mark rc m mark)"

definition caption_as_owner :: "render_context \<Rightarrow> max_message \<Rightarrow> bool \<Rightarrow> ucs" where
  "caption_as_owner rc m mark =
     (let body = ustrip (mm_text m)
      in if body = [] then ustrip (prefix_as_owner rc m) else prefix_as_owner rc m @ body @ edit_mark rc m mark)"

text \<open>\<open>', '.join(sorted({...}))\<close>; Python compares strings by code points.\<close>

fun join_comma :: "ucs list \<Rightarrow> ucs" where
  "join_comma [] = []"
| "join_comma [k] = k"
| "join_comma (k # ks) = k @ [44, 32] @ join_comma ks"

definition kinds_note :: "max_message \<Rightarrow> ucs" where
  "kinds_note m = [91] @ join_comma (sort (remdups (mm_attachments m))) @ [93]"

definition render :: "render_context \<Rightarrow> max_message \<Rightarrow> bool \<Rightarrow> ucs" where
  "render rc m mark =
     (let body0 = ustrip (mm_text m);
          body = (if mm_attachments m \<noteq> [] \<and> body0 = [] then kinds_note m
                  else if mm_attachments m \<noteq> [] then body0 @ [10] @ kinds_note m else body0)
      in if body = [] then (if mm_forward m \<noteq> None then ustrip (prefix_of rc m) else [])
         else prefix_of rc m @ body @ edit_mark rc m mark)"

definition render_as_owner :: "render_context \<Rightarrow> max_message \<Rightarrow> bool \<Rightarrow> ucs" where
  "render_as_owner rc m mark =
     (let body = ustrip (mm_text m)
      in if body = [] then (if mm_forward m \<noteq> None then ustrip (prefix_as_owner rc m) else [])
         else prefix_as_owner rc m @ body @ edit_mark rc m mark)"

definition rstrip_nl :: "ucs \<Rightarrow> ucs" where
  "rstrip_nl t = rev (dropWhile (\<lambda>c. c = 10) (rev t))"

definition removeprefix :: "ucs \<Rightarrow> ucs \<Rightarrow> ucs" where
  "removeprefix p t = (case lit p t of Some r \<Rightarrow> r | None \<Rightarrow> t)"

definition italic :: "int \<Rightarrow> int \<Rightarrow> entity" where
  "italic offset len = \<lparr>en_type = Some ''italic'', en_offset = Some offset, en_length = Some len, en_url = None\<rparr>"

definition forward_entities :: "ucs \<Rightarrow> max_message \<Rightarrow> split_error + entity list" where
  "forward_entities pfx m =
     (let line = forward_line m
      in if line = [] then Inr []
         else if list_ex surrogate (pfx @ line) then Inl Encode_error
         else (let start = int (units pfx) - int (units line); len = int (units (rstrip_nl line))
           in if start < 0 \<or> len \<le> 0 then Inr []
              else (let link = (case mm_forward m of None \<Rightarrow> None | Some f \<Rightarrow> fw_profile_link f);
                        name_length = int (units (ustrip (removeprefix FORWARD_FROM (rstrip_nl line))))
                in Inr (italic start len #
                     (if some_text link \<noteq> [] \<and> name_length \<noteq> 0
                      then [\<lparr>en_type = Some ''text_link'', en_offset = Some (start + len - name_length),
                             en_length = Some name_length, en_url = link\<rparr>] else [])))))"

definition ends_with :: "ucs \<Rightarrow> ucs \<Rightarrow> bool" where
  "ends_with s t \<longleftrightarrow> length s \<le> length t \<and> drop (length t - length s) t = s"

definition mark_entities :: "render_context \<Rightarrow> max_message \<Rightarrow> ucs \<Rightarrow> split_error + entity list" where
  "mark_entities rc m rendered =
     (let mark = edit_mark rc m True
      in if mark = [] \<or> \<not> ends_with mark rendered then Inr []
         else if list_ex surrogate rendered then Inl Encode_error
         else Inr [italic (int (units rendered) - int (units mark)) (int (units mark))])"

definition edit_entities :: "ucs \<Rightarrow> max_message \<Rightarrow> split_error + entity list" where
  "edit_entities pfx m =
     (let entities = elements_to_entities (mm_elements m)
      in if entities \<noteq> [] \<and> list_ex surrogate pfx then Inl Encode_error
         else (case forward_entities pfx m of
           Inl x \<Rightarrow> Inl x
         | Inr fs \<Rightarrow> Inr (fs @ (if entities = [] then entities else shift_entities entities (int (units pfx))))))"

subsection \<open>Every formatting both sides know survives the two translations\<close>

text \<open>An entity as Telegram sends one: typed, placed, not empty, with a target exactly when it is a link.\<close>

definition telegram_entity :: "entity \<Rightarrow> bool" where
  "telegram_entity e \<longleftrightarrow> en_type e \<noteq> None \<and> en_offset e \<noteq> None \<and> 0 < some_int (en_length e)
     \<and> (if en_type e = Some ''text_link'' then some_text (en_url e) \<noteq> [] else en_url e = None)"

definition known_to_max :: "entity \<Rightarrow> bool" where
  "known_to_max e \<longleftrightarrow> some_text (en_type e) \<in> fst ` set TO_MAX"

lemma to_element_None: "to_element e = None \<longleftrightarrow> \<not> known_to_max e"
  by (auto simp: to_element_def known_to_max_def TO_MAX_def SELF_EVIDENT_def Let_def)

lemma to_entity_element:
  assumes "telegram_entity e" "to_element e = Some el"
  shows "to_entity el = Some e"
proof -
  obtain k where k: "en_type e = Some k" using assms(1) by (auto simp: telegram_entity_def)
  obtain n where n: "en_length e = Some n" "n \<noteq> 0"
    using assms(1) by (cases "en_length e") (auto simp: telegram_entity_def some_int_def)
  obtain o' where o: "en_offset e = Some o'" using assms(1) by (auto simp: telegram_entity_def)
  have "known_to_max e" using assms(2) to_element_None[of e] by simp
  then show ?thesis using assms k n o
    by (cases e) (auto simp: to_element_def to_entity_def known_to_max_def TO_MAX_def TO_TELEGRAM_def SELF_EVIDENT_def Let_def
        kind_of_def some_text_def some_int_def upper_char_def telegram_entity_def split: if_splits)
qed

text \<open>What both sides can draw survives both translations: the entities of a Telegram message,
  written as MAX elements and read back, are exactly those whose type MAX has a name for, in order and
  unchanged - same place, same length, same link target. Only spoilers, quotations and custom emoji
  are lost, and what Telegram marks by itself.\<close>

theorem formatting_roundtrip:
  assumes "list_all telegram_entity es"
  shows "elements_to_entities (entities_to_elements es) = filter known_to_max es"
  using assms
proof (induction es)
  case (Cons e es)
  then show ?case
    using to_entity_element[of e] to_element_None[of e]
    by (cases "to_element e") (auto simp: elements_to_entities_def entities_to_elements_def List.map_filter_simps)
qed (simp add: elements_to_entities_def entities_to_elements_def List.map_filter_simps)

theorem formatting_roundtrip_witness:
  "elements_to_entities (entities_to_elements
     [italic 0 4, \<lparr>en_type = Some ''spoiler'', en_offset = Some 5, en_length = Some 2, en_url = None\<rparr>,
      \<lparr>en_type = Some ''text_link'', en_offset = Some 8, en_length = Some 3, en_url = Some [104]\<rparr>])
   = [italic 0 4, \<lparr>en_type = Some ''text_link'', en_offset = Some 8, en_length = Some 3, en_url = Some [104]\<rparr>]"
  by (subst formatting_roundtrip)
    (simp_all add: telegram_entity_def italic_def some_int_def some_text_def known_to_max_def TO_MAX_def)

end
