(* ===== verification/Rendering_Laws.thy ===== *)
theory Rendering_Laws
  imports Rendering
begin

section \<open>What is drawn can be taken off, and no word is lost\<close>

text \<open>
  The two laws of the renderers: \<open>strip_presentation\<close> takes off exactly what \<open>format_stamp\<close>,
  \<open>forward_header\<close> and \<open>format_edit_mark\<close> drew, and \<open>entities_to_markdown\<close> only ever adds to a text.
\<close>

subsection \<open>The matchers on what the renderers print\<close>

text \<open>Years of four digits, which is every timestamp a \<open>datetime\<close> of this millennium can be.\<close>

definition clock_ok :: "(int \<Rightarrow> moment option) \<Rightarrow> bool" where
  "clock_ok clock \<longleftrightarrow> (\<forall>t m. clock t = Some m \<longrightarrow> 1000 \<le> mo_year m \<and> mo_year m \<le> 9999)"

lemma is_digit_ascii [simp]: "is_digit (48 + n mod 10)" "is_digit (48 + n div 10 mod 10)"
  by (simp_all add: is_digit_def digit_starts_def)

lemma not_digit [simp]: "\<not> is_digit 40" "\<not> is_digit 47" "\<not> is_digit 58" "\<not> is_digit 32"
  by (simp_all add: is_digit_def digit_starts_def)

lemma lit_append [simp]: "lit p (p @ t) = Some t"
  by (induction p) simp_all

lemma lit_Some: "lit p t = Some r \<longleftrightarrow> t = p @ r"
  by (induction p t rule: lit.induct) auto

lemma digits_pad2 [simp]: "digits (Suc (Suc 0)) (pad2 n @ t) = Some t"
  by (simp add: pad2_def)

lemma digit_char_code: "d < 10 \<Longrightarrow> of_char (digit_char d) = 48 + d"
  by (simp add: digit_char_def)

lemma show_four:
  assumes "1000 \<le> y" "y \<le> 9999"
  shows "asc (show_nat y) = [48 + y div 1000, 48 + y div 100 mod 10, 48 + y div 10 mod 10, 48 + y mod 10]"
proof -
  have *: "\<not> y < 10" "\<not> y div 10 < 10" "\<not> y div 100 < 10" "y div 1000 < 10" using assms by simp_all
  have "y div 10 div 10 = y div 100" "y div 100 div 10 = y div 1000" by (simp_all add: div_mult2_eq[symmetric])
  then show ?thesis using *
    by (simp add: asc_def show_nat.simps[of y] show_nat.simps[of "y div 10"] show_nat.simps[of "y div 100"]
        show_nat.simps[of "y div 1000"] digit_char_code)
qed

lemma digits_year:
  assumes "1000 \<le> y" "y \<le> 9999"
  shows "digits 4 (asc (show_nat y) @ t) = Some t"
proof -
  have "y div 1000 = y div 1000 mod 10" using assms by simp
  then have "is_digit (48 + y div 1000)" using is_digit_ascii(1)[of "y div 1000"] by simp
  moreover have "is_digit (48 + y div 100 mod 10)" using is_digit_ascii(1)[of "y div 100"] by simp
  moreover have "4 = Suc (Suc (Suc (Suc 0)))" by simp
  ultimately show ?thesis by (simp only: show_four[OF assms] append_Cons append_Nil digits.simps is_digit_ascii if_True)
qed

lemma date_match_short [simp]: "date_match (day_month m @ 32 # t) = Some (32 # t)"
  by (simp add: date_match_def day_month_def numeral_eq_Suc)

lemma date_match_long:
  assumes "1000 \<le> mo_year m" "mo_year m \<le> 9999"
  shows "date_match (day_month_year m @ t) = Some t"
  by (simp add: date_match_def day_month_year_def day_month_def numeral_2_eq_2 digits_year[OF assms])

lemma date_match_clock [simp]: "date_match (hour_minute m @ t) = None"
  by (simp add: date_match_def hour_minute_def numeral_2_eq_2)

lemma clock_match_clock [simp]: "clock_match (hour_minute m @ t) = Some t"
  by (simp add: clock_match_def hour_minute_def numeral_2_eq_2)

lemma the_moment_ok:
  "clock_ok clock \<Longrightarrow> the_moment clock ts = Some m \<Longrightarrow> 1000 \<le> mo_year m \<and> mo_year m \<le> 9999"
  unfolding the_moment_def clock_ok_def by (auto split: option.splits if_splits)

lemma stamp_match_stamp:
  assumes "clock_ok clock" "format_stamp clock now ts style fresh \<noteq> []"
  shows "stamp_match (format_stamp clock now ts style fresh @ t) = Some t"
proof -
  obtain m where m: "the_moment clock ts = Some m" using assms(2) by (auto simp: format_stamp_def split: option.splits if_splits)
  have y: "1000 \<le> mo_year m" "mo_year m \<le> 9999" using the_moment_ok[OF assms(1) m] by auto
  show ?thesis using assms(2) m date_match_long[OF y]
    by (auto simp: format_stamp_def stamp_match_def split: if_splits)
qed

lemma forward_match_header:
  assumes "10 \<notin> set (ustrip (case name of None \<Rightarrow> [] | Some n \<Rightarrow> n))"
  shows "forward_match (forward_header name @ t) = Some t"
proof -
  have drop: "dropWhile (\<lambda>c. c \<noteq> 10) (w @ 10 # t) = 10 # t" if "10 \<notin> set w" for w :: ucs
    using that by (induction w) auto
  let ?c = "ustrip (case name of None \<Rightarrow> [] | Some n \<Rightarrow> n)"
  show ?thesis
  proof (cases "?c = []")
    case True
    then show ?thesis by (simp add: forward_header_def forward_match_def FORWARD_ANONYMOUS_def ARROW_def)
  next
    case False
    then show ?thesis using drop[OF assms]
      by (simp add: forward_header_def forward_match_def FORWARD_FROM_def ARROW_def)
  qed
qed

lemma stamp_match_arrow: "stamp_match (ARROW # t) = None"
  by (simp add: stamp_match_def ARROW_def)

lemma forward_header_arrow: "\<exists>r. forward_header name = ARROW # r"
  by (simp add: forward_header_def FORWARD_FROM_def FORWARD_ANONYMOUS_def Let_def)

subsection \<open>The edit mark\<close>

abbreviation mark_open :: ucs where "mark_open \<equiv> [32, 40] @ EDIT_MARK @ [32]"

lemma digits_Some: "digits n t = Some r \<Longrightarrow> \<exists>ds. t = ds @ r \<and> 40 \<notin> set ds"
proof (induction n t rule: digits.induct)
  case (3 n c t)
  then obtain ds where "t = ds @ r" "40 \<notin> set ds" "is_digit c" by (auto split: if_splits)
  then have "c # t = (c # ds) @ r \<and> 40 \<notin> set (c # ds)" by auto
  then show ?case by blast
qed simp_all

lemma clock_match_Some: "clock_match t = Some r \<Longrightarrow> \<exists>ds. t = ds @ r \<and> 40 \<notin> set ds"
proof -
  assume "clock_match t = Some r"
  then obtain a b where 1: "digits 2 t = Some a" "lit [58] a = Some b" "digits 2 b = Some r"
    by (auto simp: clock_match_def bind_eq_Some_conv)
  obtain u v where "t = u @ a" "40 \<notin> set u" "b = v @ r" "40 \<notin> set v"
    using digits_Some[OF 1(1)] digits_Some[OF 1(3)] by blast
  then have "t = (u @ 58 # v) @ r \<and> 40 \<notin> set (u @ 58 # v)" using 1(2) by (simp add: lit_Some)
  then show ?thesis by blast
qed

lemma date_match_Some: "date_match t = Some r \<Longrightarrow> \<exists>ds. t = ds @ r \<and> 40 \<notin> set ds"
proof -
  assume "date_match t = Some r"
  then obtain a b c where 1: "digits 2 t = Some a" "lit [47] a = Some b" "digits 2 b = Some c"
    and c: "(case Option.bind (lit [47] c) (digits 4) of Some r \<Rightarrow> Some r | None \<Rightarrow> Some c) = Some r"
    by (auto simp: date_match_def bind_eq_Some_conv)
  obtain u v where uv: "t = u @ a" "40 \<notin> set u" "b = v @ c" "40 \<notin> set v"
    using digits_Some[OF 1(1)] digits_Some[OF 1(3)] by blast
  have "\<exists>w. c = w @ r \<and> 40 \<notin> set w"
  proof (cases "Option.bind (lit [47] c) (digits 4)")
    case None
    then have "c = [] @ r \<and> 40 \<notin> set ([] :: ucs)" using c by simp
    then show ?thesis by blast
  next
    case (Some x)
    then obtain d where d: "lit [47] c = Some d" "digits 4 d = Some r" using c by (auto simp: bind_eq_Some_conv)
    then obtain w where "d = w @ r" "40 \<notin> set w" using digits_Some[OF d(2)] by blast
    then have "c = (47 # w) @ r \<and> 40 \<notin> set (47 # w)" using d(1) by (simp add: lit_Some)
    then show ?thesis by blast
  qed
  then obtain w where "c = w @ r" "40 \<notin> set w" by blast
  then have "t = (u @ 47 # v @ w) @ r \<and> 40 \<notin> set (u @ 47 # v @ w)" using uv 1(2) by (simp add: lit_Some)
  then show ?thesis by blast
qed

lemma mark_match_Some: "mark_match t = Some r \<Longrightarrow> \<exists>ds. t = mark_open @ ds @ 41 # r \<and> 40 \<notin> set ds"
proof -
  assume "mark_match t = Some r"
  then obtain a b where 1: "lit mark_open t = Some a"
    "clock_match (case Option.bind (date_match a) (lit [32]) of Some r \<Rightarrow> r | None \<Rightarrow> a) = Some b" "lit [41] b = Some r"
    unfolding mark_match_def bind_eq_Some_conv by blast
  have "\<exists>ds. a = ds @ b \<and> 40 \<notin> set ds"
  proof (cases "Option.bind (date_match a) (lit [32])")
    case None
    then show ?thesis using clock_match_Some[of a b] 1(2) by simp
  next
    case (Some c)
    then obtain d where "date_match a = Some d" "d = 32 # c" by (auto simp: bind_eq_Some_conv lit_Some)
    then obtain u where u: "a = u @ 32 # c" "40 \<notin> set u" using date_match_Some[of a d] by blast
    obtain v where v: "c = v @ b" "40 \<notin> set v" using clock_match_Some[of c b] 1(2) Some by auto
    then have "a = (u @ 32 # v) @ b \<and> 40 \<notin> set (u @ 32 # v)" using u by simp
    then show ?thesis by blast
  qed
  then obtain ds where ds: "a = ds @ b" "40 \<notin> set ds" by blast
  then have "t = mark_open @ ds @ 41 # r" using 1(1,3) unfolding lit_Some by simp
  then show ?thesis using ds(2) by blast
qed

lemma mark_match_mark:
  assumes "clock_ok clock" "format_edit_mark clock now at style \<noteq> []"
  shows "mark_match (format_edit_mark clock now at style) = Some []"
proof -
  let ?s = "format_clock clock now at"
  have e: "format_edit_mark clock now at style = mark_open @ ?s @ [41]" "?s \<noteq> []"
    using assms(2) by (auto simp: format_edit_mark_def Let_def split: if_splits)
  obtain m where m: "the_moment clock at = Some m" using e(2) by (auto simp: format_clock_def split: option.splits)
  have y: "1000 \<le> mo_year m" "mo_year m \<le> 9999" using the_moment_ok[OF assms(1) m] by auto
  have "clock_match (case Option.bind (date_match (?s @ [41])) (lit [32]) of Some r \<Rightarrow> r | None \<Rightarrow> ?s @ [41]) = Some [41]"
    using m date_match_long[OF y] by (simp add: format_clock_def)
  then show ?thesis unfolding e mark_match_def lit_append by simp
qed

lemma strip_mark_append:
  assumes m: "mark_match mark = Some []"
  shows "strip_mark (body @ mark) = body"
proof (induction body)
  case Nil
  obtain c t where "mark = c # t" using m by (cases mark) (auto simp: mark_match_def)
  then show ?case using m by simp
next
  case (Cons c body)
  obtain ds where ds: "mark = mark_open @ ds @ [41]" "40 \<notin> set ds" using mark_match_Some[OF m] by auto
  have "r \<noteq> [] \<and> r \<noteq> [10]" if r: "mark_match ((c # body) @ mark) = Some r" for r
  proof -
    obtain es where es: "(c # body) @ mark = mark_open @ es @ 41 # r" "40 \<notin> set es" using mark_match_Some[OF r] by blast
    have "last ((c # body) @ mark) = 41" using ds(1) by simp
    moreover have "last (mark_open @ es @ 41 # [10]) = 10" by simp
    ultimately have "r \<noteq> [10]" using es(1) by (metis numeral_eq_iff semiring_norm(88))
    moreover have "r \<noteq> []"
    proof
      assume "r = []"
      then have eq: "c # body @ 32 # 40 # EDIT_MARK @ 32 # ds @ [41] = 32 # 40 # EDIT_MARK @ 32 # es @ [41]" using es(1) ds(1) by simp
      have "40 \<in> set (EDIT_MARK @ 32 # es @ [41])"
      proof (cases body)
        case Nil
        then show ?thesis using eq by (simp add: EDIT_MARK_def)
      next
        case (Cons d body')
        then have "body' @ 32 # 40 # EDIT_MARK @ 32 # ds @ [41] = EDIT_MARK @ 32 # es @ [41]" using eq by simp
        then show ?thesis by (metis in_set_conv_decomp append_Cons append_assoc append_Nil)
      qed
      then show False using es(2) by (simp add: EDIT_MARK_def)
    qed
    ultimately show ?thesis by blast
  qed
  then show ?case using Cons by (auto split: option.split)
qed

lemma strip_mark_nothing: "strip_mark body = body \<Longrightarrow> strip_mark (body @ []) = body" by simp

subsection \<open>An owner edit carries the owner's words\<close>

lemma dropWhile_idem: "dropWhile P (dropWhile P t) = dropWhile P t"
  by (induction t) auto

lemma dropWhile_rev_dropWhile:
  assumes "dropWhile P d = d"
  shows "dropWhile P (rev (dropWhile P (rev d))) = rev (dropWhile P (rev d))"
proof (cases d)
  case (Cons c t)
  then have c: "\<not> P c" using hd_dropWhile[of P d] assms by simp
  have "rev (dropWhile P (rev d)) = c # rev (dropWhile P (rev t))"
    using c Cons by (simp add: dropWhile_append)
  then show ?thesis using c by simp
qed simp

lemma ustrip_idem [simp]: "ustrip (ustrip t) = ustrip t"
  unfolding ustrip_def
  by (simp add: dropWhile_rev_dropWhile[OF dropWhile_idem] dropWhile_idem)

definition forward_name :: "max_message \<Rightarrow> ucs" where
  "forward_name m = (case mm_forward m of None \<Rightarrow> []
     | Some f \<Rightarrow> ustrip (some_text (if some_text (fw_display_name f) \<noteq> [] then fw_display_name f else fw_chat_name f)))"



lemma strip_mark_no_paren: "40 \<notin> set t \<Longrightarrow> strip_mark t = t"
proof (induction t)
  case (Cons c t)
  have "mark_match (c # t) = None"
  proof (rule ccontr)
    assume "mark_match (c # t) \<noteq> None"
    then obtain ds r where "c # t = mark_open @ ds @ 41 # r" using mark_match_Some[of "c # t"] by blast
    then have "40 \<in> set (c # t)" by (metis append_Cons in_set_conv_decomp append_assoc append_Nil)
    then show False using Cons.prems by simp
  qed
  then show ?case using Cons by simp
qed simp

lemma no_paren: "40 \<notin> set (pad2 n)" "40 \<notin> set (day_month m)" "40 \<notin> set (hour_minute m)"
  by (simp_all add: pad2_def day_month_def hour_minute_def)

lemma bare_stamp:
  assumes "clock_ok clock" "format_stamp clock now ts style fresh \<noteq> []"
  shows "\<exists>d. format_stamp clock now ts style fresh = 91 # d @ [93, 32] \<and> stamp_match (91 # d @ [93]) = None \<and> 40 \<notin> set d"
proof -
  obtain m where m: "the_moment clock ts = Some m" using assms(2) by (auto simp: format_stamp_def split: option.splits if_splits)
  have y: "1000 \<le> mo_year m" "mo_year m \<le> 9999" using the_moment_ok[OF assms(1) m] by auto
  have long: "40 \<notin> set (day_month_year m)" by (simp add: day_month_year_def no_paren show_four[OF y])
  consider "format_stamp clock now ts style fresh = 91 # (day_month_year m @ [32] @ hour_minute m) @ [93, 32]"
    | "format_stamp clock now ts style fresh = 91 # (day_month m @ [32] @ hour_minute m) @ [93, 32]"
    using assms(2) m by (auto simp: format_stamp_def split: if_splits)
  then show ?thesis
  proof cases
    case 1
    moreover have "stamp_match (91 # (day_month_year m @ [32] @ hour_minute m) @ [93]) = None"
      using date_match_long[OF y] by (simp add: stamp_match_def)
    ultimately show ?thesis using long no_paren by (intro exI[of _ "day_month_year m @ [32] @ hour_minute m"]) simp
  next
    case 2
    moreover have "stamp_match (91 # (day_month m @ [32] @ hour_minute m) @ [93]) = None"
      by (simp add: stamp_match_def)
    ultimately show ?thesis using no_paren by (intro exI[of _ "day_month m @ [32] @ hour_minute m"]) simp
  qed
qed

text \<open>A decoration that stands alone is not recognised. A message whose body is empty is drawn as its
  prefix with the outer blanks stripped, so the stamp has lost the space and the forward line the
  newline the patterns end with: an owner edit of such a message - a photograph under a bare stamp, a
  forwarded album - is carried into MAX with the decoration in it.\<close>

theorem bare_decoration_is_carried:
  assumes "clock_ok (rc_clock rc)" "ustrip (mm_text m) = []" "mm_forward m = None" "stamp_of rc m \<noteq> []"
  shows "strip_presentation (caption_as_owner rc m mark) = ustrip (stamp_of rc m) \<and> ustrip (stamp_of rc m) \<noteq> []"
proof -
  obtain d where d: "stamp_of rc m = 91 # d @ [93, 32]" "stamp_match (91 # d @ [93]) = None" "40 \<notin> set d"
    using bare_stamp[OF assms(1)] assms(4) unfolding stamp_of_def Let_def by metis
  have u: "ustrip (stamp_of rc m) = 91 # d @ [93]" by (simp add: d(1) ustrip_def isspace_def)
  have "strip_mark (91 # d @ [93]) = 91 # d @ [93]" by (rule strip_mark_no_paren) (simp add: d(3))
  then show ?thesis using assms(2,3) u d(2)
    by (simp add: caption_as_owner_def prefix_as_owner_def forward_line_def strip_presentation_def drop_match_def
        forward_match_def ARROW_def)
qed

theorem bare_decoration_is_carried_witness:
  "strip_presentation (caption_as_owner
     \<lparr>rc_clock = (\<lambda>t. Some \<lparr>mo_at = t * 1000, mo_year = 2026, mo_month = 7, mo_day = 28, mo_hour = 9, mo_minute = 14\<rparr>),
      rc_now = \<lparr>mo_at = 900000000000, mo_year = 2026, mo_month = 7, mo_day = 29, mo_hour = 1, mo_minute = 2\<rparr>, rc_style = STYLE_COMPACT\<rparr>
     \<lparr>mm_text = [], mm_timestamp = 1000, mm_is_outgoing = True, mm_attachments = [[112]], mm_forward = None,
      mm_edited_at = None, mm_elements = []\<rparr> True)
   = asc ''[28/07 09:14]''"
  by (subst bare_decoration_is_carried[THEN conjunct1])
    (simp_all add: clock_ok_def ustrip_def isspace_def stamp_of_def format_stamp_def the_moment_def day_month_def
      hour_minute_def pad2_def FRESH_WINDOW_SECONDS_def asc_def)

subsection \<open>Markdown only adds\<close>

lemma encode16_append: "encode16 (a @ b) = encode16 a @ encode16 b"
  by (induction a rule: encode16.induct) simp_all

lemma length_encode16: "length (encode16 t) = units t"
  by (induction t rule: encode16.induct) (simp_all add: units_def width_def)

definition python_text :: "ucs \<Rightarrow> bool" where
  "python_text t \<longleftrightarrow> list_all (\<lambda>c. c < 1114112) t"

lemma decode16_plain:
  assumes "\<not> (55296 \<le> u \<and> u \<le> 56319)" "\<not> (56320 \<le> u \<and> u \<le> 57343)"
  shows "decode16 (u # us) = map_option ((#) u) (decode16 us)"
  using assms by (simp only: decode16.simps if_False)

lemma decode_encode: "python_text t \<Longrightarrow> \<not> list_ex surrogate t \<Longrightarrow> decode16 (encode16 t) = Some t"
proof (induction t rule: encode16.induct)
  case (2 c t)
  then have ih: "decode16 (encode16 t) = Some t" and c: "c < 1114112" "\<not> surrogate c" by (auto simp: python_text_def)
  show ?case
  proof (cases "c > 65535")
    case True
    then have "(c - 65536) div 1024 < 1024" "(c - 65536) mod 1024 < 1024" using c by (auto simp: less_mult_imp_div_less)
    moreover have "65536 + ((c - 65536) div 1024) * 1024 + (c - 65536) mod 1024 = c" using True by simp
    ultimately show ?thesis using True ih by simp
  next
    case False
    have "\<not> (55296 \<le> c \<and> c \<le> 56319)" "\<not> (56320 \<le> c \<and> c \<le> 57343)" using c(2) by (auto simp: surrogate_def)
    then show ?thesis using ih False by (simp add: decode16_plain del: decode16.simps)
  qed
qed simp

lemma decode16_append: "decode16 a = Some x \<Longrightarrow> decode16 b = Some y \<Longrightarrow> decode16 (a @ b) = Some (x @ y)"
proof (induction a arbitrary: x rule: decode16.induct)
  case (2 u us)
  show ?case
  proof (cases "55296 \<le> u \<and> u \<le> 56319")
    case True
    then obtain v vs where us: "us = v # vs" using 2(3) by (cases us) auto
    then obtain x' where "56320 \<le> v \<and> v \<le> 57343" "decode16 vs = Some x'"
      "x = (65536 + (u - 55296) * 1024 + (v - 56320)) # x'"
      using 2(3) True by (auto split: if_splits)
    then show ?thesis using 2(1)[OF True us] 2(4) True us by simp
  next
    case False
    then have n: "\<not> (56320 \<le> u \<and> u \<le> 57343)" using 2(3) by (simp split: if_splits)
    then obtain x' where "decode16 us = Some x'" "x = u # x'" using 2(3) decode16_plain[OF False n] by auto
    then show ?thesis using 2(2)[OF False n] 2(4) decode16_plain[OF False n] by simp
  qed
qed simp

lemma pyslice_join:
  assumes "0 \<le> a" "a \<le> b" "b \<le> c"
  shows "pyslice us a c = pyslice us a b @ pyslice us b c"
proof -
  let ?n = "length us"
  have le: "bound a ?n \<le> bound b ?n" "bound b ?n \<le> bound c ?n" using assms by (auto simp: bound_def)
  have "take (bound c ?n - bound a ?n) (drop (bound a ?n) us)
      = take (bound b ?n - bound a ?n) (drop (bound a ?n) us)
        @ take (bound c ?n - bound a ?n - (bound b ?n - bound a ?n)) (drop (bound b ?n - bound a ?n) (drop (bound a ?n) us))"
    using le by (metis diff_le_mono le_add_diff_inverse take_add)
  then show ?thesis using le by (simp add: pyslice_def)
qed

lemma pyslice_beyond: "0 \<le> a \<Longrightarrow> int (length us) \<le> a \<Longrightarrow> pyslice us a b = []"
  by (simp add: pyslice_def bound_def)

lemma pyslice_all: "pyslice us 0 (int (length us)) = us"
  by (simp add: pyslice_def bound_def)

lemma pyslice_tail:
  assumes "0 \<le> a" "a \<le> b"
  shows "pyslice us a (int (length us)) = pyslice us a b @ pyslice us b (int (length us))"
proof (cases "b \<le> int (length us)")
  case True
  then show ?thesis using pyslice_join assms by blast
next
  case False
  then have "bound b (length us) = length us" using assms by (simp add: bound_def)
  moreover have "bound (int (length us)) (length us) = length us" by (simp add: bound_def)
  ultimately show ?thesis by (simp add: pyslice_def)
qed

lemma wrapped_keeps: "subseq body (wrapped e body)"
proof -
  have "\<exists>a b. wrapped e body = a @ body @ b"
    by (auto simp: wrapped_def split: option.split) (metis append_Nil append_Nil2 append_Cons)+
  then obtain a b where "wrapped e body = a @ body @ b" by blast
  then show ?thesis by (simp add: subseq_drop_many subseq_rev_drop_many)
qed

lemma render_ranges_keeps:
  assumes "render_ranges us cursor es = Inr out" "0 \<le> cursor" "\<forall>e\<in>set es. 0 \<le> some_int (en_length e)"
  shows "\<exists>x. decode16 (pyslice us cursor (int (length us))) = Some x \<and> subseq x out"
  using assms
proof (induction us cursor es arbitrary: out rule: render_ranges.induct)
  case (1 us cursor)
  then show ?case by (auto split: option.splits)
next
  case (2 us cursor e es)
  let ?o = "some_int (en_offset e)" and ?l = "some_int (en_length e)"
  show ?case
  proof (cases "?o < cursor")
    case True
    then show ?thesis using 2 by simp
  next
    case False
    obtain a b r where p: "decode16 (pyslice us cursor ?o) = Some a" "decode16 (pyslice us ?o (?o + ?l)) = Some b"
      "render_ranges us (?o + ?l) es = Inr r" "out = a @ wrapped e b @ r"
      using 2(3) False by (auto simp: Let_def split: option.splits sum.splits)
    have "\<exists>x. decode16 (pyslice us (?o + ?l) (int (length us))) = Some x \<and> subseq x r"
      using 2(2)[OF refl refl _ _ _ _ p(3)] False p(1,2) 2(4,5) by auto
    then obtain x where x: "decode16 (pyslice us (?o + ?l) (int (length us))) = Some x" "subseq x r" by blast
    have "pyslice us cursor (int (length us)) = pyslice us cursor ?o @ pyslice us ?o (?o + ?l) @ pyslice us (?o + ?l) (int (length us))"
      using pyslice_tail[of cursor ?o us] pyslice_tail[of ?o "?o + ?l" us] False 2(4,5) by simp
    then have "decode16 (pyslice us cursor (int (length us))) = Some (a @ b @ x)"
      using p(1,2) x(1) by (simp add: decode16_append)
    moreover have "subseq (a @ b @ x) (a @ wrapped e b @ r)"
      by (intro list_emb_append_mono wrapped_keeps x(2)) simp
    ultimately show ?thesis using p(4) by blast
  qed
qed

text \<open>Where a range may begin or end without cutting a character in two.\<close>

definition char_boundary :: "ucs \<Rightarrow> int \<Rightarrow> bool" where
  "char_boundary t k \<longleftrightarrow> k \<in> set (map (\<lambda>i. int (units (take i t))) [0..<length t + 1]) \<or> int (units t) \<le> k"

lemma units_append: "units (a @ b) = units a + units b"
  by (simp add: units_def)

lemma char_boundary_min:
  "char_boundary t k \<Longrightarrow> 0 \<le> k \<Longrightarrow> \<exists>i\<le>length t. bound k (units t) = units (take i t)"
proof -
  have le: "units (take i t) \<le> units t" for i
    by (metis append_take_drop_id le_add1 units_append)
  assume "char_boundary t k" "0 \<le> k"
  then consider i where "i \<le> length t" "k = int (units (take i t))" | "int (units t) \<le> k"
    unfolding char_boundary_def set_map set_upt image_iff by (metis atLeastLessThan_iff less_Suc_eq_le Suc_eq_plus1)
  then show ?thesis
  proof cases
    case 1
    then show ?thesis using le[of i] by (intro exI[of _ i]) (simp add: bound_def)
  next
    case 2
    then show ?thesis by (intro exI[of _ "length t"]) (simp add: bound_def)
  qed
qed

lemma drop_encode: "drop (units (take i t)) (encode16 t) = encode16 (drop i t)"
proof -
  have "encode16 t = encode16 (take i t) @ encode16 (drop i t)" by (simp flip: encode16_append)
  then show ?thesis by (simp add: length_encode16)
qed

lemma decode_slice:
  assumes "python_text t" "\<not> list_ex surrogate t" "char_boundary t a" "char_boundary t b" "0 \<le> a" "0 \<le> b"
  shows "decode16 (pyslice (encode16 t) a b) \<noteq> None"
proof -
  obtain i j where i: "bound a (units t) = units (take i t)" and j: "bound b (units t) = units (take j t)"
    using char_boundary_min assms by meson
  have s: "pyslice (encode16 t) a b = take (units (take j t) - units (take i t)) (encode16 (drop i t))"
    by (simp add: pyslice_def length_encode16 i j drop_encode)
  have ok: "python_text (take n (drop m t))" "\<not> list_ex surrogate (take n (drop m t))" for n m
    using assms(1,2) by (auto simp: python_text_def list_ex_iff list_all_iff dest: in_set_takeD in_set_dropD)
  show ?thesis
  proof (cases "i \<le> j")
    case True
    then have "take j t = take i t @ take (j - i) (drop i t)" by (metis le_add_diff_inverse take_add)
    then have n: "units (take j t) - units (take i t) = units (take (j - i) (drop i t))" by (simp add: units_def)
    have "encode16 (drop i t) = encode16 (take (j - i) (drop i t)) @ encode16 (drop (j - i) (drop i t))"
      by (metis append_take_drop_id encode16_append)
    then have "take (units (take (j - i) (drop i t))) (encode16 (drop i t)) = encode16 (take (j - i) (drop i t))"
      by (metis append_eq_conv_conj length_encode16)
    then show ?thesis using decode_encode[OF ok] by (simp add: s n)
  next
    case False
    then have "take i t = take j t @ take (i - j) (drop j t)" by (metis le_add_diff_inverse nat_le_linear take_add)
    then have "units (take j t) - units (take i t) = 0" by (simp add: units_def)
    then show ?thesis by (simp add: s)
  qed
qed

lemma render_ranges_total:
  assumes "python_text t" "\<not> list_ex surrogate t" "char_boundary t cursor" "0 \<le> cursor"
    "\<forall>e\<in>set es. char_boundary t (some_int (en_offset e)) \<and> char_boundary t (some_int (en_offset e) + some_int (en_length e))
       \<and> 0 \<le> some_int (en_offset e) \<and> 0 \<le> some_int (en_length e)"
  shows "\<exists>out. render_ranges (encode16 t) cursor es = Inr out"
  using assms(3-)
proof (induction es arbitrary: cursor)
  case Nil
  have "char_boundary t (int (length (encode16 t)))" by (simp add: char_boundary_def length_encode16)
  then have "decode16 (pyslice (encode16 t) cursor (int (length (encode16 t)))) \<noteq> None"
    using decode_slice[OF assms(1,2), of cursor "int (length (encode16 t))"] Nil by simp
  then show ?case by (auto split: option.split)
next
  case (Cons e es)
  let ?o = "some_int (en_offset e)" and ?l = "some_int (en_length e)"
  show ?case
  proof (cases "?o < cursor")
    case True
    then show ?thesis using Cons by simp
  next
    case False
    have "decode16 (pyslice (encode16 t) cursor ?o) \<noteq> None" "decode16 (pyslice (encode16 t) ?o (?o + ?l)) \<noteq> None"
      using decode_slice[OF assms(1,2), of cursor ?o] decode_slice[OF assms(1,2), of ?o "?o + ?l"] Cons.prems by simp_all
    moreover have "\<exists>out. render_ranges (encode16 t) (?o + ?l) es = Inr out"
      using Cons.IH[of "?o + ?l"] Cons.prems by simp
    ultimately show ?thesis using False by (auto simp: Let_def)
  qed
qed

text \<open>A range as Telegram reports one: placed, and cutting no character in two.\<close>

definition placed_in :: "ucs \<Rightarrow> entity \<Rightarrow> bool" where
  "placed_in t e \<longleftrightarrow> en_offset e \<noteq> None \<and> en_length e \<noteq> None \<and> 0 \<le> some_int (en_offset e) \<and> 0 \<le> some_int (en_length e)
     \<and> char_boundary t (some_int (en_offset e)) \<and> char_boundary t (some_int (en_offset e) + some_int (en_length e))"

text \<open>Formatting never loses a word. Whatever ranges a Telegram message carries - nested, overlapping,
  running past the end - the markdown MAX is given is made, and the message's own characters
  are all in it, in their order: the renderer only ever adds markers around them.\<close>

theorem markdown_keeps_the_text:
  assumes "python_text t" "\<not> list_ex surrogate t" "list_all (placed_in t) es"
  shows "\<exists>out. entities_to_markdown t es = Inr out \<and> subseq t out"
proof (cases "filter markdown_range es = []")
  case True
  then show ?thesis by (simp add: entities_to_markdown_def)
next
  case False
  let ?rs = "sort_key (\<lambda>e. some_int (en_offset e)) (sort_key (\<lambda>e. - some_int (en_length e)) (filter markdown_range es))"
  have p: "placed_in t e" if "e \<in> set ?rs" for e using that assms(3) by (simp add: list_all_iff)
  have key: "\<not> list_ex (\<lambda>e. en_offset e = None \<or> en_length e = None) (filter markdown_range es)"
    using assms(3) by (auto simp: list_ex_iff list_all_iff placed_in_def)
  have 0: "char_boundary t 0" by (auto simp: char_boundary_def units_def intro!: image_eqI[of _ _ 0])
  obtain out where out: "render_ranges (encode16 t) 0 ?rs = Inr out"
    using render_ranges_total[OF assms(1,2) 0, of ?rs] p by (auto simp: placed_in_def)
  then have "\<exists>x. decode16 (pyslice (encode16 t) 0 (int (length (encode16 t)))) = Some x \<and> subseq x out"
    using render_ranges_keeps[OF out] p by (simp add: placed_in_def)
  then have "subseq t out" by (simp add: pyslice_all decode_encode[OF assms(1,2)])
  then show ?thesis using False key assms(2) out by (simp add: entities_to_markdown_def)
qed

theorem markdown_keeps_the_text_witness:
  "\<exists>out. entities_to_markdown [128512, 104, 105] [italic 2 1, italic 0 3] = Inr out \<and> subseq [128512, 104, 105] out"
  by (rule markdown_keeps_the_text)
    (simp_all add: python_text_def surrogate_def placed_in_def italic_def some_int_def char_boundary_def units_def width_def upt_rec)

text \<open>A range inside another is dropped, although the comment says the sort keeps nesting.\<close>

lemma nested_range_is_dropped:
  "entities_to_markdown (asc ''abc'') [italic 0 3, (italic 1 1)\<lparr>en_type := Some ''bold''\<rparr>] = Inr (asc ''_abc_'')"
  by (simp add: entities_to_markdown_def markdown_range_def MARKDOWN_def italic_def some_int_def asc_def surrogate_def pyslice_def
      bound_def wrapped_def some_text_def take_Cons' drop_Cons')

end
