(* ===== verification/Owner_Mutation.thy ===== *)
theory Owner_Mutation
  imports Presentation Contact_State Owner_Inbox Media_Groups Pipe SourceKeys
begin

section \<open>The owner's edits and deletions\<close>

text \<open>
  \<open>routing/owner_mutation.py\<close> and the owner half of \<open>routing/router.py\<close>: an edit or a deletion becomes a
  durable job that names the send it depends on, and the resolvers read that send's state when the job
  runs. MAX is an argument: a function that is given one remote call and the state of the world
  outside, and answers with the failure, if any, and the new state. A resolver answers \<open>Inl\<close> for what it
  raises and \<open>Inr\<close> for the remote id it returns.
\<close>

datatype max_op =
    Delete_messages int "int list"
  | Edit_text int int string
  | Add_reaction int int string
  | Remove_reaction int int

type_synonym 'm max_client = "max_op \<Rightarrow> 'm \<Rightarrow> failure option \<times> 'm"

record 'm mutation_world =
  mw_outbox :: outbox
  mw_links :: message_map
  mw_parts :: "media_groups option"
  mw_max :: 'm

definition WAIT_MS :: int where "WAIT_MS = 1000"

subsection \<open>Keys and payloads\<close>

text \<open>The keys over the text a message is filed under; \<open>SourceKeys\<close> has them over the structured name.\<close>

definition owner_delete_key :: "int \<Rightarrow> string \<Rightarrow> string" where
  "owner_delete_key acct key = ''tg-owner-delete:'' @ show_int acct @ '':'' @ key"

definition owner_edit_key :: "int \<Rightarrow> string \<Rightarrow> int \<Rightarrow> string \<Rightarrow> string" where
  "owner_edit_key acct key pts fp =
     ''tg-owner-edit:'' @ show_int acct @ '':'' @ key @ '':'' @ show_int pts @ '':'' @ fp"

lemma owner_keys: "owner_delete_key a (ref_text r) = delete_source_key a r"
  "owner_edit_key a (ref_text r) p f = edit_source_key a r p f"
  by (simp_all add: owner_delete_key_def delete_source_key_def owner_edit_key_def edit_source_key_def)

definition jget :: "string \<Rightarrow> json \<Rightarrow> json option" where
  "jget k p = (case p of JObj kvs \<Rightarrow> map_of kvs k | _ \<Rightarrow> None)"

definition get_int :: "string \<Rightarrow> json \<Rightarrow> int option" where
  "get_int k p = (case jget k p of Some (JInt i) \<Rightarrow> Some i | _ \<Rightarrow> None)"

definition get_str :: "string \<Rightarrow> json \<Rightarrow> string option" where
  "get_str k p = (case jget k p of Some (JStr s) \<Rightarrow> Some s | _ \<Rightarrow> None)"

text \<open>\<open>payload[key]\<close> without the key.\<close>

abbreviation key_error :: failure where
  "key_error \<equiv> OtherError ''KeyError'' []"

text \<open>\<open>_with_text\<close>: a payload is always an object; its \<open>text\<close>, or else its \<open>caption\<close>, is replaced in place.\<close>

fun dict_set :: "string \<Rightarrow> json \<Rightarrow> (string \<times> json) list \<Rightarrow> (string \<times> json) list" where
  "dict_set k v [] = [(k, v)]"
| "dict_set k v ((k', v') # d) = (if k' = k then (k, v) # d else (k', v') # dict_set k v d)"

definition with_text :: "json \<Rightarrow> string \<Rightarrow> json" where
  "with_text payload t =
     (case payload of
        JObj d \<Rightarrow> if map_of d ''text'' \<noteq> None then JObj (dict_set ''text'' (JStr t) d)
                  else if map_of d ''caption'' \<noteq> None then JObj (dict_set ''caption'' (JStr t) d)
                  else payload
      | _ \<Rightarrow> payload)"

subsection \<open>The resolvers\<close>

definition mutation_target :: "message_map \<Rightarrow> int \<Rightarrow> int \<Rightarrow> int option \<Rightarrow> message_link option" where
  "mutation_target links acct message link_id =
     (case (case link_id of None \<Rightarrow> None | Some i \<Rightarrow> link_by_id i links) of
        Some l \<Rightarrow> Some l
      | None \<Rightarrow> by_owner_account_message acct message links)"

type_synonym 'm resolved = "(failure + int option) \<times> 'm mutation_world"

definition ask_max :: "'m max_client \<Rightarrow> max_op \<Rightarrow> 'm mutation_world \<Rightarrow> 'm resolved" where
  "ask_max mx op w =
     (let (e, m) = mx op (mw_max w)
      in (case e of None \<Rightarrow> Inr None | Some f \<Rightarrow> Inl f, w\<lparr>mw_max := m\<rparr>))"

definition resolve_delete :: "int \<Rightarrow> 'm max_client \<Rightarrow> json \<Rightarrow> 'm mutation_world \<Rightarrow> 'm resolved" where
  "resolve_delete now mx payload w =
     (case (get_int ''account_id'' payload, get_int ''owner_message_id'' payload, get_str ''send_source_key'' payload) of
        (Some acct, Some message, Some send_key) \<Rightarrow>
          (case mutation_target (mw_links w) acct message (get_int ''link_id'' payload) of
             None \<Rightarrow> (Inr None, w)
           | Some link \<Rightarrow>
               (case ml_max_message_id link of
                  Some m \<Rightarrow> ask_max mx (Delete_messages (ml_max_chat_id link) [m]) w
                | None \<Rightarrow>
                    (case by_source_key send_key (mw_outbox w) of
                       None \<Rightarrow> (Inr None, w)
                     | Some send \<Rightarrow>
                         (case ob_state send of
                            PENDING \<Rightarrow>
                              (let (gone, ob) = cancel_pending now send_key ''cancelled: owner deleted before send'' (mw_outbox w)
                               in (if gone then Inr None else Inl (DeferDelivery WAIT_MS), w\<lparr>mw_outbox := ob\<rparr>))
                          | INFLIGHT \<Rightarrow> (Inl (DeferDelivery WAIT_MS), w)
                          | DONE \<Rightarrow>
                              (case ob_remote_message_id send of
                                 Some r \<Rightarrow> ask_max mx (Delete_messages (ml_max_chat_id link) [r]) w
                               | None \<Rightarrow> (Inr None, w))
                          | FAILED \<Rightarrow>
                              (Inr None, w\<lparr>mw_outbox := snd (archive now (ob_id send) ''owner deleted before delivery'' (mw_outbox w))\<rparr>)
                          | AMBIGUOUS \<Rightarrow>
                              (Inl (UnconfirmedDeliveryError
                                 ''the original send is ambiguous; the delete is withheld for the owner''), w)
                          | _ \<Rightarrow> (Inr None, w)))))
      | _ \<Rightarrow> (Inl key_error, w))"

text \<open>\<open>payload.get('mutation_key', message_id)\<close>, as the key's text.\<close>

definition mutation_key :: "json \<Rightarrow> int \<Rightarrow> string" where
  "mutation_key payload message = (case get_str ''mutation_key'' payload of Some k \<Rightarrow> k | None \<Rightarrow> show_int message)"

definition resolve_edit :: "int \<Rightarrow> 'm max_client \<Rightarrow> json \<Rightarrow> 'm mutation_world \<Rightarrow> 'm resolved" where
  "resolve_edit now mx payload w =
     (case (get_int ''account_id'' payload, get_int ''owner_message_id'' payload, get_str ''send_source_key'' payload,
            get_str ''text'' payload) of
        (Some acct, Some message, Some send_key, Some t) \<Rightarrow>
          if by_source_key (owner_delete_key acct (mutation_key payload message)) (mw_outbox w) \<noteq> None then (Inr None, w)
          else
          (case mutation_target (mw_links w) acct message (get_int ''link_id'' payload) of
             None \<Rightarrow> (Inr None, w)
           | Some link \<Rightarrow>
               (case ml_max_message_id link of
                  Some m \<Rightarrow> ask_max mx (Edit_text (ml_max_chat_id link) m t) w
                | None \<Rightarrow>
                    (case by_source_key send_key (mw_outbox w) of
                       None \<Rightarrow> (Inr None, w)
                     | Some send \<Rightarrow>
                         (case ob_state send of
                            PENDING \<Rightarrow>
                              (let (taken, ob) = replace_pending_payload now send_key (with_text (ob_payload send) t) (mw_outbox w)
                               in (if taken then Inr None else Inl (DeferDelivery WAIT_MS), w\<lparr>mw_outbox := ob\<rparr>))
                          | INFLIGHT \<Rightarrow> (Inl (DeferDelivery WAIT_MS), w)
                          | DONE \<Rightarrow>
                              (case ob_remote_message_id send of
                                 Some r \<Rightarrow> ask_max mx (Edit_text (ml_max_chat_id link) r t) w
                               | None \<Rightarrow> (Inr None, w))
                          | FAILED \<Rightarrow>
                              (Inr None, w\<lparr>mw_outbox := snd (replace_failed_payload now send_key (with_text (ob_payload send) t) (mw_outbox w))\<rparr>)
                          | AMBIGUOUS \<Rightarrow>
                              (Inl (UnconfirmedDeliveryError
                                 ''the original send is ambiguous; the edit is withheld for the owner''), w)
                          | _ \<Rightarrow> (Inr None, w)))))
      | _ \<Rightarrow> (Inl key_error, w))"

text \<open>The reaction resolver reads the confirmed states and keeps the snapshot of what MAX shows.\<close>

definition show_reaction ::
  "'m max_client \<Rightarrow> int \<Rightarrow> int \<Rightarrow> string option \<Rightarrow> reaction_state \<times> 'm \<Rightarrow> (failure + int option) \<times> reaction_state \<times> 'm" where
  "show_reaction mx chat msg emoji s =
     (case mx (case emoji of None \<Rightarrow> Remove_reaction chat msg | Some e \<Rightarrow> Add_reaction chat msg e) (snd s) of
        (Some e, m) \<Rightarrow> (Inl e, fst s, m)
      | (None, m) \<Rightarrow>
          (Inr None,
           reaction_put \<lparr>rs_max_chat_id = chat, rs_max_message_id = msg,
             rs_counters = (case reaction_get chat msg (fst s) of None \<Rightarrow> [] | Some p \<Rightarrow> rs_counters p),
             rs_your_reaction = emoji\<rparr> (fst s), m))"

definition resolve_reaction ::
  "'m max_client \<Rightarrow> owner_states \<Rightarrow> json \<Rightarrow> reaction_state \<times> 'm \<Rightarrow> (failure + int option) \<times> reaction_state \<times> 'm" where
  "resolve_reaction mx states payload s =
     (case (get_int ''account_id'' payload, get_int ''bot_id'' payload, get_int ''owner_message_id'' payload,
            get_int ''pts'' payload) of
        (Some acct, Some bid, Some message, Some pts) \<Rightarrow>
          if (case state_get (acct, bid, message) states of None \<Rightarrow> False | Some current \<Rightarrow> os_pts current > pts)
          then (Inr None, s)
          else (case (get_int ''max_chat_id'' payload, get_int ''max_message_id'' payload) of
                  (Some chat, Some msg) \<Rightarrow> show_reaction mx chat msg (get_str ''emoji'' payload) s
                | _ \<Rightarrow> (Inl key_error, s))
      | _ \<Rightarrow> (Inl key_error, s))"

subsection \<open>What an owner-side id names\<close>

record owner_target =
  ot_link :: message_link
  ot_canonical_id :: int
  ot_send_key :: string
  ot_key :: string

text \<open>\<open>owner_album_source_key\<close> over the stored group id.\<close>

definition album_send_key :: "string \<Rightarrow> string" where
  "album_send_key grp = ''tg-owner-msg:'' @ grp"

definition single_target :: "int \<Rightarrow> int \<Rightarrow> 'm mutation_world \<Rightarrow> owner_target option" where
  "single_target acct message w =
     map_option (\<lambda>link. \<lparr>ot_link = link, ot_canonical_id = message, ot_send_key = send_source_key acct message,
                         ot_key = show_int message\<rparr>)
       (by_owner_account_message acct message (mw_links w))"

definition owner_target_of :: "int \<Rightarrow> int \<Rightarrow> 'm mutation_world \<Rightarrow> owner_target option" where
  "owner_target_of acct message w =
     (case (case mw_parts w of None \<Rightarrow> None | Some mg \<Rightarrow> part_by_owner_message acct message mg) of
        None \<Rightarrow> single_target acct message w
      | Some part \<Rightarrow>
          (case (case mp_link_id part of None \<Rightarrow> None | Some i \<Rightarrow> link_by_id i (mw_links w)) of
             None \<Rightarrow> single_target acct message w
           | Some link \<Rightarrow>
               (let canonical = (case ml_owner_message_id link of None \<Rightarrow> message | Some i \<Rightarrow> if i = 0 then message else i)
                in Some \<lparr>ot_link = link, ot_canonical_id = canonical,
                     ot_send_key = (if mp_direction part = Some TG_TO_MAX then album_send_key (mp_media_group_id part)
                                    else send_source_key acct canonical),
                     ot_key = mp_media_group_id part\<rparr>)))"

definition bot_of_owner_message :: "int \<Rightarrow> int \<Rightarrow> 'm mutation_world \<Rightarrow> int option" where
  "bot_of_owner_message acct message w =
     map_option (\<lambda>t. ml_telegram_bot_id (ot_link t)) (owner_target_of acct message w)"

subsection \<open>The queue\<close>

text \<open>The jobs of this module among those \<open>send_job\<close> dispatches on, with the album sweep of
  \<open>service/runtime.py\<close> over the owner's own session.\<close>

record 'm session =
  se_connected :: bool
  se_allowed_peers :: "'m \<Rightarrow> (failure + int list) \<times> 'm"
  se_delete_own :: "int \<Rightarrow> int list \<Rightarrow> 'm \<Rightarrow> failure option \<times> 'm"

definition SWEEP_WAIT_MS :: int where "SWEEP_WAIT_MS = 30000"

definition get_ints :: "string \<Rightarrow> json \<Rightarrow> int list" where
  "get_ints k p = (case jget k p of Some (JList js) \<Rightarrow> List.map_filter (\<lambda>j. case j of JInt i \<Rightarrow> Some i | _ \<Rightarrow> None) js | _ \<Rightarrow> [])"

text \<open>The error's wording is kept short; its class is the code's.\<close>

definition claimed_ids :: "int \<Rightarrow> media_part list \<Rightarrow> int list" where
  "claimed_ids acct ps = List.map_filter
     (\<lambda>p. if mp_owner_account_id p = Some acct then mp_owner_message_id p else None) ps"

definition sweep_album_in_telegram :: "'m session option \<Rightarrow> json \<Rightarrow> 'm mutation_world \<Rightarrow> 'm resolved" where
  "sweep_album_in_telegram sess payload w =
     (case sess of
        None \<Rightarrow> (Inl (DeferDelivery SWEEP_WAIT_MS), w)
      | Some se \<Rightarrow>
          if \<not> se_connected se then (Inl (DeferDelivery SWEEP_WAIT_MS), w)
          else
            (let acct = (case get_int ''account_id'' payload of None \<Rightarrow> 0 | Some a \<Rightarrow> a);
                 asked = get_ints ''owner_message_ids'' payload
             in case get_int ''peer_id'' payload of
                  None \<Rightarrow> (Inl key_error, w)
                | Some peer \<Rightarrow>
                    (case (asked, get_int ''link_id'' payload, mw_parts w) of
                       (_ # _, Some link, Some mg) \<Rightarrow>
                         (let ps = parts_of_link link mg; ids = sort (remdups (filter (\<lambda>i. i \<in> set (claimed_ids acct ps)) asked))
                          in if peer \<notin> mp_bot_id ` set ps
                             then (Inl (PermanentDeliveryError ''not the contact bot its parts were delivered to''), w)
                             else (case se_allowed_peers se (mw_max w) of
                               (Inl e, m) \<Rightarrow> (Inl e, w\<lparr>mw_max := m\<rparr>)
                             | (Inr peers, m) \<Rightarrow>
                                 if peer \<notin> set peers
                                 then (Inl (PermanentDeliveryError ''not a live bridge's contact bot''), w\<lparr>mw_max := m\<rparr>)
                                 else if ids = []
                                 then (Inl (PermanentDeliveryError ''names no id this album claims''), w\<lparr>mw_max := m\<rparr>)
                                 else (let (e, m') = se_delete_own se peer ids m
                                   in (case e of None \<Rightarrow> Inr None | Some f \<Rightarrow> Inl f, w\<lparr>mw_max := m'\<rparr>))))
                     | _ \<Rightarrow> (Inr None, w))))"

definition send_mutation :: "int \<Rightarrow> 'm max_client \<Rightarrow> 'm session option \<Rightarrow> string \<Rightarrow> json \<Rightarrow> 'm mutation_world \<Rightarrow> 'm resolved" where
  "send_mutation now mx sess kind payload w =
     (if kind = KIND_TG_ALBUM_SWEEP then sweep_album_in_telegram sess payload w
      else if kind = KIND_TG_TO_MAX_EDIT then resolve_edit now mx payload w
      else if kind = KIND_TG_TO_MAX_DELETE then resolve_delete now mx payload w
      else (Inl (PermanentDeliveryError (''unknown delivery kind '' @ kind)), w))"

text \<open>No mutation announces a remote call, so the job's own marks are what \<open>pipe_attempt\<close> makes of the
  resolver's answer on the table as the resolver left it.\<close>

definition enqueue_mutation ::
  "int \<Rightarrow> 'm max_client \<Rightarrow> 'm session option \<Rightarrow> string \<Rightarrow> string \<Rightarrow> string \<Rightarrow> json \<Rightarrow> 'm mutation_world \<Rightarrow> 'm mutation_world" where
  "enqueue_mutation now mx sess bridge kind key payload w =
     (let ((i, ours), ob) = claim_for_attempt now bridge TG_TO_MAX kind payload key (Some DEFAULT_TTL_MS) DEFAULT_LEASE_MS (mw_outbox w)
      in if \<not> ours then w\<lparr>mw_outbox := ob\<rparr>
         else (let (r, w1) = send_mutation now mx sess kind payload (w\<lparr>mw_outbox := ob\<rparr>)
           in w1\<lparr>mw_outbox := snd (pipe_attempt now (\<lambda>_ _ _. (False, r)) i TG_TO_MAX kind payload (mw_outbox w1))\<rparr>))"

definition apply_mutation_directly :: "'m max_client \<Rightarrow> string \<Rightarrow> json \<Rightarrow> 'm mutation_world \<Rightarrow> 'm resolved" where
  "apply_mutation_directly mx kind payload w =
     (case (case get_int ''link_id'' payload of None \<Rightarrow> None | Some i \<Rightarrow> link_by_id i (mw_links w)) of
        None \<Rightarrow> (Inr None, w)
      | Some link \<Rightarrow>
          (case ml_max_message_id link of
             None \<Rightarrow> (Inr None, w)
           | Some m \<Rightarrow>
               if kind = KIND_TG_TO_MAX_EDIT
               then (case get_str ''text'' payload of
                       None \<Rightarrow> (Inl key_error, w)
                     | Some t \<Rightarrow> ask_max mx (Edit_text (ml_max_chat_id link) m t) w)
               else if kind = KIND_TG_TO_MAX_DELETE then ask_max mx (Delete_messages (ml_max_chat_id link) [m]) w
               else (Inr None, w)))"

subsection \<open>What the router makes of an edit and of a deletion\<close>

text \<open>A text goes into a payload as UTF-8; \<open>fp\<close> is \<open>fingerprint\<close>, the first sixteen digits of its SHA-256.\<close>

definition utf8_char :: "nat \<Rightarrow> nat list" where
  "utf8_char c =
     (if c < 128 then [c]
      else if c < 2048 then [192 + c div 64, 128 + c mod 64]
      else if c < 65536 then [224 + c div 4096, 128 + c div 64 mod 64, 128 + c mod 64]
      else [240 + c div 262144, 128 + c div 4096 mod 64, 128 + c div 64 mod 64, 128 + c mod 64])"

definition utf8 :: "ucs \<Rightarrow> string" where
  "utf8 t = map char_of (concat (map utf8_char t))"

definition mutation_payload :: "int \<Rightarrow> owner_target \<Rightarrow> (string \<times> json) list" where
  "mutation_payload acct t =
     [(''max_chat_id'', JInt (ml_max_chat_id (ot_link t))), (''account_id'', JInt acct),
      (''owner_message_id'', JInt (ot_canonical_id t)), (''link_id'', JInt (ml_id (ot_link t))),
      (''mutation_key'', JStr (ot_key t)), (''send_source_key'', JStr (ot_send_key t))]"

definition owner_edit_body :: "owner_target \<Rightarrow> ucs \<Rightarrow> ucs" where
  "owner_edit_body t body =
     (if ml_source_marker (ot_link t) \<noteq> FROM_MAX then body else ustrip (strip_presentation body))"

definition route_owner_edit ::
  "(string \<Rightarrow> string) \<Rightarrow> int \<Rightarrow> 'm max_client \<Rightarrow> 'm session option \<Rightarrow> int \<Rightarrow> int \<Rightarrow> ucs \<Rightarrow> int \<Rightarrow> 'm mutation_world
   \<Rightarrow> 'm mutation_world" where
  "route_owner_edit fp now mx sess acct message t pts w =
     (case owner_target_of acct message w of
        None \<Rightarrow> w
      | Some target \<Rightarrow>
          (let body = owner_edit_body target t
           in if body = [] then w
              else enqueue_mutation now mx sess (ml_bridge_name (ot_link target)) KIND_TG_TO_MAX_EDIT
                     (owner_edit_key acct (ot_key target) pts (fp (utf8 body)))
                     (JObj (mutation_payload acct target @ [(''text'', JStr (utf8 body))])) w))"

definition sweep_key :: "string \<Rightarrow> string" where
  "sweep_key grp = ''tg-album-sweep:'' @ grp"

definition sweep_album_remains ::
  "int \<Rightarrow> 'm max_client \<Rightarrow> 'm session option \<Rightarrow> int \<Rightarrow> owner_target \<Rightarrow> 'm mutation_world \<Rightarrow> 'm mutation_world" where
  "sweep_album_remains now mx sess acct target w =
     (case mw_parts w of
        None \<Rightarrow> w
      | Some mg \<Rightarrow>
          (let ps = parts_of_link (ml_id (ot_link target)) mg; ids = List.map_filter mp_owner_message_id ps
           in if length ps < 2 \<or> ids = [] then w
              else enqueue_mutation now mx sess (ml_bridge_name (ot_link target)) KIND_TG_ALBUM_SWEEP
                     (sweep_key (mp_media_group_id (hd ps)))
                     (JObj [(''account_id'', JInt acct), (''peer_id'', JInt (mp_bot_id (hd ps))),
                            (''link_id'', JInt (ml_id (ot_link target))), (''owner_message_ids'', JList (map JInt ids))]) w))"

fun route_owner_deletes ::
  "int \<Rightarrow> 'm max_client \<Rightarrow> 'm session option \<Rightarrow> int \<Rightarrow> int list \<Rightarrow> 'm mutation_world \<Rightarrow> 'm mutation_world" where
  "route_owner_deletes now mx sess acct [] w = w"
| "route_owner_deletes now mx sess acct (message # messages) w =
     (case owner_target_of acct message w of
        None \<Rightarrow> route_owner_deletes now mx sess acct messages w
      | Some target \<Rightarrow>
          (let w1 = enqueue_mutation now mx sess (ml_bridge_name (ot_link target)) KIND_TG_TO_MAX_DELETE
                      (owner_delete_key acct (ot_key target)) (JObj (mutation_payload acct target)) w
           in route_owner_deletes now mx sess acct messages (sweep_album_remains now mx sess acct target w1)))"

subsection \<open>After a delivery\<close>

text \<open>\<open>settle_max_delivery_mapping\<close>: the mapping row learns the id MAX gave, and the id is handed on.\<close>

definition settle_max_delivery_mapping :: "message_map option \<Rightarrow> json \<Rightarrow> int \<Rightarrow> db_error + (int \<times> message_map option)" where
  "settle_max_delivery_mapping links payload max_message =
     (case (links, get_int ''link_id'' payload) of
        (Some mm, Some link) \<Rightarrow>
          (case attach_max_message link max_message mm of
             Inl e \<Rightarrow> Inl e
           | Inr (_, mm') \<Rightarrow> Inr (max_message, Some mm'))
      | _ \<Rightarrow> Inr (max_message, links))"

end
