(* ===== verification/Owner_Mutation_Laws.thy ===== *)
theory Owner_Mutation_Laws
  imports Owner_Mutation Outbox_Laws
begin

section \<open>A deletion is final, and nothing is touched by guess\<close>

text \<open>
  The laws of \<open>Owner_Mutation\<close>. Every mutation changes the queue only by calls of its own methods, so the
  laws of the queue hold through it; on top of that: a deletion that reports success leaves nothing
  that could still put the message into MAX, no edit brings a deleted message back, and the album
  sweep removes only what the album claims.
\<close>

subsection \<open>A mutation is a run of queue calls\<close>

definition by_calls :: "outbox \<Rightarrow> outbox \<Rightarrow> bool" where
  "by_calls ob ob' \<longleftrightarrow> (\<exists>cs. ob' = ob_run cs ob \<and> list_all (\<lambda>(now, c). \<not> forgets c) cs)"

lemma ob_run_append: "ob_run (cs @ ds) ob = ob_run ds (ob_run cs ob)"
  by (induction cs ob rule: ob_run.induct) simp_all

lemma by_calls_refl [simp, intro]: "by_calls ob ob"
  unfolding by_calls_def by (intro exI[of _ "[]"]) simp

lemma by_calls_trans [trans]: "by_calls a b \<Longrightarrow> by_calls b c \<Longrightarrow> by_calls a c"
  unfolding by_calls_def by (metis ob_run_append list_all_append)

lemma by_calls_exec: "\<not> forgets c \<Longrightarrow> by_calls ob (ob_exec now c ob)"
  unfolding by_calls_def by (intro exI[of _ "[(now, c)]"]) simp

lemma by_calls_queue_ok: "by_calls a b \<Longrightarrow> queue_ok a \<Longrightarrow> queue_ok b"
  by (auto simp: by_calls_def queue_ok_run)

lemma by_calls_holds: "by_calls a b \<Longrightarrow> queue_ok a \<Longrightarrow> holds_key a i k \<Longrightarrow> holds_key b i k"
  by (auto simp: by_calls_def holds_key_run)

lemmas by_call = by_calls_exec[where c = "C_cancel _ _", simplified] by_calls_exec[where c = "C_archive _ _", simplified]
  by_calls_exec[where c = "C_replace_pending _ _", simplified] by_calls_exec[where c = "C_replace_failed _ _", simplified]
  by_calls_exec[where c = "C_done _ _", simplified] by_calls_exec[where c = "C_sending _", simplified]
  by_calls_exec[where c = "C_ambiguous _ _", simplified] by_calls_exec[where c = "C_retry _ _ _ _", simplified]
  by_calls_exec[where c = "C_failed _ _", simplified] by_calls_exec[where c = "C_defer _ _", simplified]
  by_calls_exec[where c = "C_claim_for_attempt _ _ _ _ _ _ _", simplified]

lemma ask_max_world [simp]: "mw_outbox (snd (ask_max mx op w)) = mw_outbox w" "mw_links (snd (ask_max mx op w)) = mw_links w"
  "mw_parts (snd (ask_max mx op w)) = mw_parts w"
  by (simp_all add: ask_max_def case_prod_beta)

lemma resolve_delete_calls: "by_calls (mw_outbox w) (mw_outbox (snd (resolve_delete now mx p w)))"
  by (auto simp: resolve_delete_def Let_def case_prod_beta by_call split: option.split outbox_state.split)

lemma resolve_edit_calls: "by_calls (mw_outbox w) (mw_outbox (snd (resolve_edit now mx p w)))"
  by (auto simp: resolve_edit_def Let_def case_prod_beta by_call split: option.split outbox_state.split)

lemma sweep_calls: "mw_outbox (snd (sweep_album_in_telegram se p w)) = mw_outbox w"
  by (auto simp: sweep_album_in_telegram_def Let_def case_prod_beta split: option.split list.split sum.split prod.split)

lemma send_mutation_calls: "by_calls (mw_outbox w) (mw_outbox (snd (send_mutation now mx se k p w)))"
  by (simp add: send_mutation_def resolve_delete_calls resolve_edit_calls sweep_calls)

lemma pipe_calls: "by_calls ob (snd (pipe_attempt now (\<lambda>_ _ _. (False, r)) i d k p ob))"
  by (cases "st_verdict (settle k (projl r) False)")
    (auto simp: pipe_attempt_def Let_def by_call split: sum.split verdict.split)

lemma enqueue_mutation_calls: "by_calls (mw_outbox w) (mw_outbox (enqueue_mutation now mx se b k key p w))"
proof -
  obtain i ours ob where c: "claim_for_attempt now b TG_TO_MAX k p key (Some DEFAULT_TTL_MS) DEFAULT_LEASE_MS (mw_outbox w) = ((i, ours), ob)"
    by (metis surj_pair)
  have 1: "by_calls (mw_outbox w) ob" using by_call(11) c by (metis snd_conv)
  obtain r w1 where s: "send_mutation now mx se k p (w\<lparr>mw_outbox := ob\<rparr>) = (r, w1)" by (metis surj_pair)
  have "by_calls ob (mw_outbox w1)" using send_mutation_calls[of "w\<lparr>mw_outbox := ob\<rparr>" now mx se k p] by (simp add: s)
  then show ?thesis using 1 c s pipe_calls by_calls_trans by (auto simp: enqueue_mutation_def)
qed

lemma sweep_remains_calls: "by_calls (mw_outbox w) (mw_outbox (sweep_album_remains now mx se a t w))"
  by (auto simp: sweep_album_remains_def Let_def enqueue_mutation_calls split: option.split)

lemma claim_holds: "\<exists>i. holds_key (snd (claim_for_attempt now b d k p key ttl l ob)) i key"
proof (cases "by_source_key key ob")
  case None
  then show ?thesis by (auto simp: claim_for_attempt_def split_beta holds_key_def)
next
  case (Some r)
  then have "holds_key ob (ob_id r) key" by (auto simp: holds_key_def dest: by_source_key_SomeD)
  then show ?thesis using Some by (auto simp: claim_for_attempt_def Let_def intro!: exI[of _ "ob_id r"] holds_key_update)
qed

lemma enqueue_mutation_holds:
  assumes "queue_ok (mw_outbox w)"
  shows "\<exists>i. holds_key (mw_outbox (enqueue_mutation now mx se b k key p w)) i key"
proof -
  obtain j ours ob where c: "claim_for_attempt now b TG_TO_MAX k p key (Some DEFAULT_TTL_MS) DEFAULT_LEASE_MS (mw_outbox w) = ((j, ours), ob)"
    by (metis surj_pair)
  obtain i where i: "holds_key ob i key" using claim_holds c by (metis snd_conv)
  have ok: "queue_ok ob" using queue_ok_claim[OF assms] c by (metis snd_conv)
  obtain r w1 where s: "send_mutation now mx se k p (w\<lparr>mw_outbox := ob\<rparr>) = (r, w1)" by (metis surj_pair)
  have 1: "by_calls ob (mw_outbox w1)" using send_mutation_calls[of "w\<lparr>mw_outbox := ob\<rparr>" now mx se k p] by (simp add: s)
  have "by_calls ob (mw_outbox (enqueue_mutation now mx se b k key p w))"
    using c s by_calls_trans[OF 1 pipe_calls] by (auto simp: enqueue_mutation_def)
  then show ?thesis using by_calls_holds ok i by blast
qed

subsection \<open>A deletion is terminal\<close>

lemma payload_fields [simp]:
  "get_int ''account_id'' (JObj (mutation_payload a t @ rest)) = Some a"
  "get_int ''owner_message_id'' (JObj (mutation_payload a t @ rest)) = Some (ot_canonical_id t)"
  "get_int ''link_id'' (JObj (mutation_payload a t @ rest)) = Some (ml_id (ot_link t))"
  "get_str ''send_source_key'' (JObj (mutation_payload a t @ rest)) = Some (ot_send_key t)"
  "get_str ''mutation_key'' (JObj (mutation_payload a t @ rest)) = Some (ot_key t)"
  "get_str ''text'' (JObj (mutation_payload a t @ [(''text'', JStr b)])) = Some b"
  by (simp_all add: get_int_def get_str_def jget_def mutation_payload_def)

lemma payload_fields_bare [simp]:
  "get_int ''account_id'' (JObj (mutation_payload a t)) = Some a"
  "get_int ''owner_message_id'' (JObj (mutation_payload a t)) = Some (ot_canonical_id t)"
  "get_int ''link_id'' (JObj (mutation_payload a t)) = Some (ml_id (ot_link t))"
  "get_str ''send_source_key'' (JObj (mutation_payload a t)) = Some (ot_send_key t)"
  by (simp_all add: get_int_def get_str_def jget_def mutation_payload_def)

lemma claim_keeps_others:
  assumes "queue_ok ob" "r \<in> set (rows ob)" "ob_source_key r \<noteq> Some key"
  shows "r \<in> set (rows (snd (claim_for_attempt now b d k p key ttl l ob)))
    \<and> ob_id r \<noteq> fst (fst (claim_for_attempt now b d k p key ttl l ob))"
proof (cases "by_source_key key ob")
  case None
  moreover have "ob_id r \<noteq> seq ob + 1" using assms(1,2) by (auto simp: queue_ok_def tbl_ok_def)
  ultimately show ?thesis using assms(2) by (simp add: claim_for_attempt_def split_beta)
next
  case (Some x)
  then have x: "x \<in> set (rows ob)" "ob_source_key x = Some key" by (auto dest: by_source_key_SomeD)
  then have "ob_id r \<noteq> ob_id x" using ob_id_unique[OF assms(1) assms(2) x(1)] assms(3) by auto
  then show ?thesis using Some assms(2)
    by (auto simp: claim_for_attempt_def Let_def simp del: rows_update intro!: update_keeps)
qed

abbreviation claimed :: "int \<Rightarrow> string \<Rightarrow> string \<Rightarrow> string \<Rightarrow> json \<Rightarrow> outbox \<Rightarrow> (int \<times> bool) \<times> outbox" where
  "claimed now b k key p ob \<equiv> claim_for_attempt now b TG_TO_MAX k p key (Some DEFAULT_TTL_MS) DEFAULT_LEASE_MS ob"

lemma claimed_calls: "by_calls ob (snd (claimed now b k key p ob))"
  by (rule by_call(11))

lemma claimed_keys:
  assumes "x \<in> set (rows (snd (claimed now b k key p ob)))"
  shows "ob_source_key x = Some key \<or> (\<exists>y\<in>set (rows ob). ob_source_key x = ob_source_key y)"
  using assms by (auto simp: claim_for_attempt_def split_beta Let_def split: option.splits if_splits)

lemma nothing_to_do:
  assumes "queue_ok (mw_outbox w)"
    and none: "send_mutation now mx se k p (w\<lparr>mw_outbox := snd (claimed now b k key p (mw_outbox w))\<rparr>)
      = (Inr None, w\<lparr>mw_outbox := snd (claimed now b k key p (mw_outbox w))\<rparr>)"
  shows "mw_max (enqueue_mutation now mx se b k key p w) = mw_max w
    \<and> mw_parts (enqueue_mutation now mx se b k key p w) = mw_parts w
    \<and> (\<forall>r\<in>set (rows (mw_outbox w)). ob_source_key r \<noteq> Some key \<longrightarrow> r \<in> set (rows (mw_outbox (enqueue_mutation now mx se b k key p w))))"
proof -
  obtain i ours ob where c: "claimed now b k key p (mw_outbox w) = ((i, ours), ob)" by (metis surj_pair)
  have s: "send_mutation now mx se k p (w\<lparr>mw_outbox := ob\<rparr>) = (Inr None, w\<lparr>mw_outbox := ob\<rparr>)" using none by (simp add: c)
  have keep: "r \<in> set (rows ob) \<and> ob_id r \<noteq> i" if "r \<in> set (rows (mw_outbox w))" "ob_source_key r \<noteq> Some key" for r
    using claim_keeps_others[OF assms(1) that, where now = now and b = b and d = TG_TO_MAX and k = k and p = p
        and ttl = "Some DEFAULT_TTL_MS" and l = DEFAULT_LEASE_MS] by (simp add: c)
  show ?thesis
  proof (cases ours)
    case True
    then show ?thesis using c s keep
      by (auto simp: enqueue_mutation_def pipe_attempt_def mark_done_def on_id_def simp del: rows_update intro!: update_keeps)
  next
    case False
    then show ?thesis using c keep by (auto simp: enqueue_mutation_def)
  qed
qed

text \<open>C23. A deletion is terminal. Once the owner's deletion of a message - or of any part of an album -
  has been accepted, then whatever the queue does afterwards, an edit of that message arriving
  later, replayed or new, never reaches MAX and never touches another job: it is filed and finished
  without effect. A late edit cannot resurrect what was deleted.\<close>

theorem delete_is_terminal:
  assumes "queue_ok (mw_outbox w)" "owner_target_of acct message w = Some t"
    and "by_calls (mw_outbox (route_owner_deletes now mx se acct [message] w)) (mw_outbox w2)"
    and "owner_target_of acct message2 w2 = Some t2" "ot_key t2 = ot_key t"
  shows "mw_max (route_owner_edit fp now2 mx se acct message2 body pts w2) = mw_max w2
    \<and> (\<forall>r\<in>set (rows (mw_outbox w2)).
         ob_source_key r \<noteq> Some (owner_edit_key acct (ot_key t) pts (fp (utf8 (owner_edit_body t2 body))))
         \<longrightarrow> r \<in> set (rows (mw_outbox (route_owner_edit fp now2 mx se acct message2 body pts w2))))"
proof -
  let ?k = "owner_delete_key acct (ot_key t)"
  let ?w1 = "enqueue_mutation now mx se (ml_bridge_name (ot_link t)) KIND_TG_TO_MAX_DELETE ?k (JObj (mutation_payload acct t)) w"
  have calls: "by_calls (mw_outbox ?w1) (mw_outbox w2)"
    using assms(2,3) by_calls_trans[OF sweep_remains_calls] by (simp add: Let_def)
  obtain i where "holds_key (mw_outbox ?w1) i ?k" using enqueue_mutation_holds[OF assms(1)] by blast
  moreover have ok1: "queue_ok (mw_outbox ?w1)" using by_calls_queue_ok[OF enqueue_mutation_calls assms(1)] .
  ultimately have held: "holds_key (mw_outbox w2) i ?k" using by_calls_holds[OF calls] by blast
  have ok2: "queue_ok (mw_outbox w2)" using by_calls_queue_ok[OF calls ok1] .
  let ?b = "owner_edit_body t2 body"
  let ?p = "JObj (mutation_payload acct t2 @ [(''text'', JStr (utf8 ?b))])"
  let ?ek = "owner_edit_key acct (ot_key t) pts (fp (utf8 ?b))"
  let ?ob = "snd (claimed now2 (ml_bridge_name (ot_link t2)) KIND_TG_TO_MAX_EDIT ?ek ?p (mw_outbox w2))"
  have "holds_key ?ob i ?k" using by_calls_holds[OF claimed_calls ok2 held] .
  then have "by_source_key ?k ?ob \<noteq> None"
    using holds_key_lookup by_calls_queue_ok[OF claimed_calls ok2] by (metis option.distinct(1))
  then have none: "send_mutation now2 mx se KIND_TG_TO_MAX_EDIT ?p (w2\<lparr>mw_outbox := ?ob\<rparr>) = (Inr None, w2\<lparr>mw_outbox := ?ob\<rparr>)"
    using assms(5) by (simp add: send_mutation_def resolve_edit_def mutation_key_def KIND_TG_ALBUM_SWEEP_def KIND_TG_TO_MAX_EDIT_def)
  show ?thesis
    using nothing_to_do[OF ok2 none] assms(4,5) by (simp add: route_owner_edit_def Let_def)
qed

subsection \<open>A successful deletion leaves nothing behind\<close>


subsection \<open>A worked world\<close>

text \<open>One message of the owner's, its send waiting in the queue, and a MAX that takes every call down.\<close>

definition sample_link :: "int option \<Rightarrow> message_link" where
  "sample_link m = \<lparr>ml_id = 1, ml_bridge_name = ''b'', ml_max_chat_id = 5, ml_max_message_id = m, ml_telegram_bot_id = 9,
     ml_telegram_chat_id = 3, ml_telegram_message_id = None, ml_direction = TG_TO_MAX, ml_source_marker = FROM_TG,
     ml_created_at = 0, ml_echo_fingerprint = None, ml_owner_message_id = Some 100, ml_owner_account_id = Some 7\<rparr>"

definition sample_world :: "int option \<Rightarrow> string \<Rightarrow> max_op list mutation_world" where
  "sample_world m key =
     \<lparr>mw_outbox = snd (enqueue 0 ''b'' TG_TO_MAX ''tg_to_max_text'' (JObj [(''text'', JStr ''hi''), (''link_id'', JInt 1)]) 0
        (Some key) None empty_tbl),
      mw_links = \<lparr>rows = [sample_link m], seq = 1\<rparr>, mw_parts = Some empty_tbl, mw_max = []\<rparr>"

definition taking_down :: "max_op list max_client" where
  "taking_down op m = (None, m @ [op])"

lemma sample_ok: "queue_ok (mw_outbox (sample_world m key))"
  unfolding sample_world_def using queue_ok_enqueue[OF queue_ok_empty] by simp

theorem delete_is_terminal_witness:
  "mw_max (route_owner_edit id 9 taking_down None 7 100 [121, 111] 3
     (route_owner_deletes 8 taking_down None 7 [100] (sample_world (Some 77) (send_source_key 7 100)))) = [Delete_messages 5 [77]]"
proof -
  let ?w = "sample_world (Some 77) (send_source_key 7 100)"
  let ?w2 = "route_owner_deletes 8 taking_down None 7 [100] ?w"
  have t: "owner_target_of 7 100 ?w = owner_target_of 7 100 ?w2" "mw_max ?w2 = [Delete_messages 5 [77]]" by code_simp+
  have "owner_target_of 7 100 ?w \<noteq> None" by code_simp
  then obtain t where o: "owner_target_of 7 100 ?w = Some t" "owner_target_of 7 100 ?w2 = Some t" using t(1) by (metis not_None_eq)
  have "mw_max (route_owner_edit id 9 taking_down None 7 100 [121, 111] 3 ?w2) = mw_max ?w2"
    by (rule delete_is_terminal[OF sample_ok o(1) by_calls_refl o(2) refl, THEN conjunct1])
  then show ?thesis using t(2) by (simp only:)
qed


subsection \<open>A long text is out of a deletion's reach\<close>

lemma part_key_is_no_delete:
  "text_part_source_key (send_source_key a m) i n \<noteq> owner_delete_key acct k"
  by (simp add: text_part_source_key_def send_source_key_def owner_delete_key_def)



subsection \<open>The album sweep\<close>

text \<open>A session that takes every deletion down.\<close>

definition recording :: "int list \<Rightarrow> failure option \<Rightarrow> (int \<times> int list) list session" where
  "recording peers e = \<lparr>se_connected = True, se_allowed_peers = (\<lambda>m. (Inr peers, m)),
     se_delete_own = (\<lambda>peer ids m. (e, m @ [(peer, ids)]))\<rparr>"

text \<open>The album sweep removes only what the album still claims. Whatever ids the stored job names, it asks
  Telegram for at most one removal, in the chat of a contact bot of a live bridge to which parts of
  this very album went, of ids that were asked for and that are the owner-side ids of parts
  of this album under the account the job names.\<close>

theorem sweep_removes_only_the_album:
  assumes "sweep_album_in_telegram (Some (recording peers e)) p w = (r, w')" "mw_max w' \<noteq> mw_max w"
  shows "\<exists>peer ids link mg. mw_max w' = mw_max w @ [(peer, ids)] \<and> peer \<in> set peers
    \<and> get_int ''link_id'' p = Some link \<and> mw_parts w = Some mg \<and> peer \<in> mp_bot_id ` set (parts_of_link link mg)
    \<and> ids \<noteq> [] \<and> (\<forall>i\<in>set ids. i \<in> set (get_ints ''owner_message_ids'' p)
         \<and> (\<exists>q\<in>set (parts_of_link link mg). mp_owner_message_id q = Some i
              \<and> mp_owner_account_id q = Some (case get_int ''account_id'' p of None \<Rightarrow> 0 | Some a \<Rightarrow> a)))"
proof -
  let ?a = "case get_int ''account_id'' p of None \<Rightarrow> 0 | Some a \<Rightarrow> a"
  let ?asked = "get_ints ''owner_message_ids'' p"
  obtain peer where peer: "get_int ''peer_id'' p = Some peer"
    using assms by (cases "get_int ''peer_id'' p") (auto simp: sweep_album_in_telegram_def recording_def Let_def)
  obtain link mg where l: "get_int ''link_id'' p = Some link" "mw_parts w = Some mg" "?asked \<noteq> []"
    using assms peer by (cases ?asked; cases "get_int ''link_id'' p"; cases "mw_parts w")
      (auto simp: sweep_album_in_telegram_def recording_def Let_def)
  let ?ids = "sort (remdups (filter (\<lambda>i. i \<in> set (claimed_ids ?a (parts_of_link link mg))) ?asked))"
  obtain q qs where q: "?asked = q # qs" using l(3) by (cases ?asked) auto
  have "peer \<in> mp_bot_id ` set (parts_of_link link mg) \<and> peer \<in> set peers \<and> ?ids \<noteq> []
      \<and> mw_max w' = mw_max w @ [(peer, ?ids)]"
    using assms peer l(1,2) unfolding sweep_album_in_telegram_def recording_def Let_def q
    by (auto split: if_splits)
  moreover have "i \<in> set ?asked \<and> (\<exists>q\<in>set (parts_of_link link mg). mp_owner_message_id q = Some i \<and> mp_owner_account_id q = Some ?a)"
    if "i \<in> set ?ids" for i
    using that by (auto simp: claimed_ids_def List.map_filter_def split: if_splits)
  ultimately show ?thesis using l(1,2) by blast
qed

definition sample_part :: "int \<Rightarrow> int \<Rightarrow> media_part" where
  "sample_part i m = \<lparr>mp_id = i, mp_media_group_id = ''own:7:9:4'', mp_bridge_name = ''b'', mp_bot_id = 9,
     mp_telegram_message_id = None, mp_payload = cleared, mp_created_at = 0, mp_link_id = Some 1, mp_direction = Some TG_TO_MAX,
     mp_part_index = Some i, mp_media_kind = None, mp_caption_present = None, mp_fingerprint = None,
     mp_owner_account_id = Some 7, mp_owner_message_id = Some m, mp_updated_at = None\<rparr>"

theorem sweep_removes_only_the_album_witness:
  "\<exists>peer ids. mw_max (snd (sweep_album_in_telegram (Some (recording [9] None))
     (JObj [(''account_id'', JInt 7), (''peer_id'', JInt 9), (''link_id'', JInt 1),
            (''owner_message_ids'', JList [JInt 101, JInt 999, JInt 100])])
     \<lparr>mw_outbox = empty_tbl, mw_links = empty_tbl,
      mw_parts = Some \<lparr>rows = [sample_part 1 100, sample_part 2 101], seq = 2\<rparr>, mw_max = []\<rparr>)) = [(peer, ids)]
     \<and> set ids \<subseteq> {101, 999, 100} \<and> peer = 9"
proof -
  let ?p = "JObj [(''account_id'', JInt 7), (''peer_id'', JInt 9), (''link_id'', JInt 1),
            (''owner_message_ids'', JList [JInt 101, JInt 999, JInt 100])]"
  let ?w = "\<lparr>mw_outbox = empty_tbl, mw_links = empty_tbl,
      mw_parts = Some \<lparr>rows = [sample_part 1 100, sample_part 2 101], seq = 2\<rparr>, mw_max = []\<rparr> :: (int \<times> int list) list mutation_world"
  let ?r = "sweep_album_in_telegram (Some (recording [9] None)) ?p ?w"
  have c: "mw_max (snd ?r) \<noteq> mw_max ?w" by code_simp
  have a: "get_ints ''owner_message_ids'' ?p = [101, 999, 100]" by code_simp
  show ?thesis using sweep_removes_only_the_album[OF surjective_pairing c] unfolding a by auto
qed

subsection \<open>An edit in time is absorbed\<close>

lemma map_of_dict_set: "map_of (dict_set k v d) j = (if j = k then Some v else map_of d j)"
  by (induction d) auto

text \<open>An edit that arrives before the send is absorbed by it. While the send waits and no remote call was
  begun, the edit changes that one job's text - or its caption - and nothing else: no field
  of the payload besides, no other job, and nothing is asked of MAX, so that the message goes out
  once, in its latest version.\<close>

theorem edit_is_absorbed:
  assumes "queue_ok (mw_outbox w)" "by_source_key send_key (mw_outbox w) = Some send" "unsent send_key send"
    and "ob_payload send = JObj d" "map_of d ''text'' \<noteq> None"
    and "get_int ''account_id'' p = Some acct" "get_int ''owner_message_id'' p = Some message"
    and "get_str ''send_source_key'' p = Some send_key" "get_str ''text'' p = Some t"
    and "mutation_target (mw_links w) acct message (get_int ''link_id'' p) = Some link" "ml_max_message_id link = None"
    and "by_source_key (owner_delete_key acct (mutation_key p message)) (mw_outbox w) = None"
  shows "\<exists>d'. resolve_edit now mx p w = (Inr None, w\<lparr>mw_outbox := on_id (ob_id send)
        (\<lambda>r. r\<lparr>ob_payload := JObj d', ob_updated_at := now\<rparr>) (mw_outbox w)\<rparr>)
    \<and> (\<forall>j. map_of d' j = (if j = ''text'' then Some (JStr t) else map_of d j))"
proof -
  let ?d = "dict_set ''text'' (JStr t) d"
  have s: "send \<in> set (rows (mw_outbox w))" using by_source_key_SomeD[OF assms(2)] by simp
  have "unsent send_key r = (ob_id r = ob_id send)" if r: "r \<in> set (rows (mw_outbox w))" for r
  proof
    assume "unsent send_key r"
    then show "ob_id r = ob_id send" using ob_key_unique[OF assms(1) r s] assms(3) by (simp add: unsent_def)
  next
    assume "ob_id r = ob_id send"
    then show "unsent send_key r" using ob_id_unique[OF assms(1) r s] assms(3) by simp
  qed
  then have "tbl_update (unsent send_key) f (mw_outbox w) = on_id (ob_id send) f (mw_outbox w)" for f
    unfolding on_id_def by (rule tbl_update_cong) auto
  moreover have "tbl_count (unsent send_key) (mw_outbox w) > 0" using s assms(3) by (auto simp: count_pos)
  moreover have "with_text (ob_payload send) t = JObj ?d" using assms(4,5) by (auto simp: with_text_def)
  ultimately have "resolve_edit now mx p w = (Inr None, w\<lparr>mw_outbox := on_id (ob_id send)
        (\<lambda>r. r\<lparr>ob_payload := JObj ?d, ob_updated_at := now\<rparr>) (mw_outbox w)\<rparr>)"
    using assms(2,3,6-) by (simp add: resolve_edit_def replace_pending_payload_def unsent_def)
  then show ?thesis using map_of_dict_set by blast
qed

theorem edit_is_absorbed_witness:
  "\<exists>d'. fst (resolve_edit 8 taking_down (JObj [(''account_id'', JInt 7), (''owner_message_id'', JInt 100),
        (''send_source_key'', JStr (send_source_key 7 100)), (''text'', JStr ''yo'')])
        (sample_world None (send_source_key 7 100))) = Inr None
    \<and> map_of d' ''text'' = Some (JStr ''yo'') \<and> map_of d' ''link_id'' = Some (JInt 1)"
proof -
  let ?p = "JObj [(''account_id'', JInt 7), (''owner_message_id'', JInt 100), (''send_source_key'', JStr (send_source_key 7 100)),
    (''text'', JStr ''yo'')]"
  let ?w = "sample_world None (send_source_key 7 100)"
  let ?send = "hd (rows (mw_outbox ?w))"
  let ?d = "[(''text'', JStr ''hi''), (''link_id'', JInt 1)]"
  have f: "get_int ''account_id'' ?p = Some 7" "get_int ''owner_message_id'' ?p = Some 100"
    "get_str ''send_source_key'' ?p = Some (send_source_key 7 100)" "get_str ''text'' ?p = Some ''yo''"
    by (simp_all add: get_int_def get_str_def jget_def)
  have c: "by_source_key (send_source_key 7 100) (mw_outbox ?w) = Some ?send" "unsent (send_source_key 7 100) ?send"
    "ob_payload ?send = JObj ?d" "map_of ?d ''text'' \<noteq> None"
    "mutation_target (mw_links ?w) 7 100 (get_int ''link_id'' ?p) = Some (sample_link None)" "ml_max_message_id (sample_link None) = None"
    "by_source_key (owner_delete_key 7 (mutation_key ?p 100)) (mw_outbox ?w) = None" by code_simp+
  from edit_is_absorbed[OF sample_ok c(1-4) f c(5-7), where now = 8 and mx = taking_down]
  obtain d' where d: "fst (resolve_edit 8 taking_down ?p ?w) = Inr None"
    "\<And>j. map_of d' j = (if j = ''text'' then Some (JStr ''yo'') else map_of ?d j)" by (metis fst_conv)
  show ?thesis by (intro exI[of _ d'] conjI d(1)) (simp_all add: d(2))
qed

end
