(* ===== verification/Max_Mutation.thy ===== *)
theory Max_Mutation
  imports Owner_Mutation_Laws Rendering
begin

section \<open>What MAX did to a message it already sent\<close>

text \<open>
  \<open>routing/max_mutation.py\<close> and the MAX half of \<open>routing/router.py\<close>: a deletion or an edit in MAX becomes a
  durable job, and when it runs the transport is chosen from the job that placed the message. Telegram -
  the bot's client and the owner's session - is one function from a remote call and the state of the
  world outside to the failure, if any, and the new state.
\<close>

datatype telegram_op =
    Bot_delete int int int
  | Bot_edit_text int int int string json
  | Bot_edit_caption int int int string json
  | Own_delete int "int list"
  | Own_edit int int string json

type_synonym 'm telegram = "telegram_op \<Rightarrow> 'm \<Rightarrow> failure option \<times> 'm"

datatype authorship = BY_BOT | BY_OWNER

text \<open>The notice the bot draws over a message it may no longer remove, as UTF-8.\<close>

definition DELETED_NOTICE :: string where
  "DELETED_NOTICE = utf8 [1057, 1086, 1086, 1073, 1097, 1077, 1085, 1080, 1077, 32, 1091, 1076, 1072, 1083, 1077, 1085, 1086, 32,
     1074, 32, 77, 65, 88, 46]"

definition SESSION_WAIT_MS :: int where "SESSION_WAIT_MS = 5000"

record max_target =
  mt_link :: message_link
  mt_authorship :: authorship
  mt_bot_id :: int
  mt_chat_id :: int
  mt_owner_account_id :: "int option"
  mt_message_ids :: "int list"
  mt_caption_target :: "int option"
  mt_is_media :: bool

subsection \<open>What one MAX message became\<close>

definition delivering_job :: "outbox option \<Rightarrow> message_link \<Rightarrow> outbox_item option" where
  "delivering_job ob link =
     (case (ob, ml_max_message_id link) of
        (Some q, Some m) \<Rightarrow> by_source_key (max_source_key (ml_max_chat_id link) m) q
      | _ \<Rightarrow> None)"

definition side_id :: "bool \<Rightarrow> media_part \<Rightarrow> int option" where
  "side_id owner p = (if owner then mp_owner_message_id p else mp_telegram_message_id p)"

fun caption_target :: "media_part list \<Rightarrow> bool \<Rightarrow> int option" where
  "caption_target [] owner = None"
| "caption_target (p # ps) owner =
     (if mp_caption_present p = Some True \<and> side_id owner p \<noteq> None then side_id owner p else caption_target ps owner)"

text \<open>Python's \<open>a or b\<close> on optional numbers, where 0 is false too.\<close>

definition or_else :: "int option \<Rightarrow> int option \<Rightarrow> int option" where
  "or_else a b = (if a = None \<or> a = Some 0 then b else a)"

definition authorship_of :: "outbox_item option \<Rightarrow> message_link \<Rightarrow> authorship \<times> bool" where
  "authorship_of job link =
     (case job of
        Some j \<Rightarrow> (if ob_kind j = KIND_MAX_TO_TG_OWNER then BY_OWNER else BY_BOT,
                   ob_kind j = KIND_MAX_TO_TG_MEDIA \<or> ob_kind j = KIND_MAX_TO_TG_OWNER)
      | None \<Rightarrow> (if ml_telegram_message_id link \<noteq> None then BY_BOT else BY_OWNER, False))"

definition target_ids :: "authorship \<Rightarrow> message_link \<Rightarrow> media_part list \<Rightarrow> int list" where
  "target_ids by link ps =
     (let own = (by = BY_OWNER);
          ok = (\<lambda>p. \<not> own \<or> ml_owner_account_id link = None \<or> mp_owner_account_id p = ml_owner_account_id link);
          ids = List.map_filter (side_id own) (filter ok ps)
      in if ids \<noteq> [] then ids
         else (case (if own then ml_owner_message_id link else ml_telegram_message_id link) of None \<Rightarrow> [] | Some i \<Rightarrow> [i]))"

definition resolve_target :: "message_map \<Rightarrow> media_groups option \<Rightarrow> outbox option \<Rightarrow> int \<Rightarrow> max_target option" where
  "resolve_target links albums ob link_id =
     (case link_by_id link_id links of
        None \<Rightarrow> None
      | Some link \<Rightarrow>
          (let (by, media) = authorship_of (delivering_job ob link) link;
               ps = (case albums of None \<Rightarrow> [] | Some mg \<Rightarrow> parts_of_link link_id mg);
               ids = target_ids by link ps;
               caption = or_else (caption_target ps (by = BY_OWNER))
                           (if by = BY_OWNER then ml_owner_message_id link else ml_telegram_message_id link)
           in if ids = [] then None
              else Some \<lparr>mt_link = link, mt_authorship = by, mt_bot_id = ml_telegram_bot_id link, mt_chat_id = ml_telegram_chat_id link,
                     mt_owner_account_id = ml_owner_account_id link, mt_message_ids = ids, mt_caption_target = caption,
                     mt_is_media = (media \<or> ps \<noteq> [])\<rparr>))"

subsection \<open>Deleting\<close>

text \<open>The loop over the bot's messages: \<open>Inl\<close> is what it lets through, \<open>Inr\<close> the refusals it collected.\<close>

fun delete_each :: "'m telegram \<Rightarrow> int \<Rightarrow> int \<Rightarrow> int list \<Rightarrow> 'm \<Rightarrow> (failure + string list) \<times> 'm" where
  "delete_each tg bid chat [] m = (Inr [], m)"
| "delete_each tg bid chat (i # ids) m =
     (case tg (Bot_delete bid chat i) m of
        (None, m1) \<Rightarrow> delete_each tg bid chat ids m1
      | (Some e, m1) \<Rightarrow>
          (let v = classify_telegram e
           in if is_cancelled e \<or> tv_outcome v = NO_ANSWER \<or> tv_outcome v = RATE_LIMITED then (Inl e, m1)
              else (case delete_each tg bid chat ids m1 of
                 (Inl f, m2) \<Rightarrow> (Inl f, m2)
               | (Inr refused, m2) \<Rightarrow> (Inr (if tv_outcome v = NO_OP then refused else tv_detail v # refused), m2))))"

definition say_it_is_gone :: "'m telegram \<Rightarrow> max_target \<Rightarrow> 'm \<Rightarrow> failure option \<times> 'm" where
  "say_it_is_gone tg t m =
     (case tg (Bot_edit_text (mt_bot_id t) (mt_chat_id t) (hd (mt_message_ids t)) DELETED_NOTICE JNull) m of
        (Some e, m1) \<Rightarrow> (if is_cancelled e then Some e else None, m1)
      | (None, m1) \<Rightarrow> (None, m1))"

definition refusal_text :: "int \<Rightarrow> max_target \<Rightarrow> string list \<Rightarrow> string" where
  "refusal_text link_id t refused =
     ''Telegram refused to delete '' @ show_int (int (length refused)) @ '' of '' @ show_int (int (length (mt_message_ids t)))
       @ '' message(s) for link '' @ show_int link_id @ '': '' @ hd refused"

type_synonym 'm mutated = "(failure + int option) \<times> 'm"

definition resolve_max_delete ::
  "message_map \<Rightarrow> media_groups option \<Rightarrow> outbox option \<Rightarrow> 'm telegram \<Rightarrow> bool \<Rightarrow> json \<Rightarrow> 'm \<Rightarrow> 'm mutated" where
  "resolve_max_delete links albums ob tg online payload m =
     (case get_int ''link_id'' payload of
        None \<Rightarrow> (Inr None, m)
      | Some link_id \<Rightarrow>
          (case resolve_target links albums ob link_id of
             None \<Rightarrow> (Inr None, m)
           | Some t \<Rightarrow>
               if mt_authorship t = BY_OWNER
               then (if \<not> online then (Inl (DeferDelivery SESSION_WAIT_MS), m)
                     else (case tg (Own_delete (mt_bot_id t) (mt_message_ids t)) m of
                        (Some e, m1) \<Rightarrow> (Inl e, m1)
                      | (None, m1) \<Rightarrow> (Inr None, m1)))
               else (case delete_each tg (mt_bot_id t) (mt_chat_id t) (mt_message_ids t) m of
                  (Inl e, m1) \<Rightarrow> (Inl e, m1)
                | (Inr [], m1) \<Rightarrow> (Inr None, m1)
                | (Inr refused, m1) \<Rightarrow>
                    (case say_it_is_gone tg t m1 of
                       (Some e, m2) \<Rightarrow> (Inl e, m2)
                     | (None, m2) \<Rightarrow> (Inl (PermanentDeliveryError (refusal_text link_id t refused)), m2)))))"

subsection \<open>Editing\<close>

fun mutate :: "'m telegram \<Rightarrow> string \<Rightarrow> telegram_op list \<Rightarrow> 'm \<Rightarrow> 'm mutated" where
  "mutate tg what [] m = (Inr None, m)"
| "mutate tg what (op # otherwise) m =
     (case tg op m of
        (None, m1) \<Rightarrow> (Inr None, m1)
      | (Some e, m1) \<Rightarrow>
          (let v = classify_telegram e
           in if is_cancelled e then (Inl e, m1)
              else if tv_outcome v = NO_OP then (Inr None, m1)
              else if tv_outcome v = REFUSED_EDIT_FORM \<and> otherwise \<noteq> [] then mutate tg what otherwise m1
              else if tv_outcome v = NO_ANSWER \<or> tv_outcome v = RATE_LIMITED then (Inl e, m1)
              else (Inl (PermanentDeliveryError (what @ '': '' @ tv_detail v)), m1)))"

definition body_for :: "authorship \<Rightarrow> json \<Rightarrow> string \<times> json" where
  "body_for by payload =
     (let entities = (\<lambda>k. case jget k payload of None \<Rightarrow> JNull | Some j \<Rightarrow> j);
          t = (if by = BY_OWNER then (case get_str ''owner_text'' payload of None \<Rightarrow> [] | Some s \<Rightarrow> s) else [])
      in if t \<noteq> [] then (t, entities ''owner_entities'')
         else (case get_str ''text'' payload of None \<Rightarrow> [] | Some s \<Rightarrow> s, entities ''entities''))"

definition resolve_max_edit ::
  "message_map \<Rightarrow> media_groups option \<Rightarrow> outbox option \<Rightarrow> 'm telegram \<Rightarrow> bool \<Rightarrow> json \<Rightarrow> 'm \<Rightarrow> 'm mutated" where
  "resolve_max_edit links albums ob tg online payload m =
     (case get_int ''link_id'' payload of
        None \<Rightarrow> (Inr None, m)
      | Some link_id \<Rightarrow>
          (case resolve_target links albums ob link_id of
             None \<Rightarrow> (Inr None, m)
           | Some t \<Rightarrow>
               (let (body, entities) = body_for (mt_authorship t) payload;
                    msg = (case or_else (mt_caption_target t) None of Some i \<Rightarrow> i | None \<Rightarrow> hd (mt_message_ids t));
                    txt = Bot_edit_text (mt_bot_id t) (mt_chat_id t) msg body entities;
                    cap = Bot_edit_caption (mt_bot_id t) (mt_chat_id t) msg body entities
                in if body = [] then (Inr None, m)
                   else if mt_authorship t = BY_OWNER
                   then (if \<not> online then (Inl (DeferDelivery SESSION_WAIT_MS), m)
                         else mutate tg (''owner edit of '' @ show_int msg) [Own_edit (mt_bot_id t) msg body entities] m)
                   else if mt_is_media t then mutate tg (''caption of '' @ show_int msg) [cap, txt] m
                   else mutate tg (''text of '' @ show_int msg) [txt, cap] m)))"

subsection \<open>The router's part\<close>

definition send_max_mutation ::
  "'m telegram \<Rightarrow> bool \<Rightarrow> string \<Rightarrow> json \<Rightarrow> 'm mutation_world \<Rightarrow> (failure + int option) \<times> 'm mutation_world" where
  "send_max_mutation tg online kind payload w =
     (let f = (if kind = KIND_MAX_TO_TG_EDIT then resolve_max_edit else resolve_max_delete);
          (r, m) = f (mw_links w) (mw_parts w) (Some (mw_outbox w)) tg online payload (mw_max w)
      in (r, w\<lparr>mw_max := m\<rparr>))"

definition enqueue_max_mutation ::
  "int \<Rightarrow> 'm telegram \<Rightarrow> bool \<Rightarrow> string \<Rightarrow> string \<Rightarrow> string \<Rightarrow> json \<Rightarrow> 'm mutation_world \<Rightarrow> 'm mutation_world" where
  "enqueue_max_mutation now tg online bridge kind key payload w =
     (let (i, ob1) = enqueue now bridge MAX_TO_TG kind payload 0 (Some key) (Some DEFAULT_TTL_MS) (mw_outbox w);
          ((j, ours), ob2) = (if older_undelivered bridge MAX_TO_TG i ob1 then ((i, False), ob1)
             else claim_for_attempt now bridge MAX_TO_TG kind payload key (Some DEFAULT_TTL_MS) DEFAULT_LEASE_MS ob1)
      in if \<not> ours then w\<lparr>mw_outbox := ob2\<rparr>
         else (let (r, w1) = send_max_mutation tg online kind payload (w\<lparr>mw_outbox := ob2\<rparr>)
           in w1\<lparr>mw_outbox := snd (pipe_attempt now (\<lambda>_ _ _. (False, r)) j MAX_TO_TG kind payload (mw_outbox w1))\<rparr>))"

fun delete_max_messages ::
  "int \<Rightarrow> 'm telegram \<Rightarrow> bool \<Rightarrow> string \<Rightarrow> int \<Rightarrow> int \<Rightarrow> int list \<Rightarrow> 'm mutation_world \<Rightarrow> 'm mutation_world" where
  "delete_max_messages now tg online bridge bid chat [] w = w"
| "delete_max_messages now tg online bridge bid chat (msg # msgs) w =
     delete_max_messages now tg online bridge bid chat msgs
       (case by_max_message chat msg bid (mw_links w) of
          None \<Rightarrow> w
        | Some link \<Rightarrow>
            enqueue_max_mutation now tg online bridge KIND_MAX_TO_TG_DELETE (max_delete_source_key chat msg)
              (JObj [(''link_id'', JInt (ml_id link)), (''bridge_name'', JStr bridge), (''max_chat_id'', JInt chat),
                     (''max_message_id'', JInt msg)]) w)"

text \<open>\<open>lookup\<close> is \<open>bridge_for_max_chat\<close>: the name and the bot of the bridge, if any.\<close>

definition on_max_delete ::
  "(int \<Rightarrow> (string \<times> int) option) \<Rightarrow> int \<Rightarrow> 'm telegram \<Rightarrow> bool \<Rightarrow> int \<Rightarrow> int list \<Rightarrow> 'm mutation_world \<Rightarrow> 'm mutation_world" where
  "on_max_delete lookup now tg online chat msgs w =
     (case lookup chat of None \<Rightarrow> w | Some (bridge, bid) \<Rightarrow> delete_max_messages now tg online bridge bid chat msgs w)"

definition entity_json :: "entity \<Rightarrow> json" where
  "entity_json e = JObj ([(''type'', JStr (some_text (en_type e))), (''offset'', JInt (some_int (en_offset e))),
     (''length'', JInt (some_int (en_length e)))] @ (case en_url e of None \<Rightarrow> [] | Some u \<Rightarrow> [(''url'', JStr (utf8 u))]))"

definition entities_json :: "entity list \<Rightarrow> json" where
  "entities_json es = (if es = [] then JNull else JList (map entity_json es))"

definition both_entities :: "render_context \<Rightarrow> max_message \<Rightarrow> ucs \<Rightarrow> ucs \<Rightarrow> split_error + json" where
  "both_entities rc m pfx rendered =
     (case (edit_entities pfx m, mark_entities rc m rendered) of
        (Inr a, Inr b) \<Rightarrow> Inr (entities_json (a @ b))
      | (Inl e, _) \<Rightarrow> Inl e
      | (_, Inl e) \<Rightarrow> Inl e)"

text \<open>\<open>on_max_edit\<close>, given the message after \<open>_name_forward\<close>; \<open>fp\<close> is \<open>fingerprint\<close>. A text Python cannot
  encode raises before anything is written.\<close>

definition on_max_edit ::
  "(int \<Rightarrow> (string \<times> int) option) \<Rightarrow> render_context \<Rightarrow> (string \<Rightarrow> string) \<Rightarrow> int \<Rightarrow> 'm telegram \<Rightarrow> bool \<Rightarrow> int \<Rightarrow> int
   \<Rightarrow> max_message \<Rightarrow> 'm mutation_world \<Rightarrow> split_error + 'm mutation_world" where
  "on_max_edit lookup rc fp now tg online chat msg m w =
     (case lookup chat of
        None \<Rightarrow> Inr w
      | Some (bridge, bid) \<Rightarrow>
          (case by_max_message chat msg bid (mw_links w) of
             None \<Rightarrow> Inr w
           | Some link \<Rightarrow>
               (let captioned = mm_attachments m \<noteq> [];
                    bot_text = (if captioned then caption_of rc m True else render rc m True);
                    owner_text = (if captioned then caption_as_owner rc m True else render_as_owner rc m True);
                    version = (case or_else (mm_edited_at m) None of
                                 Some t \<Rightarrow> show_int t | None \<Rightarrow> fp (utf8 (if bot_text \<noteq> [] then bot_text else owner_text)))
                in if bot_text = [] \<and> owner_text = [] then Inr w
                   else (case (both_entities rc m (prefix_of rc m) bot_text, both_entities rc m (prefix_as_owner rc m) owner_text) of
                      (Inr bot_entities, Inr owner_entities) \<Rightarrow>
                        Inr (enqueue_max_mutation now tg online bridge KIND_MAX_TO_TG_EDIT (max_edit_source_key chat msg version)
                          (JObj [(''link_id'', JInt (ml_id link)), (''bridge_name'', JStr bridge), (''max_chat_id'', JInt chat),
                                 (''max_message_id'', JInt msg), (''text'', JStr (utf8 bot_text)), (''entities'', bot_entities),
                                 (''owner_text'', JStr (utf8 owner_text)), (''owner_entities'', owner_entities)]) w)
                    | (Inl e, _) \<Rightarrow> Inl e
                    | (_, Inl e) \<Rightarrow> Inl e))))"

subsection \<open>A message is changed only by whoever put it there\<close>

text \<open>A Telegram that takes every call down and answers by the call.\<close>

definition logging :: "(telegram_op \<Rightarrow> failure option) \<Rightarrow> telegram_op list telegram" where
  "logging ans op m = (ans op, m @ [op])"

text \<open>What a transport may be asked about one target: the bot about its own messages in that chat, the owner's
  session about the owner's in the chat with that bot.\<close>

fun proper_op :: "max_target \<Rightarrow> telegram_op \<Rightarrow> bool" where
  "proper_op t (Bot_delete b c i) = (mt_authorship t = BY_BOT \<and> b = mt_bot_id t \<and> c = mt_chat_id t \<and> i \<in> set (mt_message_ids t))"
| "proper_op t (Bot_edit_text b c i x e) = (mt_authorship t = BY_BOT \<and> b = mt_bot_id t \<and> c = mt_chat_id t)"
| "proper_op t (Bot_edit_caption b c i x e) = (mt_authorship t = BY_BOT \<and> b = mt_bot_id t \<and> c = mt_chat_id t)"
| "proper_op t (Own_delete b is) = (mt_authorship t = BY_OWNER \<and> b = mt_bot_id t \<and> is = mt_message_ids t)"
| "proper_op t (Own_edit b i x e) = (mt_authorship t = BY_OWNER \<and> b = mt_bot_id t)"

lemma delete_each_log:
  "\<exists>ds. snd (delete_each (logging ans) b c ids m) = m @ map (Bot_delete b c) ds \<and> set ds \<subseteq> set ids"
proof (induction ids arbitrary: m)
  case (Cons i ids)
  obtain ds where ds: "snd (delete_each (logging ans) b c ids (m @ [Bot_delete b c i])) = m @ map (Bot_delete b c) (i # ds)"
    "set ds \<subseteq> set ids" using Cons[of "m @ [Bot_delete b c i]"] by auto
  have "snd (delete_each (logging ans) b c (i # ids) m) \<in> {m @ map (Bot_delete b c) [i], m @ map (Bot_delete b c) (i # ds)}"
    using ds(1) by (auto simp: logging_def Let_def split: option.split prod.split sum.split)
  then show ?case using ds(2) by (elim insertE) (fastforce intro: exI[of _ "[i]"] exI[of _ "i # ds"])+
qed simp

lemma mutate_log: "\<exists>done_ops. snd (mutate (logging ans) what ops m) = m @ done_ops \<and> set done_ops \<subseteq> set ops"
proof (induction ops arbitrary: m)
  case (Cons op ops)
  obtain ds where ds: "snd (mutate (logging ans) what ops (m @ [op])) = m @ op # ds" "set ds \<subseteq> set ops"
    using Cons[of "m @ [op]"] by auto
  have "snd (mutate (logging ans) what (op # ops) m) \<in> {m @ [op], m @ op # ds}"
    using ds(1) by (auto simp: logging_def Let_def split: option.split)
  then show ?case using ds(2) by (elim insertE) (fastforce intro: exI[of _ "[op]"] exI[of _ "op # ds"])+
qed simp


subsection \<open>Success means it is gone\<close>

text \<open>What the Bot API documents of \<open>deleteMessage\<close>: after it was accepted, or answered with one of the refusals
  that say there is nothing to delete, the message is not in the chat; and no call brings one back.\<close>

definition deletes_for_good :: "'m telegram \<Rightarrow> (int \<Rightarrow> int \<Rightarrow> 'm \<Rightarrow> bool) \<Rightarrow> bool" where
  "deletes_for_good tg gone \<longleftrightarrow>
     (\<forall>b c i m. (case fst (tg (Bot_delete b c i) m) of None \<Rightarrow> True | Some e \<Rightarrow> is_no_op e)
        \<longrightarrow> gone c i (snd (tg (Bot_delete b c i) m)))
     \<and> (\<forall>op c i m. gone c i m \<longrightarrow> gone c i (snd (tg op m)))"

lemma delete_each_gone:
  assumes "deletes_for_good tg gone"
  shows "(gone c j m \<longrightarrow> gone c j (snd (delete_each tg b c ids m)))
    \<and> (fst (delete_each tg b c ids m) = Inr [] \<longrightarrow> (\<forall>i\<in>set ids. gone c i (snd (delete_each tg b c ids m))))"
proof (induction ids arbitrary: m j)
  case (Cons i ids)
  obtain a m1 where a: "tg (Bot_delete b c i) m = (a, m1)" by (cases "tg (Bot_delete b c i) m")
  have here: "gone c i m1" if "case a of None \<Rightarrow> True | Some e \<Rightarrow> is_no_op e"
    using assms that a unfolding deletes_for_good_def by (metis fst_conv snd_conv)
  have keep: "gone c j m1" if "gone c j m" for j
    using assms that a unfolding deletes_for_good_def by (metis snd_conv)
  show ?case
  proof (cases a)
    case None
    then show ?thesis using a here keep Cons[of j m1] Cons[of i m1] by auto
  next
    case (Some e)
    obtain r m2 where r: "delete_each tg b c ids m1 = (r, m2)" by (cases "delete_each tg b c ids m1")
    show ?thesis using a Some r keep here Cons[of j m1] Cons[of i m1]
      by (auto simp: Let_def is_no_op_def split: sum.split if_splits)
  qed
qed simp


subsection \<open>A bot that is away\<close>

lemma delete_each_away:
  assumes "\<And>op. tg op m = (Some (TelegramTransportUnavailableError x), m)"
  shows "delete_each tg b c ids m = (Inr (map (\<lambda>_. x) ids), m)"
  by (induction ids) (simp_all add: assms tv_def)

text \<open>C28. A bot that is away costs the mutation. When the bot of a bridge is not registered, its client raises
  the error that says nothing was sent, which the settlement retries for every other kind of job. Both
  resolvers take it for a refusal of Telegram's instead: nothing was asked, and the deletion or the edit
  is failed for good.\<close>

theorem away_bot_fails_the_mutation:
  assumes "\<And>op. tg op m = (Some (TelegramTransportUnavailableError x), m)"
    and "get_int ''link_id'' p = Some l" "resolve_target links albums ob l = Some t" "mt_authorship t = BY_BOT"
    and "fst (body_for BY_BOT p) \<noteq> []"
  shows "(\<exists>s. resolve_max_delete links albums ob tg online p m = (Inl (PermanentDeliveryError s), m))
    \<and> (\<exists>s. resolve_max_edit links albums ob tg online p m = (Inl (PermanentDeliveryError s), m))
    \<and> st_verdict (settle KIND_MAX_TO_TG_DELETE (PermanentDeliveryError s) False) = V_PERMANENT
    \<and> st_verdict (settle KIND_MAX_TO_TG_DELETE (TelegramTransportUnavailableError x) False) = V_RETRY"
proof -
  have "mt_message_ids t \<noteq> []"
    using assms(3) by (auto simp: resolve_target_def Let_def split: option.splits prod.splits if_splits)
  then obtain i ids where "mt_message_ids t = i # ids" by (cases "mt_message_ids t") auto
  then show ?thesis using assms delete_each_away[where tg = tg and m = m and x = x, OF assms(1)]
    by (auto simp: resolve_max_delete_def resolve_max_edit_def say_it_is_gone_def Let_def case_prod_beta tv_def)
qed

subsection \<open>A worked message\<close>

abbreviation bot_map :: message_map where
  "bot_map \<equiv> \<lparr>rows = [(sample_link (Some 77))\<lparr>ml_telegram_message_id := Some 50\<rparr>], seq = 1\<rparr>"

abbreviation bot_job :: json where
  "bot_job \<equiv> JObj [(''link_id'', JInt 1), (''text'', JStr ''new'')]"

lemma bot_job_link: "get_int ''link_id'' bot_job = Some 1"
  by (simp add: get_int_def jget_def)

lemma bot_target: "\<exists>t. resolve_target bot_map None None 1 = Some t \<and> mt_authorship t = BY_BOT \<and> mt_message_ids t = [50] \<and> mt_chat_id t = 3"
  by (simp add: resolve_target_def link_by_id_def tbl_one_def sample_link_def authorship_of_def delivering_job_def target_ids_def
      List.map_filter_simps)


definition removed :: "int \<Rightarrow> int \<Rightarrow> telegram_op list \<Rightarrow> bool" where
  "removed c i m = list_ex (\<lambda>op. case op of Bot_delete b c' i' \<Rightarrow> c' = c \<and> i' = i | _ \<Rightarrow> False) m"


theorem away_bot_fails_the_mutation_witness:
  "\<exists>s. resolve_max_delete bot_map None None (\<lambda>op m. (Some (TelegramTransportUnavailableError ''away''), m)) True bot_job ()
     = (Inl (PermanentDeliveryError s), ())"
proof -
  obtain t where t: "resolve_target bot_map None None 1 = Some t" "mt_authorship t = BY_BOT" using bot_target by blast
  have b: "fst (body_for BY_BOT bot_job) \<noteq> []" by (simp add: body_for_def get_str_def jget_def)
  show ?thesis
    using away_bot_fails_the_mutation[where tg = "\<lambda>op m. (Some (TelegramTransportUnavailableError ''away''), m)" and m = "()",
        OF refl bot_job_link t(1,2) b] by blast
qed

end
