(* ===== verification/Delivery_System.thy ===== *)
theory Delivery_System
  imports Pipe
begin

section \<open>Two senders, one queue, a process that may die\<close>

text \<open>
  The queue with everybody who works on it: intake and housekeeping, the inline sender
  (\<open>DeliveryPipe.attempt\<close>), the worker (\<open>OutboxWorker._attempt\<close>), the sweep of \<open>service/runtime.py\<close> that
  returns expired leases, and a crash followed by a start (\<open>requeue_inflight\<close>). An attempt is a coroutine
  that awaits between its claim, its send mark, the remote request, the answer and the settlement, so
  each of these is a step of its own and the steps of different attempts interleave freely. The remote
  side is the number of messages it has created for each job.

  \<open>on_time\<close> says that the clock never passes the lease of a running attempt. The code does not enforce
  it: a lease is 120 seconds and is not renewed.
\<close>

subsection \<open>The steps\<close>

datatype phase =
    Preparing
  | Requested
  | Created
  | Answered bool "failure + int option"

record attempt =
  at_item :: outbox_item
  at_inline :: bool
  at_deadline :: int
  at_phase :: phase

record delivery =
  dv_queue :: outbox
  dv_now :: int
  dv_attempts :: "attempt list"
  dv_copies :: "int \<Rightarrow> nat"

definition idle_delivery :: delivery where
  "idle_delivery = \<lparr>dv_queue = empty_tbl, dv_now = 0, dv_attempts = [], dv_copies = (\<lambda>_. 0)\<rparr>"

abbreviation at_job :: "attempt \<Rightarrow> int" where
  "at_job a \<equiv> ob_id (at_item a)"

definition start_attempt :: "bool \<Rightarrow> int \<Rightarrow> outbox_item \<Rightarrow> attempt" where
  "start_attempt inline now r =
     \<lparr>at_item = r, at_inline = inline, at_deadline = now + DEFAULT_LEASE_MS, at_phase = Preparing\<rparr>"

definition set_phase :: "attempt \<Rightarrow> phase \<Rightarrow> attempt list \<Rightarrow> attempt list" where
  "set_phase a ph as = map (\<lambda>x. if x = a then a\<lparr>at_phase := ph\<rparr> else x) as"

text \<open>What the two senders write once they have the answer, the send mark being written already.\<close>

definition worker_finish ::
  "int \<Rightarrow> backoff_policy \<Rightarrow> rat \<Rightarrow> outbox_item \<Rightarrow> bool \<Rightarrow> failure + int option \<Rightarrow> outbox \<Rightarrow> outbox" where
  "worker_finish now p u item marked result ob =
     (case result of
        Inr remote \<Rightarrow> mark_done now (ob_id item) remote ob
      | Inl e \<Rightarrow>
          (let v = settle (ob_kind item) e marked in
           case st_verdict v of
             V_AMBIGUOUS \<Rightarrow> mark_ambiguous now (ob_id item) (st_detail v) ob
           | V_DEFER \<Rightarrow> defer_job now (ob_id item) (st_delay_ms v) ob
           | _ \<Rightarrow>
               if is_cancelled e then mark_retry now (ob_id item) 0 ''cancelled'' True ob
               else fst (handle_failure now p u (ob_bridge_name item) item e v (ob, \<lambda>_. None))))"

definition pipe_finish :: "int \<Rightarrow> outbox_item \<Rightarrow> bool \<Rightarrow> failure + int option \<Rightarrow> outbox \<Rightarrow> outbox" where
  "pipe_finish now item marked result ob =
     (case result of
        Inr remote \<Rightarrow> mark_done now (ob_id item) remote ob
      | Inl e \<Rightarrow>
          (let v = settle (ob_kind item) e marked in
           case st_verdict v of
             V_AMBIGUOUS \<Rightarrow> mark_ambiguous now (ob_id item) (st_detail v) ob
           | V_DEFER \<Rightarrow> defer_job now (ob_id item) (st_delay_ms v) ob
           | V_PERMANENT \<Rightarrow> mark_failed now (ob_id item) (''permanent: '' @ st_detail v) ob
           | V_RETRY \<Rightarrow> mark_retry now (ob_id item) (st_delay_ms v) (st_detail v) (st_costs_attempt v) ob))"

text \<open>The calls everybody else makes at any time: intake, the sweep, and the owner's decisions except a
  manual retry.\<close>

fun background :: "ob_call \<Rightarrow> bool" where
  "background (C_enqueue b d k p dl key ttl) = True"
| "background (C_enqueue_batch b d items ttl) = True"
| "background C_reclaim = True"
| "background C_expire_overdue = True"
| "background (C_resolve i) = True"
| "background (C_archive i why) = True"
| "background (C_forget b chat) = True"
| "background (C_cancel key why) = True"
| "background (C_replace_pending key p) = True"
| "background (C_replace_failed key p) = True"
| "background c = False"

text \<open>
  What the remote side may answer: a failure that proves nothing was created is never reported for a
  message that was, and a message id is reported only for one that was.
\<close>

fun truthful :: "string \<Rightarrow> phase \<Rightarrow> failure + int option \<Rightarrow> bool" where
  "truthful kind ph (Inl e) \<longleftrightarrow> \<not> (ph = Created \<and> proves_not_created e)"
| "truthful kind ph (Inr (Some m)) \<longleftrightarrow> (is_creating kind \<longrightarrow> ph = Created)"
| "truthful kind ph (Inr None) \<longleftrightarrow> True"

inductive delivery_step :: "bool \<Rightarrow> backoff_policy \<Rightarrow> delivery \<Rightarrow> delivery \<Rightarrow> bool" for on_time p where
  tick:
    "dv_now s \<le> t \<Longrightarrow> (on_time \<Longrightarrow> \<forall>a\<in>set (dv_attempts s). t < at_deadline a)
     \<Longrightarrow> delivery_step on_time p s (s\<lparr>dv_now := t\<rparr>)"
| background_call:
    "background c \<Longrightarrow> delivery_step on_time p s (s\<lparr>dv_queue := ob_exec (dv_now s) c (dv_queue s)\<rparr>)"
| claim_inline:
    "claim_for_attempt (dv_now s) b d (ob_kind r) payload key ttl DEFAULT_LEASE_MS (dv_queue s) = ((ob_id r, True), q)
     \<Longrightarrow> r \<in> set (rows q)
     \<Longrightarrow> delivery_step on_time p s
           (s\<lparr>dv_queue := q, dv_attempts := start_attempt True (dv_now s) r # dv_attempts s\<rparr>)"
| claim_worker:
    "claim_due (dv_now s) b 1 DEFAULT_LEASE_MS (dv_queue s) = ([r], q)
     \<Longrightarrow> delivery_step on_time p s
           (s\<lparr>dv_queue := q, dv_attempts := start_attempt False (dv_now s) r # dv_attempts s\<rparr>)"
| step_aside:
    "a \<in> set (dv_attempts s) \<Longrightarrow> at_phase a = Preparing \<Longrightarrow> \<not> at_inline a
     \<Longrightarrow> older_undelivered (ob_bridge_name (at_item a)) (ob_direction (at_item a)) (at_job a) (dv_queue s)
     \<Longrightarrow> delivery_step on_time p s
           (s\<lparr>dv_queue := defer_job (dv_now s) (at_job a) ORDER_WAIT_MS (dv_queue s),
              dv_attempts := remove1 a (dv_attempts s)\<rparr>)"
| request:
    "a \<in> set (dv_attempts s) \<Longrightarrow> at_phase a = Preparing
     \<Longrightarrow> delivery_step on_time p s
           (s\<lparr>dv_queue := mark_sending (dv_now s) (at_job a) (dv_queue s),
              dv_attempts := set_phase a Requested (dv_attempts s)\<rparr>)"
| create:
    "a \<in> set (dv_attempts s) \<Longrightarrow> at_phase a = Requested \<Longrightarrow> is_creating (ob_kind (at_item a))
     \<Longrightarrow> delivery_step on_time p s
           (s\<lparr>dv_copies := (dv_copies s)(at_job a := dv_copies s (at_job a) + 1),
              dv_attempts := set_phase a Created (dv_attempts s)\<rparr>)"
| answer:
    "a \<in> set (dv_attempts s) \<Longrightarrow> at_phase a \<in> {Preparing, Requested, Created}
     \<Longrightarrow> truthful (ob_kind (at_item a)) (at_phase a) result
     \<Longrightarrow> delivery_step on_time p s
           (s\<lparr>dv_attempts := set_phase a (Answered (at_phase a \<noteq> Preparing) result) (dv_attempts s)\<rparr>)"
| settle_inline:
    "a \<in> set (dv_attempts s) \<Longrightarrow> at_phase a = Answered marked result \<Longrightarrow> at_inline a
     \<Longrightarrow> delivery_step on_time p s
           (s\<lparr>dv_queue := pipe_finish (dv_now s) (at_item a) marked result (dv_queue s),
              dv_attempts := remove1 a (dv_attempts s)\<rparr>)"
| settle_worker:
    "a \<in> set (dv_attempts s) \<Longrightarrow> at_phase a = Answered marked result \<Longrightarrow> \<not> at_inline a
     \<Longrightarrow> delivery_step on_time p s
           (s\<lparr>dv_queue := worker_finish (dv_now s) p u (at_item a) marked result (dv_queue s),
              dv_attempts := remove1 a (dv_attempts s)\<rparr>)"
| restart:
    "delivery_step on_time p s
       (s\<lparr>dv_queue := snd (requeue_inflight (dv_now s) (dv_queue s)), dv_attempts := []\<rparr>)"

inductive reachable_delivery :: "bool \<Rightarrow> backoff_policy \<Rightarrow> delivery \<Rightarrow> bool" for on_time p where
  boot: "reachable_delivery on_time p idle_delivery"
| move: "reachable_delivery on_time p s \<Longrightarrow> delivery_step on_time p s t \<Longrightarrow> reachable_delivery on_time p t"

text \<open>The steps are the two senders' code: an attempt run without interruption is its mark and its
  settlement, one after the other.\<close>

lemma worker_attempt_in_steps:
  assumes "\<not> older_undelivered b (ob_direction item) (ob_id item) ob"
    and "deliver (ob_kind item) (ob_direction item) (ob_payload item) = (marked, result)"
  shows "fst (fst (worker_attempt now p u deliver b item (ob, st)))
     = worker_finish now p u item marked result (if marked then mark_sending now (ob_id item) ob else ob)"
  using assms
  by (auto simp: worker_attempt_def worker_finish_def handle_failure_def Let_def split_beta
      split: sum.splits verdict.splits)

lemma pipe_attempt_in_steps:
  assumes "send (ob_kind item) d payload = (marked, result)"
  shows "snd (pipe_attempt now send (ob_id item) d (ob_kind item) payload ob)
     = pipe_finish now item marked result (if marked then mark_sending now (ob_id item) ob else ob)"
  using assms by (auto simp: pipe_attempt_def pipe_finish_def Let_def split: sum.splits verdict.splits)

end
