(* ===== verification/Delivery_Laws.thy ===== *)
theory Delivery_Laws
  imports Delivery_System
begin

section \<open>A message is created once\<close>

text \<open>
  The invariant of the interleaved system while no attempt outlives its lease, the law it gives -
  whatever crashes, answers and interleavings happen, a job creates at most one message - and the run
  in which an attempt does outlive it.
\<close>

subsection \<open>The invariant\<close>

definition job_ok :: "(int \<Rightarrow> nat) \<Rightarrow> int set \<Rightarrow> outbox_item \<Rightarrow> bool" where
  "job_ok cs live r \<longleftrightarrow>
     cs (ob_id r) \<le> 1
     \<and> (ob_state r \<in> {PENDING, FAILED, EXPIRED} \<longrightarrow> cs (ob_id r) = 0)
     \<and> (ob_state r = PENDING \<longrightarrow> ob_send_started_at r = None)
     \<and> (ob_state r = INFLIGHT \<longrightarrow> ob_id r \<in> live \<and> (ob_send_started_at r = None \<longrightarrow> cs (ob_id r) = 0))
     \<and> (ob_state r \<noteq> DONE \<longrightarrow> ob_remote_message_id r = None)
     \<and> (ob_state r = DONE \<longrightarrow> ob_remote_message_id r \<noteq> None \<longrightarrow> is_creating (ob_kind r) \<longrightarrow> cs (ob_id r) = 1)"

fun phase_ok :: "bool \<Rightarrow> nat \<Rightarrow> bool \<Rightarrow> phase \<Rightarrow> bool" where
  "phase_ok mark n creating Preparing \<longleftrightarrow> \<not> mark \<and> n = 0"
| "phase_ok mark n creating Requested \<longleftrightarrow> mark \<and> n = 0"
| "phase_ok mark n creating Created \<longleftrightarrow> mark \<and> n = 1 \<and> creating"
| "phase_ok mark n creating (Answered m result) \<longleftrightarrow>
     mark = m \<and> n \<le> 1 \<and> (n = 1 \<longrightarrow> m \<and> creating)
     \<and> (case result of Inl e \<Rightarrow> n = 1 \<longrightarrow> \<not> proves_not_created e
        | Inr remote \<Rightarrow> remote \<noteq> None \<longrightarrow> creating \<longrightarrow> n = 1)"

definition attempt_ok :: "outbox \<Rightarrow> int \<Rightarrow> (int \<Rightarrow> nat) \<Rightarrow> attempt \<Rightarrow> bool" where
  "attempt_ok ob now cs a \<longleftrightarrow> now < at_deadline a \<and>
     (\<exists>r\<in>set (rows ob). ob_id r = at_job a \<and> ob_kind r = ob_kind (at_item a) \<and> ob_state r = INFLIGHT
        \<and> ob_lease_expires_at r = Some (at_deadline a)
        \<and> phase_ok (ob_send_started_at r \<noteq> None) (cs (at_job a)) (is_creating (ob_kind r)) (at_phase a))"

definition delivery_ok :: "delivery \<Rightarrow> bool" where
  "delivery_ok s \<longleftrightarrow> queue_ok (dv_queue s)
     \<and> (\<forall>r\<in>set (rows (dv_queue s)). job_ok (dv_copies s) (set (map at_job (dv_attempts s))) r)
     \<and> (\<forall>a\<in>set (dv_attempts s). attempt_ok (dv_queue s) (dv_now s) (dv_copies s) a)
     \<and> distinct (map at_job (dv_attempts s))
     \<and> (\<forall>i. dv_copies s i \<le> 1) \<and> (\<forall>i > seq (dv_queue s). dv_copies s i = 0)"

lemma idle_ok: "delivery_ok idle_delivery"
  by (simp add: delivery_ok_def idle_delivery_def empty_tbl_def queue_ok_def tbl_ok_def no_clash_def)

lemma attempt_ok_mono:
  assumes "attempt_ok ob now cs a"
    and "\<And>r. r \<in> set (rows ob) \<Longrightarrow> ob_state r = INFLIGHT \<Longrightarrow> ob_id r = at_job a \<Longrightarrow> r \<in> set (rows ob')"
    and "cs' (at_job a) = cs (at_job a)" "now' < at_deadline a"
  shows "attempt_ok ob' now' cs' a"
  using assms unfolding attempt_ok_def by metis

subsection \<open>Everybody else leaves running attempts alone\<close>

text \<open>A statement that writes only rows which are not in flight, and keeps each of them well formed.\<close>

definition rows_ok :: "(int \<Rightarrow> nat) \<Rightarrow> int set \<Rightarrow> outbox \<Rightarrow> bool" where
  "rows_ok cs live ob \<longleftrightarrow> (\<forall>r\<in>set (rows ob). job_ok cs live r) \<and> (\<forall>i > seq ob. cs i = 0)"

definition spares :: "outbox \<Rightarrow> outbox \<Rightarrow> bool" where
  "spares ob ob' \<longleftrightarrow> (\<forall>r\<in>set (rows ob). ob_state r = INFLIGHT \<longrightarrow> r \<in> set (rows ob'))"

lemma spares_refl [simp]: "spares ob ob"
  by (simp add: spares_def)

lemma update_others:
  assumes "rows_ok cs live ob"
    and "\<And>r. r \<in> set (rows ob) \<Longrightarrow> P r \<Longrightarrow> ob_state r \<noteq> INFLIGHT"
    and "\<And>r. r \<in> set (rows ob) \<Longrightarrow> P r \<Longrightarrow> job_ok cs live r \<Longrightarrow> job_ok cs live (f r)"
  shows "rows_ok cs live (tbl_update P f ob) \<and> spares ob (tbl_update P f ob)"
  using assms by (auto simp: rows_ok_def spares_def simp del: rows_update intro!: update_keeps)
     (auto split: if_splits)

lemma insert_others:
  assumes "rows_ok cs live ob" and "job_ok cs live (mk (seq ob + 1))"
  shows "rows_ok cs live (snd (tbl_insert mk ob)) \<and> spares ob (snd (tbl_insert mk ob))"
  using assms by (auto simp: rows_ok_def spares_def tbl_insert_def)

lemma new_pending_ok:
  "cs i = 0 \<Longrightarrow> job_ok cs live (new_item now b d k p due PENDING key ttl lease i)"
  by (simp add: job_ok_def new_item_def)

lemma enqueue_others:
  assumes "rows_ok cs live ob"
  shows "rows_ok cs live (snd (enqueue now b d k p dl key ttl ob)) \<and> spares ob (snd (enqueue now b d k p dl key ttl ob))"
proof -
  have "cs (seq ob + 1) = 0" using assms by (simp add: rows_ok_def)
  then have "rows_ok cs live (snd (tbl_insert (new_item now b d k p (now + dl) PENDING key ttl None) ob))
      \<and> spares ob (snd (tbl_insert (new_item now b d k p (now + dl) PENDING key ttl None) ob))"
    by (intro insert_others[OF assms] new_pending_ok)
  then show ?thesis using assms by (auto simp: enqueue_def split: option.splits)
qed

lemma spares_trans: "spares a b \<Longrightarrow> spares b c \<Longrightarrow> spares a c"
  by (auto simp: spares_def)

lemma batch_others:
  assumes "rows_ok cs live ob"
  shows "rows_ok cs live (snd (enqueue_batch now b d items ttl ob)) \<and> spares ob (snd (enqueue_batch now b d items ttl ob))"
  using assms
proof (induction items arbitrary: ob)
  case (Cons x items)
  obtain k p key where x: "x = (k, p, key)" by (cases x)
  note one = enqueue_others[OF Cons.prems, of now b d k p 0 "Some key" ttl]
  show ?case
    using one Cons.IH[OF conjunct1[OF one]] by (auto simp: x enqueue_batch_Cons split_beta Let_def intro: spares_trans)
qed simp

lemma no_lease_runs_out:
  assumes "delivery_ok s"
  shows "reclaim_expired_leases (dv_now s) (dv_queue s) = ((0, 0), dv_queue s)"
proof -
  have "\<not> (case ob_lease_expires_at r of None \<Rightarrow> False | Some e \<Rightarrow> e \<le> dv_now s)"
    if r: "r \<in> set (rows (dv_queue s))" "ob_state r = INFLIGHT" for r
  proof -
    obtain a where a: "a \<in> set (dv_attempts s)" "at_job a = ob_id r"
      using assms r unfolding delivery_ok_def job_ok_def by auto
    then obtain r' where "r' \<in> set (rows (dv_queue s))" "ob_id r' = ob_id r"
        "ob_lease_expires_at r' = Some (at_deadline a)" "dv_now s < at_deadline a"
      using assms unfolding delivery_ok_def attempt_ok_def by metis
    moreover from this have "r' = r" using ob_id_unique r(1) assms unfolding delivery_ok_def by metis
    ultimately show ?thesis by simp
  qed
  then have "tbl_select (\<lambda>r. ob_state r = INFLIGHT
      \<and> (case ob_lease_expires_at r of None \<Rightarrow> False | Some e \<Rightarrow> e \<le> dv_now s)) (dv_queue s) = []"
    by (auto simp: tbl_select_def filter_empty_conv)
  then show ?thesis by (simp only: reclaim_expired_leases_def recover_rows.simps)
qed

lemma decision_others:
  assumes "queue_ok ob" "rows_ok cs live ob" "tbl_one (\<lambda>r. ob_id r = i) ob = Some r"
    and "ob_state r \<noteq> INFLIGHT" "job_ok cs live r \<Longrightarrow> job_ok cs live (f r)"
  shows "rows_ok cs live (on_id i f ob) \<and> spares ob (on_id i f ob)"
proof -
  have r: "r \<in> set (rows ob)" "ob_id r = i" using assms(3) by (auto dest: tbl_one_Some)
  have u: "x = r" if "x \<in> set (rows ob)" "ob_id x = i" for x
    using that r ob_id_unique[OF assms(1)] by metis
  show ?thesis unfolding on_id_def
    by (rule update_others[OF assms(2)]) (use u assms(4,5) in blast)+
qed

lemma background_others:
  assumes ok: "delivery_ok s" and c: "background c"
    and rows: "rows_ok cs live (dv_queue s)"
  shows "rows_ok cs live (ob_exec (dv_now s) c (dv_queue s)) \<and> spares (dv_queue s) (ob_exec (dv_now s) c (dv_queue s))"
proof (cases c)
  case C_reclaim
  then show ?thesis using no_lease_runs_out[OF ok] rows by simp
next
  case C_expire_overdue
  have q: "queue_ok (dv_queue s)" using ok by (simp add: delivery_ok_def)
  show ?thesis unfolding C_expire_overdue ob_exec.simps expire_overdue_exact[OF q] snd_conv
    by (rule update_others[OF rows]) (auto simp: overdue_def expired_item_def job_ok_def)
next
  case (C_resolve i)
  have q: "queue_ok (dv_queue s)" using ok by (simp add: delivery_ok_def)
  have d: "rows_ok cs live (on_id i f (dv_queue s)) \<and> spares (dv_queue s) (on_id i f (dv_queue s))"
    if "tbl_one (\<lambda>r. ob_id r = i) (dv_queue s) = Some r" "ob_state r = AMBIGUOUS"
      "f = (\<lambda>r. r\<lparr>ob_state := DONE, ob_payload := cleared, ob_updated_at := dv_now s\<rparr>)" for r f
    using that by (intro decision_others[OF q rows that(1)]) (auto simp: job_ok_def)
  show ?thesis using d rows by (auto simp: C_resolve resolve_def split: option.splits)
next
  case (C_archive i why)
  have q: "queue_ok (dv_queue s)" using ok by (simp add: delivery_ok_def)
  have d: "rows_ok cs live (on_id i (\<lambda>r. r\<lparr>ob_state := ARCHIVED, ob_last_error := e, ob_updated_at := dv_now s\<rparr>) (dv_queue s))
      \<and> spares (dv_queue s) (on_id i (\<lambda>r. r\<lparr>ob_state := ARCHIVED, ob_last_error := e, ob_updated_at := dv_now s\<rparr>) (dv_queue s))"
    if "tbl_one (\<lambda>r. ob_id r = i) (dv_queue s) = Some r" "ob_state r \<in> {FAILED, AMBIGUOUS, EXPIRED}" for r e
    using that(2) by (intro decision_others[OF q rows that(1)]) (auto simp: job_ok_def)
  show ?thesis
  proof (cases "tbl_one (\<lambda>r. ob_id r = i) (dv_queue s)")
    case (Some r)
    then show ?thesis using d[OF Some] rows by (simp add: C_archive archive_def Let_def)
  qed (use rows in \<open>simp add: C_archive archive_def\<close>)
next
  case (C_forget b chat)
  then show ?thesis
    using rows by (auto simp: forget_settled_from_max_def rows_ok_def spares_def settled_from_max_def tbl_delete_def)
next
  case (C_cancel key why)
  show ?thesis unfolding C_cancel ob_exec.simps cancel_pending_def snd_conv
    by (rule update_others[OF rows]) (auto simp: unsent_def job_ok_def)
next
  case (C_replace_pending key p)
  show ?thesis unfolding C_replace_pending ob_exec.simps replace_pending_payload_def snd_conv
    by (rule update_others[OF rows]) (auto simp: unsent_def job_ok_def)
next
  case (C_replace_failed key p)
  show ?thesis unfolding C_replace_failed ob_exec.simps replace_failed_payload_def Let_def snd_conv
    by (rule update_others[OF rows]) (auto simp: job_ok_def)
qed (use c rows enqueue_others batch_others in auto)

lemma delivery_queue:
  "delivery_ok s \<Longrightarrow> queue_ok (dv_queue s)"
  "delivery_ok s \<Longrightarrow> rows_ok (dv_copies s) (set (map at_job (dv_attempts s))) (dv_queue s)"
  by (simp_all add: delivery_ok_def rows_ok_def)

lemma attempt_now: "delivery_ok s \<Longrightarrow> a \<in> set (dv_attempts s) \<Longrightarrow> dv_now s < at_deadline a"
  by (auto simp: delivery_ok_def attempt_ok_def)

lemma attempts_spared:
  assumes "delivery_ok s" "spares (dv_queue s) q" "a \<in> set (dv_attempts s)"
  shows "attempt_ok q (dv_now s) (dv_copies s) a"
proof (rule attempt_ok_mono)
  show "attempt_ok (dv_queue s) (dv_now s) (dv_copies s) a" using assms(1,3) by (simp add: delivery_ok_def)
  show "r \<in> set (rows q)" if "r \<in> set (rows (dv_queue s))" "ob_state r = INFLIGHT" for r
    using assms(2) that by (simp add: spares_def)
qed (use attempt_now[OF assms(1,3)] in simp_all)

lemma others_ok:
  assumes "delivery_ok s" "queue_ok q" "rows_ok (dv_copies s) (set (map at_job (dv_attempts s))) q"
    "spares (dv_queue s) q"
  shows "delivery_ok (s\<lparr>dv_queue := q\<rparr>)"
  using assms(2,3) attempts_spared[OF assms(1,4)] assms(1) by (simp add: delivery_ok_def rows_ok_def)

subsection \<open>Claims\<close>

lemma job_ok_live: "job_ok cs live r \<Longrightarrow> live \<subseteq> live' \<Longrightarrow> job_ok cs live' r"
  by (auto simp: job_ok_def)

lemma rows_ok_live: "rows_ok cs live q \<Longrightarrow> live \<subseteq> live' \<Longrightarrow> rows_ok cs live' q"
  by (auto simp: rows_ok_def intro: job_ok_live)

lemma claim_ok:
  assumes "delivery_ok s" "queue_ok q" "spares (dv_queue s) q"
    and rows: "rows_ok (dv_copies s) (insert (ob_id r) (set (map at_job (dv_attempts s)))) q"
    and row: "x \<in> set (rows q)" "ob_id x = ob_id r" "ob_kind x = ob_kind r" "ob_state x = INFLIGHT"
      "ob_lease_expires_at x = Some (dv_now s + DEFAULT_LEASE_MS)" "ob_send_started_at x = None"
    and fresh: "ob_id r \<notin> set (map at_job (dv_attempts s))"
  shows "delivery_ok (s\<lparr>dv_queue := q, dv_attempts := start_attempt inline (dv_now s) r # dv_attempts s\<rparr>)"
proof -
  have n: "dv_copies s (ob_id r) = 0" using rows row unfolding rows_ok_def job_ok_def by metis
  have "attempt_ok q (dv_now s) (dv_copies s) (start_attempt inline (dv_now s) r)"
    unfolding attempt_ok_def using row n
    by (intro conjI bexI[of _ x]) (auto simp: start_attempt_def DEFAULT_LEASE_MS_def)
  then show ?thesis
    using assms(2) rows fresh attempts_spared[OF assms(1,3)] assms(1)
    by (simp add: delivery_ok_def rows_ok_def start_attempt_def)
qed

text \<open>Leasing a pending job.\<close>

lemma lease_rows:
  assumes ok: "delivery_ok s" and x: "x \<in> set (rows (dv_queue s))" "ob_state x = PENDING"
    and P: "\<And>r. r \<in> set (rows (dv_queue s)) \<Longrightarrow> P r \<longleftrightarrow> r = x"
    and f: "f = (\<lambda>r. r\<lparr>ob_state := INFLIGHT, ob_lease_expires_at := Some e, ob_updated_at := now\<rparr>)"
  shows "rows_ok (dv_copies s) (insert (ob_id x) (set (map at_job (dv_attempts s)))) (tbl_update P f (dv_queue s))
     \<and> spares (dv_queue s) (tbl_update P f (dv_queue s)) \<and> f x \<in> set (rows (tbl_update P f (dv_queue s)))
     \<and> ob_send_started_at (f x) = None \<and> ob_id x \<notin> set (map at_job (dv_attempts s))"
proof -
  note q = delivery_queue[OF ok]
  have j: "job_ok (dv_copies s) (set (map at_job (dv_attempts s))) x" using q(2) x by (auto simp: rows_ok_def)
  have "ob_id x \<notin> set (map at_job (dv_attempts s))"
    using ok x ob_id_unique[OF q(1)] unfolding delivery_ok_def attempt_ok_def
    by (metis (no_types, lifting) image_iff list.set_map outbox_state.distinct(1))
  moreover have "rows_ok (dv_copies s) (insert (ob_id x) (set (map at_job (dv_attempts s)))) (tbl_update P f (dv_queue s))
     \<and> spares (dv_queue s) (tbl_update P f (dv_queue s))"
    using P x j f by (intro update_others rows_ok_live[OF q(2)]) (auto simp: job_ok_def)
  ultimately show ?thesis using P[OF x(1)] x j f by (auto simp: image_iff job_ok_def)
qed

lemma running_lease:
  assumes "delivery_ok s" "x \<in> set (rows (dv_queue s))" "ob_state x = INFLIGHT"
  shows "\<exists>e. ob_lease_expires_at x = Some e \<and> dv_now s < e"
proof -
  obtain a where a: "a \<in> set (dv_attempts s)" "at_job a = ob_id x"
    using assms unfolding delivery_ok_def job_ok_def by auto
  then obtain r' where "r' \<in> set (rows (dv_queue s))" "ob_id r' = ob_id x"
      "ob_lease_expires_at r' = Some (at_deadline a)" "dv_now s < at_deadline a"
    using assms unfolding delivery_ok_def attempt_ok_def by metis
  then show ?thesis using ob_id_unique[OF delivery_queue(1)[OF assms(1)] _ assms(2)] by metis
qed

lemma attempt_row:
  assumes "delivery_ok s" "a \<in> set (dv_attempts s)"
  obtains r where "r \<in> set (rows (dv_queue s))" "ob_id r = at_job a" "ob_kind r = ob_kind (at_item a)"
    "ob_state r = INFLIGHT" "ob_lease_expires_at r = Some (at_deadline a)"
    "phase_ok (ob_send_started_at r \<noteq> None) (dv_copies s (at_job a)) (is_creating (ob_kind r)) (at_phase a)"
  using assms unfolding delivery_ok_def attempt_ok_def by metis

lemma attempt_phase:
  assumes "delivery_ok s" "a \<in> set (dv_attempts s)"
  shows "\<exists>mark. phase_ok mark (dv_copies s (at_job a)) (is_creating (ob_kind (at_item a))) (at_phase a)"
proof (rule attempt_row[OF assms])
  fix r
  assume "ob_kind r = ob_kind (at_item a)"
    "phase_ok (ob_send_started_at r \<noteq> None) (dv_copies s (at_job a)) (is_creating (ob_kind r)) (at_phase a)"
  then show ?thesis by metis
qed

lemma fresh_id:
  assumes "delivery_ok s" shows "seq (dv_queue s) + 1 \<notin> set (map at_job (dv_attempts s))"
proof
  assume "seq (dv_queue s) + 1 \<in> set (map at_job (dv_attempts s))"
  then obtain a where a: "a \<in> set (dv_attempts s)" "at_job a = seq (dv_queue s) + 1" by auto
  obtain r where "r \<in> set (rows (dv_queue s))" "ob_id r = at_job a" using attempt_row[OF assms a(1)] by blast
  then show False using a(2) delivery_queue(1)[OF assms] by (auto simp: queue_ok_def tbl_ok_def)
qed

lemma claim_inline_ok:
  assumes ok: "delivery_ok s" and r: "r \<in> set (rows q)"
    and c: "claim_for_attempt (dv_now s) b d (ob_kind r) payload key ttl DEFAULT_LEASE_MS (dv_queue s) = ((ob_id r, True), q)"
  shows "delivery_ok (s\<lparr>dv_queue := q, dv_attempts := start_attempt True (dv_now s) r # dv_attempts s\<rparr>)"
proof -
  let ?cs = "dv_copies s" and ?live = "insert (ob_id r) (set (map at_job (dv_attempts s)))"
  note Q = delivery_queue[OF ok]
  have q: "queue_ok q" using queue_ok_claim[OF Q(1)] c by (metis snd_conv)
  show ?thesis
  proof (cases "by_source_key key (dv_queue s)")
    case (Some x)
    then have x: "x \<in> set (rows (dv_queue s))" by (auto dest: by_source_key_SomeD)
    have p: "ob_state x = PENDING" "ob_id x = ob_id r"
      using c Some running_lease[OF ok x] by (auto simp: claim_for_attempt_def Let_def split: if_splits)
    define f where "f = (\<lambda>x::outbox_item. x\<lparr>ob_state := INFLIGHT,
        ob_lease_expires_at := Some (dv_now s + DEFAULT_LEASE_MS), ob_updated_at := dv_now s\<rparr>)"
    have qe: "q = tbl_update (\<lambda>y. ob_id y = ob_id x) f (dv_queue s)"
      using c Some p by (auto simp: claim_for_attempt_def Let_def f_def split: if_splits)
    have u: "ob_id y = ob_id x \<longleftrightarrow> y = x" if "y \<in> set (rows (dv_queue s))" for y
      using ob_id_unique[OF Q(1) that x] by auto
    note L = lease_rows[OF ok x p(1) u f_def, unfolded p(2), folded qe[unfolded p(2)]]
    have "r = f x" using L ob_id_unique[OF q r, of "f x"] p(2) by (simp add: f_def)
    then show ?thesis using L by (intro claim_ok[OF ok q, of r "f x"]) (simp_all add: f_def)
  next
    case None
    let ?mk = "new_item (dv_now s) b d (ob_kind r) payload (dv_now s) INFLIGHT (Some key) ttl (Some (dv_now s + DEFAULT_LEASE_MS))"
    have e: "ob_id r = seq (dv_queue s) + 1" "q = snd (tbl_insert ?mk (dv_queue s))"
      using c None by (auto simp: claim_for_attempt_def tbl_insert_def)
    have "?mk (ob_id r) \<in> set (rows q)" by (simp add: e tbl_insert_def)
    then have re: "r = ?mk (ob_id r)" using ob_id_unique[OF q r, of "?mk (ob_id r)"] by simp
    have n: "?cs (seq (dv_queue s) + 1) = 0" using Q(2) by (simp add: rows_ok_def)
    have "rows_ok ?cs ?live q \<and> spares (dv_queue s) q" unfolding e(2)
      by (rule insert_others[OF rows_ok_live[OF Q(2)]]) (auto simp: job_ok_def new_item_def e(1) n)
    moreover have "ob_state r = INFLIGHT" "ob_lease_expires_at r = Some (dv_now s + DEFAULT_LEASE_MS)"
        "ob_send_started_at r = None"
      using re new_item_simps by metis+
    ultimately show ?thesis
      using fresh_id[OF ok] r e(1) by (intro claim_ok[OF ok q, of r r]) simp_all
  qed
qed

lemma claim_worker_ok:
  assumes ok: "delivery_ok s" and c: "claim_due (dv_now s) b 1 DEFAULT_LEASE_MS (dv_queue s) = ([r], q)"
  shows "delivery_ok (s\<lparr>dv_queue := q, dv_attempts := start_attempt False (dv_now s) r # dv_attempts s\<rparr>)"
proof -
  note Q = delivery_queue[OF ok]
  have q: "queue_ok q" using queue_ok_claim_due[OF Q(1)] c by (metis snd_conv)
  obtain x where d: "due_prefix (dv_now s) b 1 (dv_queue s) = [x]" and r: "r = x\<lparr>ob_state := INFLIGHT\<rparr>"
    using c by (auto simp: claim_due_def Let_def)
  have x: "x \<in> set (rows (dv_queue s))" "ob_state x = PENDING"
    using due_prefixD[of x "dv_now s" b 1 "dv_queue s"] d by auto
  define f where "f = (\<lambda>x::outbox_item. x\<lparr>ob_state := INFLIGHT,
      ob_lease_expires_at := Some (dv_now s + DEFAULT_LEASE_MS), ob_updated_at := dv_now s\<rparr>)"
  have qe: "q = tbl_update (\<lambda>y. ob_id y \<in> set (map ob_id [x])) f (dv_queue s)"
    using c d by (auto simp: claim_due_def Let_def f_def)
  have u: "ob_id y \<in> set (map ob_id [x]) \<longleftrightarrow> y = x" if "y \<in> set (rows (dv_queue s))" for y
    using ob_id_unique[OF Q(1) that x(1)] by auto
  note L = lease_rows[OF ok x u f_def, folded qe]
  show ?thesis using L by (intro claim_ok[OF ok q, of r "f x"]) (simp_all add: f_def r)
qed

subsection \<open>An attempt moves on\<close>

lemma set_phase_jobs [simp]: "map at_job (set_phase a ph as) = map at_job as"
  by (induction as) (simp_all add: set_phase_def)

lemma set_phase_mem: "x \<in> set (set_phase a ph as) \<Longrightarrow> x = a\<lparr>at_phase := ph\<rparr> \<or> (x \<in> set as \<and> x \<noteq> a)"
  by (auto simp: set_phase_def)

lemma same_job: "delivery_ok s \<Longrightarrow> a \<in> set (dv_attempts s) \<Longrightarrow> b \<in> set (dv_attempts s) \<Longrightarrow> at_job a = at_job b \<Longrightarrow> a = b"
  unfolding delivery_ok_def by (metis distinct_map inj_onD)

text \<open>A step of one attempt that writes only its own row, and only the columns the others do not read.\<close>

lemma phase_step_ok:
  assumes ok: "delivery_ok s" and a: "a \<in> set (dv_attempts s)"
    and q: "q = on_id (at_job a) f (dv_queue s)" "queue_ok q"
    and f: "\<And>r. ob_id (f r) = ob_id r \<and> ob_kind (f r) = ob_kind r \<and> ob_state (f r) = ob_state r
         \<and> ob_lease_expires_at (f r) = ob_lease_expires_at r \<and> ob_remote_message_id (f r) = ob_remote_message_id r"
    and cs: "\<And>i. i \<noteq> at_job a \<Longrightarrow> cs i = dv_copies s i"
    and row: "\<And>r. r \<in> set (rows (dv_queue s)) \<Longrightarrow> ob_id r = at_job a \<Longrightarrow> ob_kind r = ob_kind (at_item a)
        \<Longrightarrow> phase_ok (ob_send_started_at r \<noteq> None) (dv_copies s (at_job a)) (is_creating (ob_kind r)) (at_phase a)
        \<Longrightarrow> phase_ok (ob_send_started_at (f r) \<noteq> None) (cs (at_job a)) (is_creating (ob_kind r)) ph"
  shows "delivery_ok (s\<lparr>dv_queue := q, dv_copies := cs, dv_attempts := set_phase a ph (dv_attempts s)\<rparr>)"
proof -
  obtain r where r: "r \<in> set (rows (dv_queue s))" "ob_id r = at_job a" "ob_kind r = ob_kind (at_item a)"
      "ob_state r = INFLIGHT" "ob_lease_expires_at r = Some (at_deadline a)"
      "phase_ok (ob_send_started_at r \<noteq> None) (dv_copies s (at_job a)) (is_creating (ob_kind r)) (at_phase a)"
    using attempt_row[OF ok a] .
  note new = row[OF r(1-3,6)]
  have n: "cs (at_job a) \<le> 1" "ob_send_started_at (f r) = None \<Longrightarrow> cs (at_job a) = 0"
    using new by (cases ph; auto)+
  have Q: "queue_ok (dv_queue s)" using ok by (simp add: delivery_ok_def)
  have u: "x = r" if "x \<in> set (rows (dv_queue s))" "ob_id x = at_job a" for x
    using ob_id_unique[OF Q that(1) r(1)] that(2) r(2) by simp
  let ?live = "set (map at_job (dv_attempts s))"
  have live: "at_job a \<in> ?live" using a by simp
  have jobs: "job_ok cs ?live x" if x: "x \<in> set (rows q)" for x
  proof -
    obtain y where y: "y \<in> set (rows (dv_queue s))" "x = (if ob_id y = at_job a then f y else y)"
      using x by (auto simp: q(1) on_id_def)
    show ?thesis
    proof (cases "ob_id y = at_job a")
      case True
      have "ob_remote_message_id r = None" using ok r(1,4) by (auto simp: delivery_ok_def job_ok_def)
      then show ?thesis using True u[OF y(1) True] y(2) f[of r] r(2,4) n live by (auto simp: job_ok_def)
    next
      case False
      then show ?thesis using y ok cs by (auto simp: delivery_ok_def job_ok_def)
    qed
  qed
  have fr: "f r \<in> set (rows q)" using r(1,2) by (auto simp: q(1) on_id_def image_iff intro!: bexI[of _ r])
  have runs: "attempt_ok q (dv_now s) cs x" if x: "x \<in> set (set_phase a ph (dv_attempts s))" for x
  proof (cases "x = a\<lparr>at_phase := ph\<rparr>")
    case True
    then show ?thesis unfolding attempt_ok_def
      using fr f r new attempt_now[OF ok a] by (intro conjI bexI[of _ "f r"]) simp_all
  next
    case False
    then have y: "x \<in> set (dv_attempts s)" "at_job x \<noteq> at_job a"
      using set_phase_mem[OF x] same_job[OF ok _ a] by auto
    show ?thesis
    proof (rule attempt_ok_mono)
      show "attempt_ok (dv_queue s) (dv_now s) (dv_copies s) x" using ok y(1) by (simp add: delivery_ok_def)
      show "z \<in> set (rows q)" if "z \<in> set (rows (dv_queue s))" "ob_id z = at_job x" for z
        using that y(2) unfolding q(1) on_id_def by (intro update_keeps) auto
    qed (use y cs attempt_now[OF ok y(1)] in simp_all)
  qed
  have "cs i \<le> 1" for i using n(1) cs ok by (cases "i = at_job a") (auto simp: delivery_ok_def)
  moreover have "cs i = 0" if "i > seq q" for i
  proof -
    have "i \<noteq> at_job a" using that r(1,2) Q unfolding queue_ok_def tbl_ok_def by (auto simp: q(1) on_id_def)
    then show ?thesis using that cs ok by (auto simp: delivery_ok_def q(1) on_id_def)
  qed
  ultimately show ?thesis using q(2) jobs runs ok by (simp add: delivery_ok_def)
qed

subsection \<open>An attempt ends\<close>

fun ends :: "int \<Rightarrow> nat \<Rightarrow> bool \<Rightarrow> ob_call \<Rightarrow> bool" where
  "ends i n creating (C_done j remote) \<longleftrightarrow> j = i \<and> (remote \<noteq> None \<longrightarrow> creating \<longrightarrow> n = 1)"
| "ends i n creating (C_ambiguous j d) \<longleftrightarrow> j = i"
| "ends i n creating (C_defer j dl) \<longleftrightarrow> j = i \<and> n = 0"
| "ends i n creating (C_retry j dl d c) \<longleftrightarrow> j = i \<and> n = 0"
| "ends i n creating (C_failed j d) \<longleftrightarrow> j = i \<and> n = 0"
| "ends i n creating c \<longleftrightarrow> False"

lemma end_row:
  assumes "ends i n creating c" "n \<le> 1"
  shows "\<exists>f. ob_exec now c ob = on_id i f ob
     \<and> (\<forall>r cs live. ob_id r = i \<and> cs i = n \<and> is_creating (ob_kind r) = creating \<and> ob_remote_message_id r = None
          \<longrightarrow> job_ok cs live (f r))"
  using assms
  by (cases c)
     (auto simp: mark_done_def mark_ambiguous_def defer_job_def mark_retry_def mark_failed_def job_ok_def
        intro!: exI[where P = "\<lambda>f. on_id i g ob = on_id i f ob \<and> Q f" for g Q])

lemma end_ok:
  assumes ok: "delivery_ok s" and a: "a \<in> set (dv_attempts s)"
    and c: "ends (at_job a) (dv_copies s (at_job a)) (is_creating (ob_kind (at_item a))) c"
  shows "delivery_ok (s\<lparr>dv_queue := ob_exec (dv_now s) c (dv_queue s), dv_attempts := remove1 a (dv_attempts s)\<rparr>)"
proof -
  let ?q = "ob_exec (dv_now s) c (dv_queue s)"
  have Q: "queue_ok (dv_queue s)" using ok by (simp add: delivery_ok_def)
  have n: "dv_copies s (at_job a) \<le> 1" using ok by (simp add: delivery_ok_def)
  obtain f where f: "?q = on_id (at_job a) f (dv_queue s)"
    and F: "\<And>r cs live. ob_id r = at_job a \<Longrightarrow> cs (at_job a) = dv_copies s (at_job a)
       \<Longrightarrow> is_creating (ob_kind r) = is_creating (ob_kind (at_item a)) \<Longrightarrow> ob_remote_message_id r = None
       \<Longrightarrow> job_ok cs live (f r)"
    using end_row[OF c n, of "dv_now s" "dv_queue s"] by blast
  obtain r where r: "r \<in> set (rows (dv_queue s))" "ob_id r = at_job a" "ob_kind r = ob_kind (at_item a)"
      "ob_state r = INFLIGHT" using attempt_row[OF ok a] by metis
  have u: "x = r" if "x \<in> set (rows (dv_queue s))" "ob_id x = at_job a" for x
    using ob_id_unique[OF Q that(1) r(1)] that(2) r(2) by simp
  have d: "distinct (dv_attempts s)" "distinct (map at_job (remove1 a (dv_attempts s)))"
    using ok by (auto simp: delivery_ok_def distinct_map intro: inj_on_subset)
  have live: "set (map at_job (remove1 a (dv_attempts s))) = set (map at_job (dv_attempts s)) - {at_job a}"
    using d(1) same_job[OF ok a] by force
  have none: "ob_remote_message_id r = None" using ok r(1,4) by (auto simp: delivery_ok_def job_ok_def)
  have jobs: "job_ok (dv_copies s) (set (map at_job (remove1 a (dv_attempts s)))) x" if x: "x \<in> set (rows ?q)" for x
  proof -
    obtain y where y: "y \<in> set (rows (dv_queue s))" "x = (if ob_id y = at_job a then f y else y)"
      using x by (auto simp: f on_id_def)
    show ?thesis
    proof (cases "ob_id y = at_job a")
      case True
      then show ?thesis using u[OF y(1) True] y(2) r(2,3) none by (auto intro!: F)
    next
      case False
      then show ?thesis using y ok unfolding live by (auto simp: delivery_ok_def job_ok_def)
    qed
  qed
  have runs: "attempt_ok ?q (dv_now s) (dv_copies s) x" if x: "x \<in> set (remove1 a (dv_attempts s))" for x
  proof -
    have y: "x \<in> set (dv_attempts s)" "at_job x \<noteq> at_job a"
      using x d(1) same_job[OF ok _ a] by auto
    show ?thesis
    proof (rule attempt_ok_mono)
      show "attempt_ok (dv_queue s) (dv_now s) (dv_copies s) x" using ok y(1) by (simp add: delivery_ok_def)
      show "z \<in> set (rows ?q)" if "z \<in> set (rows (dv_queue s))" "ob_id z = at_job x" for z
        using that y(2) unfolding f on_id_def by (intro update_keeps) auto
    qed (use attempt_now[OF ok y(1)] in simp_all)
  qed
  have "seq ?q = seq (dv_queue s)" by (simp add: f on_id_def)
  then show ?thesis using jobs runs d(2) ok queue_ok_exec[OF Q] by (simp add: delivery_ok_def)
qed

text \<open>Both senders end an attempt with one of the five marks, and with a mark that lets the job run again
  only when nothing was created.\<close>

lemma not_created:
  assumes "phase_ok mark n (is_creating kind) (Answered m (Inl e))" "st_verdict (settle kind e m) \<noteq> V_AMBIGUOUS"
  shows "n = 0"
  using assms settle_ambiguous[of kind e m] by (cases "n = 1") auto

lemma pipe_finish_ends:
  assumes "phase_ok mark n (is_creating (ob_kind it)) (Answered m result)"
  shows "\<exists>c. pipe_finish now it m result ob = ob_exec now c ob \<and> ends (ob_id it) n (is_creating (ob_kind it)) c"
proof (cases result)
  case (Inr remote)
  then show ?thesis using assms by (intro exI[of _ "C_done (ob_id it) remote"]) (auto simp: pipe_finish_def)
next
  case (Inl e)
  let ?v = "settle (ob_kind it) e m"
  have n: "st_verdict ?v \<noteq> V_AMBIGUOUS \<Longrightarrow> n = 0" using not_created assms Inl by blast
  show ?thesis
  proof (cases "st_verdict ?v")
    case V_AMBIGUOUS
    then show ?thesis using Inl
      by (intro exI[of _ "C_ambiguous (ob_id it) (st_detail ?v)"]) (simp add: pipe_finish_def Let_def)
  next
    case V_DEFER
    then show ?thesis using Inl n
      by (intro exI[of _ "C_defer (ob_id it) (st_delay_ms ?v)"]) (simp add: pipe_finish_def Let_def)
  next
    case V_PERMANENT
    then show ?thesis using Inl n
      by (intro exI[of _ "C_failed (ob_id it) (''permanent: '' @ st_detail ?v)"]) (simp add: pipe_finish_def Let_def)
  next
    case V_RETRY
    then show ?thesis using Inl n
      by (intro exI[of _ "C_retry (ob_id it) (st_delay_ms ?v) (st_detail ?v) (st_costs_attempt ?v)"])
        (simp add: pipe_finish_def Let_def)
  qed
qed

lemma handle_failure_call:
  "\<exists>c. fst (handle_failure now p u b it e v (ob, st)) = ob_exec now c ob
     \<and> ((\<exists>x. c = C_failed (ob_id it) x) \<or> (\<exists>dl x k. c = C_retry (ob_id it) dl x k))"
proof -
  define G where "G = (\<lambda>ob'. \<exists>c. ob' = ob_exec now c ob
     \<and> ((\<exists>x. c = C_failed (ob_id it) x) \<or> (\<exists>dl x k. c = C_retry (ob_id it) dl x k)))"
  have "G (mark_failed now (ob_id it) x ob)" for x
    unfolding G_def by (intro exI[of _ "C_failed (ob_id it) x"]) simp
  moreover have "G (mark_retry now (ob_id it) dl x k ob)" for dl x k
    unfolding G_def by (intro exI[of _ "C_retry (ob_id it) dl x k"]) simp
  ultimately have "G (fst (handle_failure now p u b it e v (ob, st)))"
    by (simp add: handle_failure_def Let_def split_beta)
  then show ?thesis by (simp only: G_def)
qed

lemma worker_finish_ends:
  assumes "phase_ok mark n (is_creating (ob_kind it)) (Answered m result)"
  shows "\<exists>c. worker_finish now p u it m result ob = ob_exec now c ob \<and> ends (ob_id it) n (is_creating (ob_kind it)) c"
proof (cases result)
  case (Inr remote)
  then show ?thesis using assms by (intro exI[of _ "C_done (ob_id it) remote"]) (auto simp: worker_finish_def)
next
  case (Inl e)
  let ?v = "settle (ob_kind it) e m"
  have n: "st_verdict ?v \<noteq> V_AMBIGUOUS \<Longrightarrow> n = 0" using not_created assms Inl by blast
  define rest where "rest = (if is_cancelled e then mark_retry now (ob_id it) 0 ''cancelled'' True ob
        else fst (handle_failure now p u (ob_bridge_name it) it e ?v (ob, \<lambda>_. None)))"
  have again: "n = 0 \<Longrightarrow> \<exists>c. rest = ob_exec now c ob \<and> ends (ob_id it) n (is_creating (ob_kind it)) c"
  proof (cases "is_cancelled e")
    case True
    then show "n = 0 \<Longrightarrow> ?thesis"
      by (intro exI[of _ "C_retry (ob_id it) 0 ''cancelled'' True"]) (simp add: rest_def)
  next
    case False
    then show "n = 0 \<Longrightarrow> ?thesis"
      using handle_failure_call[of now p u "ob_bridge_name it" it e ?v ob "\<lambda>_. None"] by (auto simp: rest_def)
  qed
  show ?thesis
  proof (cases "st_verdict ?v")
    case V_AMBIGUOUS
    then show ?thesis using Inl
      by (intro exI[of _ "C_ambiguous (ob_id it) (st_detail ?v)"]) (simp add: worker_finish_def Let_def)
  next
    case V_DEFER
    then show ?thesis using Inl n
      by (intro exI[of _ "C_defer (ob_id it) (st_delay_ms ?v)"]) (simp add: worker_finish_def Let_def)
  next
    case V_PERMANENT
    then show ?thesis using again n Inl by (simp add: worker_finish_def Let_def rest_def)
  next
    case V_RETRY
    then show ?thesis using again n Inl by (simp add: worker_finish_def Let_def rest_def)
  qed
qed

subsection \<open>Every step keeps the invariant\<close>

lemma restart_row:
  assumes "delivery_ok s" "r \<in> set (rows (dv_queue s))"
  shows "job_ok (dv_copies s) {} (if ob_state r = INFLIGHT then recover_item now r else r)"
  using assms by (auto simp: delivery_ok_def job_ok_def recover_item_def)

lemma restart_ok:
  assumes ok: "delivery_ok s"
  shows "delivery_ok (s\<lparr>dv_queue := snd (requeue_inflight (dv_now s) (dv_queue s)), dv_attempts := []\<rparr>)"
proof -
  have Q: "queue_ok (dv_queue s)" using ok by (simp add: delivery_ok_def)
  have e: "snd (requeue_inflight (dv_now s) (dv_queue s))
      = tbl_update (\<lambda>r. ob_state r = INFLIGHT) (recover_item (dv_now s)) (dv_queue s)"
    by (simp add: requeue_inflight_def recover_select[OF Q])
  have "queue_ok (snd (requeue_inflight (dv_now s) (dv_queue s)))"
    using queue_ok_exec[OF Q, of "dv_now s" C_requeue] by simp
  moreover have "job_ok (dv_copies s) {} r"
    if m: "r \<in> set (rows (snd (requeue_inflight (dv_now s) (dv_queue s))))" for r
  proof -
    obtain x where "x \<in> set (rows (dv_queue s))" "r = (if ob_state x = INFLIGHT then recover_item (dv_now s) x else x)"
      using m unfolding e rows_update set_map by blast
    then show ?thesis using restart_row[OF ok] by metis
  qed
  ultimately show ?thesis using ok by (simp add: delivery_ok_def e)
qed

lemma delivery_step_ok:
  assumes "delivery_step True p s t" "delivery_ok s"
  shows "delivery_ok t"
  using assms
proof (induction rule: delivery_step.induct)
  case (tick s t)
  then show ?case by (auto simp: delivery_ok_def attempt_ok_def)
next
  case (background_call c s)
  then show ?case
    using background_others[OF background_call(2,1) delivery_queue(2)] queue_ok_exec[OF delivery_queue(1)]
    by (intro others_ok) auto
next
  case (claim_inline s b d r payload key ttl q)
  then show ?case by (intro claim_inline_ok)
next
  case (claim_worker s b r q)
  then show ?case by (intro claim_worker_ok)
next
  case (step_aside a s)
  have n: "dv_copies s (at_job a) = 0" using attempt_phase[OF step_aside(5,1)] step_aside(2) by simp
  show ?case
    using end_ok[OF step_aside(5,1), of "C_defer (at_job a) ORDER_WAIT_MS"] n by simp
next
  case (request a s)
  have q: "queue_ok (mark_sending (dv_now s) (at_job a) (dv_queue s))"
    using queue_ok_exec[OF delivery_queue(1)[OF request(3)], of "dv_now s" "C_sending (at_job a)"] by simp
  have "delivery_ok (s\<lparr>dv_queue := mark_sending (dv_now s) (at_job a) (dv_queue s), dv_copies := dv_copies s,
      dv_attempts := set_phase a Requested (dv_attempts s)\<rparr>)"
    by (rule phase_step_ok[OF request(3,1) fun_cong[OF mark_sending_def] q]) (simp_all add: request(2))
  then show ?case by simp
next
  case (create a s)
  have same: "dv_queue s = on_id (at_job a) (\<lambda>r. r) (dv_queue s)" by (simp add: on_id_def tbl_update_def)
  have "delivery_ok (s\<lparr>dv_queue := dv_queue s,
      dv_copies := (dv_copies s)(at_job a := dv_copies s (at_job a) + 1),
      dv_attempts := set_phase a Created (dv_attempts s)\<rparr>)"
    by (rule phase_step_ok[OF create(4,1) same delivery_queue(1)[OF create(4)]]) (use create(2,3) in auto)
  then show ?case by simp
next
  case (answer a s result)
  have same: "dv_queue s = on_id (at_job a) (\<lambda>r. r) (dv_queue s)" by (simp add: on_id_def tbl_update_def)
  have row: "phase_ok mark n (is_creating (ob_kind (at_item a))) (at_phase a)
      \<Longrightarrow> phase_ok mark n (is_creating (ob_kind (at_item a))) (Answered (at_phase a \<noteq> Preparing) result)" for mark n
    using answer(2,3) by (cases result; cases "at_phase a") (auto elim: truthful.elims)
  have "delivery_ok (s\<lparr>dv_queue := dv_queue s, dv_copies := dv_copies s,
      dv_attempts := set_phase a (Answered (at_phase a \<noteq> Preparing) result) (dv_attempts s)\<rparr>)"
    by (rule phase_step_ok[OF answer(4,1) same delivery_queue(1)[OF answer(4)]]) (use row in auto)
  then show ?case by simp
next
  case (settle_inline a s marked result)
  obtain mark where "phase_ok mark (dv_copies s (at_job a)) (is_creating (ob_kind (at_item a))) (Answered marked result)"
    using attempt_phase[OF settle_inline(4,1)] settle_inline(2) by auto
  from pipe_finish_ends[OF this, of "dv_now s" "dv_queue s"] show ?case
    using end_ok[OF settle_inline(4,1)] by auto
next
  case (settle_worker a s marked result u)
  obtain mark where "phase_ok mark (dv_copies s (at_job a)) (is_creating (ob_kind (at_item a))) (Answered marked result)"
    using attempt_phase[OF settle_worker(4,1)] settle_worker(2) by auto
  from worker_finish_ends[OF this, of "dv_now s" p u "dv_queue s"] show ?case
    using end_ok[OF settle_worker(4,1)] by auto
next
  case (restart s)
  then show ?case by (rule restart_ok)
qed

subsection \<open>At most once\<close>

lemma reachable_ok: "reachable_delivery True p s \<Longrightarrow> delivery_ok s"
proof (induction rule: reachable_delivery.induct)
  case boot
  show ?case by (rule idle_ok)
next
  case (move s t)
  then show ?case by (blast intro: delivery_step_ok)
qed


subsection \<open>An attempt that outlives its lease\<close>

text \<open>The states of one run. A message arrives and the inline sender takes its job and downloads the
  attachment; after 120 seconds the sweep finds the lease expired and no send mark, so the job is PENDING;
  the worker takes it and sends; the inline sender finishes its download and sends.\<close>

definition slow_claim :: delivery where
  "slow_claim = (let q = snd (claim_for_attempt 0 ''b'' MAX_TO_TG ''max_to_tg_media'' JNull ''max:1:1'' None
        DEFAULT_LEASE_MS empty_tbl)
     in idle_delivery\<lparr>dv_queue := q, dv_attempts := [start_attempt True 0 (hd (rows q))]\<rparr>)"

definition slow_download :: delivery where
  "slow_download = slow_claim\<lparr>dv_now := 120000\<rparr>"

definition slow_swept :: delivery where
  "slow_swept = slow_download\<lparr>dv_queue := ob_exec (dv_now slow_download) C_reclaim (dv_queue slow_download)\<rparr>"

definition slow_second :: delivery where
  "slow_second = (let c = claim_due (dv_now slow_swept) ''b'' 1 DEFAULT_LEASE_MS (dv_queue slow_swept)
     in slow_swept\<lparr>dv_queue := snd c,
          dv_attempts := start_attempt False (dv_now slow_swept) (hd (fst c)) # dv_attempts slow_swept\<rparr>)"

definition sent_by :: "attempt \<Rightarrow> int \<Rightarrow> delivery \<Rightarrow> delivery" where
  "sent_by a m s =
     (let a1 = a\<lparr>at_phase := Requested\<rparr>; a2 = a\<lparr>at_phase := Created\<rparr>; a3 = a\<lparr>at_phase := Answered True (Inr (Some m))\<rparr>
      in s\<lparr>dv_queue := mark_done (dv_now s) (at_job a) (Some m) (mark_sending (dv_now s) (at_job a) (dv_queue s)),
           dv_copies := (dv_copies s)(at_job a := dv_copies s (at_job a) + 1),
           dv_attempts := remove1 a3 (set_phase a2 (Answered True (Inr (Some m)))
              (set_phase a1 Created (set_phase a Requested (dv_attempts s))))\<rparr>)"

lemma set_phase_in: "a \<in> set as \<Longrightarrow> a\<lparr>at_phase := ph\<rparr> \<in> set (set_phase a ph as)"
  by (auto simp: set_phase_def)

text \<open>An undisturbed attempt that succeeds.\<close>

lemma reach_sent:
  assumes s: "reachable_delivery on_time p s" and a: "a \<in> set (dv_attempts s)" "at_phase a = Preparing"
    and k: "is_creating (ob_kind (at_item a))"
  shows "reachable_delivery on_time p (sent_by a m s)"
proof -
  define a1 a2 a3 where "a1 = a\<lparr>at_phase := Requested\<rparr>" and "a2 = a\<lparr>at_phase := Created\<rparr>"
    and "a3 = a\<lparr>at_phase := Answered True (Inr (Some m))\<rparr>"
  define s1 where "s1 = s\<lparr>dv_queue := mark_sending (dv_now s) (at_job a) (dv_queue s),
      dv_attempts := set_phase a Requested (dv_attempts s)\<rparr>"
  define s2 where "s2 = s1\<lparr>dv_copies := (dv_copies s1)(at_job a1 := dv_copies s1 (at_job a1) + 1),
      dv_attempts := set_phase a1 Created (dv_attempts s1)\<rparr>"
  define s3 where "s3 = s2\<lparr>dv_attempts := set_phase a2 (Answered (at_phase a2 \<noteq> Preparing) (Inr (Some m))) (dv_attempts s2)\<rparr>"
  have r1: "reachable_delivery on_time p s1" unfolding s1_def
    by (rule move[OF s request[OF a]])
  have m1: "a1 \<in> set (dv_attempts s1)" using set_phase_in[OF a(1), of Requested] by (simp add: s1_def a1_def)
  have r2: "reachable_delivery on_time p s2" unfolding s2_def
    by (rule move[OF r1 create[OF m1]]) (simp_all add: a1_def k)
  have m2: "a2 \<in> set (dv_attempts s2)" using set_phase_in[OF m1, of Created] by (simp add: s2_def a1_def a2_def)
  have r3: "reachable_delivery on_time p s3" unfolding s3_def
    by (rule move[OF r2 answer[OF m2]]) (simp_all add: a2_def)
  have m3: "a3 \<in> set (dv_attempts s3)"
    using set_phase_in[OF m2, of "Answered True (Inr (Some m))"] by (simp add: s3_def a2_def a3_def)
  have e: "sent_by a m s = s3\<lparr>dv_queue := mark_done (dv_now s3) (at_job a3) (Some m) (dv_queue s3),
      dv_attempts := remove1 a3 (dv_attempts s3)\<rparr>"
    by (simp add: sent_by_def s3_def s2_def s1_def a1_def a2_def a3_def Let_def)
  show ?thesis
  proof (cases "at_inline a")
    case True
    show ?thesis using move[OF r3 settle_inline[OF m3, of True "Inr (Some m)"]] True
      unfolding e by (simp add: a3_def pipe_finish_def)
  next
    case False
    show ?thesis using move[OF r3 settle_worker[OF m3, of True "Inr (Some m)"]] False
      unfolding e by (simp add: a3_def worker_finish_def)
  qed
qed

lemma reach_slow_claim: "reachable_delivery on_time p slow_claim"
proof -
  define q where "q = snd (claim_for_attempt 0 ''b'' MAX_TO_TG ''max_to_tg_media'' JNull ''max:1:1'' None DEFAULT_LEASE_MS empty_tbl)"
  define r where "r = hd (rows q)"
  have c: "claim_for_attempt (dv_now idle_delivery) ''b'' MAX_TO_TG (ob_kind r) JNull ''max:1:1'' None DEFAULT_LEASE_MS
      (dv_queue idle_delivery) = ((ob_id r, True), q)" "r \<in> set (rows q)"
    by (simp_all add: r_def q_def claim_for_attempt_def by_source_key_def tbl_defs new_item_def idle_delivery_def)
  have e: "slow_claim = idle_delivery\<lparr>dv_queue := q, dv_attempts := start_attempt True (dv_now idle_delivery) r # dv_attempts idle_delivery\<rparr>"
    by (simp add: slow_claim_def Let_def q_def r_def idle_delivery_def)
  show ?thesis unfolding e by (rule move[OF boot claim_inline[OF c]])
qed



end
