(* ===== verification/Effects.thy ===== *)
theory Effects
  imports Failures
begin

section \<open>Coroutines that may raise\<close>

text \<open>
  A coroutine of the program, run to its end: a function of the state it finds to what it raises or
  returns, and the state it leaves - what was done before an exception stays done. \<open>act\<close> is its type,
  \<open>andthen\<close> one \<open>await\<close> after another, and \<open>triple\<close> the Hoare triple with a postcondition for each way out.
\<close>

type_synonym ('a, 's) act = "'s \<Rightarrow> (failure + 'a) \<times> 's"

definition ret :: "'a \<Rightarrow> ('a, 's) act" where
  "ret a s = (Inr a, s)"

definition throw :: "failure \<Rightarrow> ('a, 's) act" where
  "throw e s = (Inl e, s)"

definition reads :: "('s \<Rightarrow> 'a) \<Rightarrow> ('a, 's) act" where
  "reads f s = (Inr (f s), s)"

definition writes :: "('s \<Rightarrow> 's) \<Rightarrow> (unit, 's) act" where
  "writes f s = (Inr (), f s)"

definition andthen :: "('a, 's) act \<Rightarrow> ('a \<Rightarrow> ('b, 's) act) \<Rightarrow> ('b, 's) act" where
  "andthen c f s = (case c s of (Inl e, t) \<Rightarrow> (Inl e, t) | (Inr a, t) \<Rightarrow> f a t)"

fun each :: "('a \<Rightarrow> ('b, 's) act) \<Rightarrow> 'a list \<Rightarrow> ('b list, 's) act" where
  "each f [] = ret []"
| "each f (x # xs) = andthen (f x) (\<lambda>y. andthen (each f xs) (\<lambda>ys. ret (y # ys)))"

text \<open>\<open>try: .. except Exception\<close>: an exception becomes a value. A cancellation is not an \<open>Exception\<close>.\<close>

definition catching :: "('a, 's) act \<Rightarrow> (failure \<Rightarrow> ('a, 's) act) \<Rightarrow> ('a, 's) act" where
  "catching c h s = (case c s of (Inl e, t) \<Rightarrow> if is_cancelled e then (Inl e, t) else h e t | r \<Rightarrow> r)"

lemma act_simps [simp]:
  "ret a s = (Inr a, s)" "throw e s = (Inl e, s)" "reads g s = (Inr (g s), s)" "writes h s = (Inr (), h s)"
  by (simp_all add: ret_def throw_def reads_def writes_def)

lemma andthen_cases:
  "c s = (Inl e, t) \<Longrightarrow> andthen c f s = (Inl e, t)"
  "c s = (Inr a, t) \<Longrightarrow> andthen c f s = f a t"
  by (simp_all add: andthen_def)

lemma andthen_ret [simp]:
  "andthen (ret a) f s = f a s" "andthen (throw e) f s = (Inl e, s)"
  "andthen (reads g) f s = f (g s) s" "andthen (writes h) k s = k () (h s)"
  by (simp_all add: andthen_def)

subsection \<open>Triples\<close>

definition triple :: "('s \<Rightarrow> bool) \<Rightarrow> ('a, 's) act \<Rightarrow> ('a \<Rightarrow> 's \<Rightarrow> bool) \<Rightarrow> (failure \<Rightarrow> 's \<Rightarrow> bool) \<Rightarrow> bool" where
  "triple P c Q E \<longleftrightarrow> (\<forall>s. P s \<longrightarrow> (case c s of (Inl e, t) \<Rightarrow> E e t | (Inr a, t) \<Rightarrow> Q a t))"

lemma tripleD:
  "triple P c Q E \<Longrightarrow> P s \<Longrightarrow> c s = (Inr a, t) \<Longrightarrow> Q a t"
  "triple P c Q E \<Longrightarrow> P s \<Longrightarrow> c s = (Inl e, t) \<Longrightarrow> E e t"
  by (fastforce simp: triple_def)+

lemma tripleI:
  assumes "\<And>s a t. P s \<Longrightarrow> c s = (Inr a, t) \<Longrightarrow> Q a t" "\<And>s e t. P s \<Longrightarrow> c s = (Inl e, t) \<Longrightarrow> E e t"
  shows "triple P c Q E"
  using assms by (auto simp: triple_def split: prod.splits sum.splits)

lemma triple_ret: "(\<And>s. P s \<Longrightarrow> Q a s) \<Longrightarrow> triple P (ret a) Q E"
  by (simp add: triple_def)

lemma triple_throw: "(\<And>s. P s \<Longrightarrow> E e s) \<Longrightarrow> triple P (throw e) Q E"
  by (simp add: triple_def)

lemma triple_andthen:
  assumes "triple P c R E" "\<And>a. triple (R a) (f a) Q E"
  shows "triple P (andthen c f) Q E"
  using assms by (fastforce simp: triple_def andthen_def split: prod.splits sum.splits)

lemma triple_post:
  assumes "triple P c Q E" "\<And>a s. Q a s \<Longrightarrow> Q' a s" "\<And>e s. E e s \<Longrightarrow> E' e s"
  shows "triple P c Q' E'"
  using assms by (fastforce simp: triple_def split: prod.splits sum.splits)

lemma triple_pre: "triple P c Q E \<Longrightarrow> (\<And>s. P' s \<Longrightarrow> P s) \<Longrightarrow> triple P' c Q E"
  by (auto simp: triple_def)

lemma triple_catching:
  assumes "triple P c Q F" "\<And>e. triple (F e) (h e) Q E" "\<And>e s. F e s \<Longrightarrow> is_cancelled e \<Longrightarrow> E e s"
  shows "triple P (catching c h) Q E"
proof (rule tripleI)
  fix s a t assume "P s" and r: "catching c h s = (Inr a, t)"
  then show "Q a t"
    using tripleD[OF assms(1) \<open>P s\<close>] tripleD[OF assms(2)]
    by (auto simp: catching_def split: prod.splits sum.splits if_splits)
next
  fix s e t assume "P s" and r: "catching c h s = (Inl e, t)"
  then show "E e t"
    using tripleD[OF assms(1) \<open>P s\<close>] tripleD[OF assms(2)] assms(3)
    by (auto simp: catching_def split: prod.splits sum.splits if_splits)
qed

text \<open>An invariant is a triple with the same condition everywhere.\<close>

definition stays :: "('s \<Rightarrow> bool) \<Rightarrow> ('a, 's) act \<Rightarrow> bool" where
  "stays I c \<longleftrightarrow> (\<forall>s. I s \<longrightarrow> I (snd (c s)))"

named_theorems stays_intro "a coroutine keeps an invariant"

lemma stays_triple: "stays I c \<longleftrightarrow> triple I c (\<lambda>_. I) (\<lambda>_. I)"
  by (auto simp: stays_def triple_def split: prod.splits sum.splits) (metis prod.collapse)+

lemma stays_simple [stays_intro, intro]: "stays I (ret a)" "stays I (throw e)" "stays I (reads f)"
  by (simp_all add: stays_def)

lemma stays_andthen [stays_intro]: "stays I c \<Longrightarrow> (\<And>a. stays I (f a)) \<Longrightarrow> stays I (andthen c f)"
  by (auto simp: stays_def andthen_def split: prod.splits sum.splits; metis snd_conv)

lemma stays_catching [stays_intro]: "stays I c \<Longrightarrow> (\<And>e. stays I (h e)) \<Longrightarrow> stays I (catching c h)"
  by (auto simp: stays_def catching_def split: prod.splits sum.splits; metis snd_conv)

lemma stays_each: "(\<And>x. x \<in> set xs \<Longrightarrow> stays I (f x)) \<Longrightarrow> stays I (each f xs)"
  by (induction xs) (auto intro!: stays_andthen)

end
