(* ===== verification/Media_Delivery.thy ===== *)
theory Media_Delivery
  imports Effects Owner_Mutation Rendering
begin

section \<open>A MAX message with attachments, delivered into Telegram\<close>

text \<open>
  \<open>media/delivery.py\<close>, and the two functions of \<open>routing/delivery.py\<close> that carry an attachment through the
  queue. The media pipeline (download, cover, digest) and the sender are records of coroutines, the sender
  already addressed to one bot and one chat; a failed download is a value of \<open>fetched\<close>, every other
  exception is the left side of a sum. Texts are code points, the formatting ranges of a caption are the
  JSON value the payload carries. The lifetime of the temporary files is the pipeline's and is not modelled.
\<close>

subsection \<open>Attachments\<close>

datatype attachment_kind =
    A_PHOTO | A_VIDEO | A_VIDEO_NOTE | A_VOICE | A_MUSIC | A_FILE | A_STICKER | A_CONTACT | A_CALL | A_LINK
  | A_SERVICE | A_UNKNOWN

fun kind_value :: "attachment_kind \<Rightarrow> string" where
  "kind_value A_PHOTO = ''photo''"
| "kind_value A_VIDEO = ''video''"
| "kind_value A_VIDEO_NOTE = ''video_note''"
| "kind_value A_VOICE = ''voice''"
| "kind_value A_MUSIC = ''music''"
| "kind_value A_FILE = ''file''"
| "kind_value A_STICKER = ''sticker''"
| "kind_value A_CONTACT = ''contact''"
| "kind_value A_CALL = ''call''"
| "kind_value A_LINK = ''link''"
| "kind_value A_SERVICE = ''service''"
| "kind_value A_UNKNOWN = ''unknown''"

definition all_kinds :: "attachment_kind list" where
  "all_kinds = [A_PHOTO, A_VIDEO, A_VIDEO_NOTE, A_VOICE, A_MUSIC, A_FILE, A_STICKER, A_CONTACT, A_CALL, A_LINK,
     A_SERVICE, A_UNKNOWN]"

definition kind_named :: "string \<Rightarrow> attachment_kind option" where
  "kind_named s = find (\<lambda>k. kind_value k = s) all_kinds"

record attachment =
  ma_kind :: attachment_kind
  ma_duration_ms :: "int option"
  ma_width :: "int option"
  ma_height :: "int option"
  ma_file_name :: "ucs option"
  ma_size :: "int option"
  ma_title :: "ucs option"
  ma_performer :: "ucs option"
  ma_missed :: bool
  ma_call_video :: bool
  ma_notice :: "ucs option"
  ma_event :: "ucs option"
  ma_url :: "ucs option"
  ma_contact_name :: "ucs option"
  ma_contact_phone :: "ucs option"
  ma_contact_vcard :: "ucs option"
  ma_contact_user_id :: "int option"
  ma_contact_photo_url :: "ucs option"
  ma_raw :: pyval

text \<open>The fields of \<open>IncomingMaxMessage\<close> a delivery reads.\<close>

record media_message =
  mg_message_id :: int
  mg_chat_id :: int
  mg_is_outgoing :: bool
  mg_attachments :: "attachment list"

subsection \<open>What is said instead of a file\<close>

definition CAPTION_LIMIT :: nat where "CAPTION_LIMIT = 1024"

definition ALBUM_KINDS :: "attachment_kind set" where "ALBUM_KINDS = {A_PHOTO, A_VIDEO}"

fun KIND_NAMES :: "attachment_kind \<Rightarrow> ucs" where
  "KIND_NAMES A_PHOTO = [1092, 1086, 1090, 1086]"
| "KIND_NAMES A_VIDEO = [1074, 1080, 1076, 1077, 1086]"
| "KIND_NAMES A_VIDEO_NOTE = [1082, 1088, 1091, 1078, 1086, 1082]"
| "KIND_NAMES A_VOICE = [1075, 1086, 1083, 1086, 1089, 1086, 1074, 1086, 1077]"
| "KIND_NAMES A_MUSIC = [1072, 1091, 1076, 1080, 1086]"
| "KIND_NAMES A_FILE = [1092, 1072, 1081, 1083]"
| "KIND_NAMES A_STICKER = [1089, 1090, 1080, 1082, 1077, 1088]"
| "KIND_NAMES A_CONTACT = [1082, 1086, 1085, 1090, 1072, 1082, 1090]"
| "KIND_NAMES A_CALL = [1079, 1074, 1086, 1085, 1086, 1082]"
| "KIND_NAMES A_LINK = [1089, 1089, 1099, 1083, 1082, 1072]"
| "KIND_NAMES A_SERVICE = [1091, 1074, 1077, 1076, 1086, 1084, 1083, 1077, 1085, 1080, 1077]"
| "KIND_NAMES A_UNKNOWN = [1074, 1083, 1086, 1078, 1077, 1085, 1080, 1077]"

definition too_large_notice :: "attachment_kind \<Rightarrow> int \<Rightarrow> ucs" where
  "too_large_notice k limit_bytes =
     [91] @ KIND_NAMES k
     @ [58, 32, 1092, 1072, 1081, 1083, 32, 1073, 1086, 1083, 1100, 1096, 1077, 32, 1083, 1080, 1084, 1080, 1090, 1072, 32, 1074, 32]
     @ asc (show_int (limit_bytes div 1024 div 1024)) @ [32, 1052, 1041, 93]"

definition unavailable_notice :: "attachment_kind \<Rightarrow> ucs" where
  "unavailable_notice k =
     [91] @ KIND_NAMES k
     @ [58, 32, 1085, 1077, 32, 1091, 1076, 1072, 1083, 1086, 1089, 1100, 32, 1089, 1082, 1072, 1095, 1072, 1090, 1100, 93]"

definition UNKNOWN_NOTICE :: ucs where
  "UNKNOWN_NOTICE =
     [91, 77, 65, 88, 32, 1087, 1088, 1080, 1089, 1083, 1072, 1083, 32, 1074, 1083, 1086, 1078, 1077, 1085, 1080, 1077,
      32, 1085, 1077, 1080, 1079, 1074, 1077, 1089, 1090, 1085, 1086, 1075, 1086, 32, 1090, 1080, 1087, 1072, 32, 8212, 32,
      1087, 1086, 1082, 1072, 1079, 1072, 1090, 1100, 32, 1077, 1075, 1086, 32, 1087, 1086, 1082, 1072, 32, 1085, 1077, 32,
      1091, 1084, 1077, 1102, 93]"

definition strip_opt :: "ucs option \<Rightarrow> ucs" where
  "strip_opt t = ustrip (some_text t)"

fun occurs :: "ucs \<Rightarrow> ucs \<Rightarrow> bool" where
  "occurs p [] = (p = [])"
| "occurs p (c # t) = (take (length p) (c # t) = p \<or> occurs p t)"

definition on_top :: "ucs \<Rightarrow> ucs \<Rightarrow> ucs" where
  "on_top body line = (if body \<noteq> [] then body @ [10] @ line else line)"

definition link_text :: "attachment \<Rightarrow> ucs option \<Rightarrow> ucs" where
  "link_text a caption =
     (let url = strip_opt (ma_url a); body = strip_opt caption
      in if url = [] then body else if body = [] then url
         else if occurs url body then body else body @ [10] @ url)"

definition SERVICE_NOTICE :: ucs where
  "SERVICE_NOTICE =
     [77, 65, 88, 58, 32, 1089, 1083, 1091, 1078, 1077, 1073, 1085, 1086, 1077, 32, 1091, 1074, 1077, 1076, 1086, 1084,
      1083, 1077, 1085, 1080, 1077]"

definition service_text :: "attachment \<Rightarrow> ucs option \<Rightarrow> ucs" where
  "service_text a caption =
     (let notice = strip_opt (ma_notice a); event = strip_opt (ma_event a)
      in on_top (strip_opt caption)
           (if notice \<noteq> [] then notice
            else if event \<noteq> [] then SERVICE_NOTICE @ [32, 40] @ event @ [41] else SERVICE_NOTICE))"

definition dict_get :: "string \<Rightarrow> pyval \<Rightarrow> pyval option" where
  "dict_get k d = (case d of PyDict kvs \<Rightarrow> map_of kvs (KStr k) | _ \<Rightarrow> None)"

definition two_digits :: "int \<Rightarrow> ucs" where
  "two_digits n = pad2 (nat n)"

definition duration_text :: "int \<Rightarrow> ucs" where
  "duration_text seconds =
     (let hours = seconds div 3600; rest = seconds mod 3600; minutes = rest div 60; secs = rest mod 60
      in if hours \<noteq> 0 then asc (show_int hours) @ [32, 1095, 32] @ two_digits minutes @ [32, 1084, 1080, 1085]
         else if minutes \<noteq> 0 then
           asc (show_int minutes) @ [32, 1084, 1080, 1085]
           @ (if secs \<noteq> 0 then [32] @ two_digits secs @ [32, 1089] else [])
         else asc (show_int secs) @ [32, 1089])"

definition CONTACT_CARD_NAMELESS :: ucs where
  "CONTACT_CARD_NAMELESS = [128100, 32, 1050, 1086, 1085, 1090, 1072, 1082, 1090, 32, 91, 77, 97, 120, 93]"

definition BRIDGE_BUTTON :: ucs where
  "BRIDGE_BUTTON = [1055, 1086, 1076, 1085, 1103, 1090, 1100, 32, 1084, 1086, 1089, 1090]"

definition contact_card_text :: "attachment \<Rightarrow> ucs option \<Rightarrow> ucs" where
  "contact_card_text a caption =
     (let name = strip_opt (ma_contact_name a)
      in on_top (strip_opt caption)
           (if name \<noteq> [] then CONTACT_CARD_NAMELESS @ [58, 32] @ name else CONTACT_CARD_NAMELESS))"

definition contact_first_last :: "attachment \<Rightarrow> ucs \<times> ucs option" where
  "contact_first_last a =
     (let name = strip_opt (ma_contact_name a);
          rest = dropWhile isspace (dropWhile (\<lambda>c. \<not> isspace c) name)
      in if name = [] then ([1050, 1086, 1085, 1090, 1072, 1082, 1090], None)
         else (takeWhile (\<lambda>c. \<not> isspace c) name, if rest \<noteq> [] then Some rest else None))"

text \<open>\<open>CALL_KINDS\<close>: the icon, the name, and the name capitalised.\<close>

definition CALL_KINDS :: "bool \<Rightarrow> ucs \<times> ucs \<times> ucs" where
  "CALL_KINDS video =
     (if video then ([128249], 1074 # [1080, 1076, 1077, 1086, 1079, 1074, 1086, 1085, 1086, 1082],
                     1042 # [1080, 1076, 1077, 1086, 1079, 1074, 1086, 1085, 1086, 1082])
      else ([128222], 1072 # [1091, 1076, 1080, 1086, 1079, 1074, 1086, 1085, 1086, 1082],
            1040 # [1091, 1076, 1080, 1086, 1079, 1074, 1086, 1085, 1086, 1082]))"

definition call_text :: "attachment \<Rightarrow> bool \<Rightarrow> ucs" where
  "call_text a is_outgoing =
     (case CALL_KINDS (ma_call_video a) of (icon, kind, capital) \<Rightarrow>
        (case ma_duration_ms a of
           Some d \<Rightarrow>
             if ma_missed a \<or> d = 0
             then (if is_outgoing then icon @ [32] @ capital @ [32, 1073, 1077, 1079, 32, 1086, 1090, 1074, 1077, 1090, 1072]
                   else icon @ [32, 1055, 1088, 1086, 1087, 1091, 1097, 1077, 1085, 1085, 1099, 1081, 32] @ kind)
             else icon @ [32] @ capital @ [32, 183, 32] @ duration_text (d div 1000)
         | None \<Rightarrow>
             (if is_outgoing then icon @ [32] @ capital @ [32, 1073, 1077, 1079, 32, 1086, 1090, 1074, 1077, 1090, 1072]
              else icon @ [32, 1055, 1088, 1086, 1087, 1091, 1097, 1077, 1085, 1085, 1099, 1081, 32] @ kind)))"

subsection \<open>Receipts\<close>

definition check_album_receipt :: "int list \<Rightarrow> nat \<Rightarrow> failure option" where
  "check_album_receipt ids n =
     (if length ids \<noteq> n then Some (UnconfirmedDeliveryError ''Telegram answered an album of another size'')
      else if length (remdups ids) \<noteq> length ids
        then Some (UnconfirmedDeliveryError ''Telegram named the same message twice in one album'')
      else if list_ex (\<lambda>(a, b). a \<ge> b) (zip ids (tl ids))
        then Some (UnconfirmedDeliveryError
          ''Telegram answered an album out of ascending order; the parts cannot be told apart'')
      else if list_ex (\<lambda>i. i \<le> 0) ids
        then Some (UnconfirmedDeliveryError ''Telegram named a message id that cannot exist'')
      else None)"

record delivered_part =
  dp_message_id :: int
  dp_kind :: attachment_kind
  dp_index :: nat

record delivery_receipt =
  dr_head :: "int option"
  dr_album :: "delivered_part list"
  dr_group :: "string option"

definition split_caption :: "ucs \<Rightarrow> ucs option \<times> ucs" where
  "split_caption caption =
     (let t = ustrip caption
      in if t = [] then (None, []) else if length t \<le> CAPTION_LIMIT then (Some t, []) else (None, t))"

definition album_attachments :: "media_message \<Rightarrow> attachment list" where
  "album_attachments m =
     (let album = filter (\<lambda>a. ma_kind a \<in> ALBUM_KINDS) (mg_attachments m)
      in if length album < 2 then [] else album)"

subsection \<open>An attachment in the queue\<close>

definition opt_str :: "ucs option \<Rightarrow> pyval" where
  "opt_str v = (case v of None \<Rightarrow> PyNone | Some t \<Rightarrow> PyStr (utf8 t))"

definition opt_int :: "int option \<Rightarrow> pyval" where
  "opt_int v = (case v of None \<Rightarrow> PyNone | Some i \<Rightarrow> PyInt i)"

definition attachment_to_payload :: "attachment \<Rightarrow> pyval" where
  "attachment_to_payload a =
     PyDict
       [(KStr ''kind'', PyStr (kind_value (ma_kind a))), (KStr ''raw'', json_safe (ma_raw a) 0),
        (KStr ''file_name'', opt_str (ma_file_name a)), (KStr ''size'', opt_int (ma_size a)),
        (KStr ''duration_ms'', opt_int (ma_duration_ms a)), (KStr ''width'', opt_int (ma_width a)),
        (KStr ''height'', opt_int (ma_height a)), (KStr ''title'', opt_str (ma_title a)),
        (KStr ''performer'', opt_str (ma_performer a)), (KStr ''url'', opt_str (ma_url a)),
        (KStr ''missed'', PyBool (ma_missed a)), (KStr ''call_video'', PyBool (ma_call_video a)),
        (KStr ''contact_name'', opt_str (ma_contact_name a)), (KStr ''contact_phone'', opt_str (ma_contact_phone a)),
        (KStr ''contact_vcard'', opt_str (ma_contact_vcard a)),
        (KStr ''contact_user_id'', opt_int (ma_contact_user_id a)),
        (KStr ''contact_photo_url'', opt_str (ma_contact_photo_url a))]"

text \<open>\<open>json.loads\<close>, and the truth of a value.\<close>

fun loads :: "json \<Rightarrow> pyval" where
  "loads JNull = PyNone"
| "loads (JBool b) = PyBool b"
| "loads (JInt i) = PyInt i"
| "loads (JFloat f) = PyFloat f"
| "loads (JStr s) = PyStr s"
| "loads (JList vs) = PyList (map loads vs)"
| "loads (JObj kvs) = PyDict (map (\<lambda>(k, v). (KStr k, loads v)) kvs)"

fun truthy :: "json \<Rightarrow> bool" where
  "truthy JNull = False"
| "truthy (JBool b) = b"
| "truthy (JInt i) = (i \<noteq> 0)"
| "truthy (JFloat f) = (f \<noteq> ''0.0'' \<and> f \<noteq> ''-0.0'')"
| "truthy (JStr s) = (s \<noteq> [])"
| "truthy (JList vs) = (vs \<noteq> [])"
| "truthy (JObj kvs) = (kvs \<noteq> [])"

text \<open>A text read back from UTF-8.\<close>

fun un_utf8 :: "nat list \<Rightarrow> ucs" where
  "un_utf8 [] = []"
| "un_utf8 (b # bs) =
     (if b < 128 then b # un_utf8 bs
      else if b < 224 then
        (case bs of c # bs' \<Rightarrow> ((b - 192) * 64 + (c - 128)) # un_utf8 bs' | _ \<Rightarrow> [])
      else if b < 240 then
        (case bs of c # d # bs' \<Rightarrow> ((b - 224) * 4096 + (c - 128) * 64 + (d - 128)) # un_utf8 bs' | _ \<Rightarrow> [])
      else
        (case bs of c # d # e # bs' \<Rightarrow>
           ((b - 240) * 262144 + (c - 128) * 4096 + (d - 128) * 64 + (e - 128)) # un_utf8 bs' | _ \<Rightarrow> []))"

definition decode :: "string \<Rightarrow> ucs" where
  "decode s = un_utf8 (map of_char s)"

definition got_str :: "string \<Rightarrow> json \<Rightarrow> ucs option" where
  "got_str k stored = map_option decode (get_str k stored)"

definition got_bool :: "string \<Rightarrow> json \<Rightarrow> bool" where
  "got_bool k stored = (case jget k stored of None \<Rightarrow> False | Some v \<Rightarrow> truthy v)"

text \<open>A stored value of another type than the writer's is read as absent.\<close>

definition attachment_from_payload :: "json \<Rightarrow> failure + attachment" where
  "attachment_from_payload stored =
     (case jget ''kind'' stored of
        None \<Rightarrow> Inl key_error
      | Some v \<Rightarrow>
          (case (case v of JStr s \<Rightarrow> kind_named s | _ \<Rightarrow> None) of
             None \<Rightarrow> Inl (OtherError ''ValueError'' [])
           | Some k \<Rightarrow> Inr
               \<lparr>ma_kind = k, ma_duration_ms = get_int ''duration_ms'' stored, ma_width = get_int ''width'' stored,
                ma_height = get_int ''height'' stored, ma_file_name = got_str ''file_name'' stored,
                ma_size = get_int ''size'' stored, ma_title = got_str ''title'' stored,
                ma_performer = got_str ''performer'' stored, ma_missed = got_bool ''missed'' stored,
                ma_call_video = got_bool ''call_video'' stored, ma_notice = None, ma_event = None,
                ma_url = got_str ''url'' stored, ma_contact_name = got_str ''contact_name'' stored,
                ma_contact_phone = got_str ''contact_phone'' stored,
                ma_contact_vcard = got_str ''contact_vcard'' stored,
                ma_contact_user_id = get_int ''contact_user_id'' stored,
                ma_contact_photo_url = got_str ''contact_photo_url'' stored,
                ma_raw = (case jget ''raw'' stored of Some r \<Rightarrow> if truthy r then loads r else PyDict [] | None \<Rightarrow> PyDict [])\<rparr>))"

subsection \<open>The ports\<close>

record local_file =
  lf_path :: string
  lf_display_name :: ucs

record outgoing_media =
  om_kind :: attachment_kind
  om_path :: string
  om_file_name :: ucs
  om_caption :: "ucs option"
  om_entities :: "json option"
  om_duration :: "int option"
  om_width :: "int option"
  om_height :: "int option"
  om_title :: "ucs option"
  om_performer :: "ucs option"
  om_thumbnail :: "string option"

datatype media_method = Send_photo | Send_video | Send_video_note | Send_voice | Send_audio | Send_document | Send_sticker

type_synonym button_rows = "(ucs \<times> ucs) list option"

record 'm media_sender =
  sd_media :: "media_method \<Rightarrow> outgoing_media \<Rightarrow> int option \<Rightarrow> (int, 'm) act"
  sd_album :: "outgoing_media list \<Rightarrow> int option \<Rightarrow> (int list \<times> string option, 'm) act"
  sd_text :: "ucs \<Rightarrow> int option \<Rightarrow> json option \<Rightarrow> button_rows \<Rightarrow> (int, 'm) act"
  sd_contact :: "ucs \<Rightarrow> ucs \<Rightarrow> ucs option \<Rightarrow> ucs option \<Rightarrow> int option \<Rightarrow> (int, 'm) act"
  sd_photo_url :: "ucs \<Rightarrow> ucs \<Rightarrow> int option \<Rightarrow> button_rows \<Rightarrow> (int option, 'm) act"

datatype fetched = Fetched local_file | Too_large int | Unavailable string string

record 'm media_ports =
  pl_fetch :: "attachment \<Rightarrow> int \<Rightarrow> int \<Rightarrow> (fetched, 'm) act"
  pl_limit_bytes :: int
  pl_cover :: "local_file \<Rightarrow> string option"
  pl_digest :: "local_file \<Rightarrow> string option"
  pl_origins :: "(string \<Rightarrow> int \<Rightarrow> (unit, 'm) act) option"
  pl_link :: "(int \<Rightarrow> ucs option) option"

abbreviation unavailable_error :: "string \<Rightarrow> failure" where
  "unavailable_error detail \<equiv> OtherError ''UnavailableMediaError'' detail"

subsection \<open>One attachment\<close>

text \<open>\<open>round(ms / 1000)\<close> rounds half to even; the float quotient decides alike below \<open>10 ^ 12\<close> seconds.\<close>

definition round_half_even :: "int \<Rightarrow> int" where
  "round_half_even ms =
     (let q = ms div 1000; r = ms mod 1000
      in if r < 500 \<or> (r = 500 \<and> even q) then q else q + 1)"

definition ms_to_seconds :: "int option \<Rightarrow> int option" where
  "ms_to_seconds d = (case d of None \<Rightarrow> None | Some ms \<Rightarrow> if ms = 0 then None else Some (max 1 (round_half_even ms)))"

definition cover_for :: "'m media_ports \<Rightarrow> attachment \<Rightarrow> local_file \<Rightarrow> string option" where
  "cover_for p a local = (if ma_kind a \<in> {A_VIDEO, A_VIDEO_NOTE} then pl_cover p local else None)"

definition describe :: "'m media_ports \<Rightarrow> attachment \<Rightarrow> local_file \<Rightarrow> ucs option \<Rightarrow> json option \<Rightarrow> outgoing_media" where
  "describe p a local caption ents =
     \<lparr>om_kind = ma_kind a, om_path = lf_path local, om_file_name = lf_display_name local, om_caption = caption,
      om_entities = ents, om_duration = ms_to_seconds (ma_duration_ms a), om_width = ma_width a,
      om_height = ma_height a, om_title = ma_title a, om_performer = ma_performer a,
      om_thumbnail = cover_for p a local\<rparr>"

definition nonzero_or :: "int option \<Rightarrow> int option \<Rightarrow> int option" where
  "nonzero_or a b = (if a = None \<or> a = Some 0 then b else a)"

definition dispatch :: "'m media_sender \<Rightarrow> outgoing_media \<Rightarrow> int option \<Rightarrow> (int, 'm) act" where
  "dispatch sd media reply =
     (case om_kind media of
        A_PHOTO \<Rightarrow> sd_media sd Send_photo media reply
      | A_VIDEO \<Rightarrow> sd_media sd Send_video media reply
      | A_VIDEO_NOTE \<Rightarrow> sd_media sd Send_video_note media reply
      | A_VOICE \<Rightarrow> sd_media sd Send_voice media reply
      | A_MUSIC \<Rightarrow> sd_media sd Send_audio media reply
      | A_STICKER \<Rightarrow> andthen (sd_media sd Send_sticker media reply) (\<lambda>sent.
          if some_text (om_caption media) \<noteq> []
          then andthen (sd_text sd (some_text (om_caption media)) (nonzero_or (Some sent) reply) (om_entities media) None)
                 (\<lambda>_. ret sent)
          else ret sent)
      | _ \<Rightarrow> sd_media sd Send_document media reply)"

text \<open>\<open>raw.get("stickerId") or raw.get("sticker_id")\<close>, when it is an \<open>int\<close>; a \<open>bool\<close> is one.\<close>

fun as_sticker_id :: "pyval option \<Rightarrow> int option" where
  "as_sticker_id (Some (PyInt i)) = Some i"
| "as_sticker_id (Some (PyBool b)) = Some (if b then 1 else 0)"
| "as_sticker_id v = None"

fun py_false :: "pyval option \<Rightarrow> bool" where
  "py_false None = True"
| "py_false (Some PyNone) = True"
| "py_false (Some (PyBool b)) = (\<not> b)"
| "py_false (Some (PyInt i)) = (i = 0)"
| "py_false (Some (PyFloat f)) = (f = ''0.0'' \<or> f = ''-0.0'')"
| "py_false (Some (PyStr s)) = (s = [])"
| "py_false (Some (PyBytes b)) = (b = [])"
| "py_false (Some (PyDict d)) = (d = [])"
| "py_false (Some (PyList vs)) = (vs = [])"
| "py_false (Some (PyTuple vs)) = (vs = [])"
| "py_false (Some (PySet vs)) = (vs = [])"
| "py_false (Some (PyObject d s)) = False"

definition sticker_id_of :: "pyval \<Rightarrow> int option" where
  "sticker_id_of raw =
     (let v = dict_get ''stickerId'' raw in as_sticker_id (if py_false v then dict_get ''sticker_id'' raw else v))"

definition note_sticker_origin :: "'m media_ports \<Rightarrow> attachment \<Rightarrow> local_file \<Rightarrow> (unit, 'm) act" where
  "note_sticker_origin p a local =
     (case (pl_origins p, sticker_id_of (ma_raw a), pl_digest p local) of
        (Some put, Some i, Some digest) \<Rightarrow>
          if ma_kind a = A_STICKER then catching (put digest i) (\<lambda>_. ret ()) else ret ()
      | _ \<Rightarrow> ret ())"

definition deliver_unknown :: "'m media_sender \<Rightarrow> ucs option \<Rightarrow> json option \<Rightarrow> int option \<Rightarrow> (int, 'm) act" where
  "deliver_unknown sd caption ents reply = sd_text sd (on_top (strip_opt caption) UNKNOWN_NOTICE) reply ents None"

definition contact_buttons :: "'m media_ports \<Rightarrow> attachment \<Rightarrow> button_rows" where
  "contact_buttons p a =
     (case (ma_contact_user_id a, pl_link p) of
        (Some u, Some for_contact) \<Rightarrow>
          (let link = some_text (for_contact u) in if link \<noteq> [] then Some [(BRIDGE_BUTTON, link)] else None)
      | _ \<Rightarrow> None)"

definition send_contact_card ::
  "'m media_ports \<Rightarrow> 'm media_sender \<Rightarrow> attachment \<Rightarrow> ucs option \<Rightarrow> json option \<Rightarrow> int option \<Rightarrow> (int, 'm) act" where
  "send_contact_card p sd a caption ents reply =
     (if some_text (ma_contact_phone a) \<noteq> []
      then sd_contact sd (some_text (ma_contact_phone a)) (fst (contact_first_last a)) (snd (contact_first_last a))
             (ma_contact_vcard a) reply
      else
        (let buttons = contact_buttons p a; card = contact_card_text a caption;
             as_text = sd_text sd card reply ents buttons
         in if some_text (ma_contact_photo_url a) \<noteq> []
            then andthen (sd_photo_url sd (some_text (ma_contact_photo_url a)) card reply buttons)
                   (\<lambda>shown. case shown of Some i \<Rightarrow> ret i | None \<Rightarrow> as_text)
            else as_text))"

definition send_file ::
  "'m media_ports \<Rightarrow> 'm media_sender \<Rightarrow> media_message \<Rightarrow> attachment \<Rightarrow> ucs option \<Rightarrow> json option \<Rightarrow> int option
   \<Rightarrow> (int, 'm) act" where
  "send_file p sd m a caption ents reply =
     andthen (pl_fetch p a (mg_chat_id m) (mg_message_id m)) (\<lambda>got.
       case got of
         Fetched local \<Rightarrow>
           andthen (dispatch sd (describe p a local caption ents) reply) (\<lambda>sent.
             andthen (note_sticker_origin p a local) (\<lambda>_. ret sent))
       | Too_large limit \<Rightarrow> sd_text sd (too_large_notice (ma_kind a) limit) reply None None
       | Unavailable code detail \<Rightarrow>
           if code = ''source_missing'' then sd_text sd (unavailable_notice (ma_kind a)) reply None None
           else throw (unavailable_error detail))"

definition send_one ::
  "'m media_ports \<Rightarrow> 'm media_sender \<Rightarrow> media_message \<Rightarrow> attachment \<Rightarrow> ucs option \<Rightarrow> json option \<Rightarrow> int option
   \<Rightarrow> (int, 'm) act" where
  "send_one p sd m a caption ents reply =
     (case ma_kind a of
        A_LINK \<Rightarrow> sd_text sd (link_text a caption) reply ents None
      | A_SERVICE \<Rightarrow> sd_text sd (service_text a caption) reply None None
      | A_CALL \<Rightarrow> sd_text sd (call_text a (mg_is_outgoing m)) reply None None
      | A_CONTACT \<Rightarrow> send_contact_card p sd a caption ents reply
      | A_UNKNOWN \<Rightarrow> deliver_unknown sd caption ents reply
      | _ \<Rightarrow> send_file p sd m a caption ents reply)"

subsection \<open>An album\<close>

definition notify_too_large :: "'m media_ports \<Rightarrow> 'm media_sender \<Rightarrow> attachment \<Rightarrow> int option \<Rightarrow> (int, 'm) act" where
  "notify_too_large p sd a reply = sd_text sd (too_large_notice (ma_kind a) (pl_limit_bytes p)) reply None None"

text \<open>The files are fetched one after another; a file over the limit is announced at once.\<close>

fun gather ::
  "'m media_ports \<Rightarrow> 'm media_sender \<Rightarrow> media_message \<Rightarrow> ucs option \<Rightarrow> json option \<Rightarrow> int option
   \<Rightarrow> outgoing_media list \<Rightarrow> attachment list \<Rightarrow> (outgoing_media list, 'm) act" where
  "gather p sd m caption ents reply items [] = ret items"
| "gather p sd m caption ents reply items (a # as) =
     andthen (pl_fetch p a (mg_chat_id m) (mg_message_id m)) (\<lambda>got.
       case got of
         Too_large limit \<Rightarrow>
           andthen (notify_too_large p sd a reply) (\<lambda>_. gather p sd m caption ents reply items as)
       | Unavailable code detail \<Rightarrow> throw (unavailable_error detail)
       | Fetched local \<Rightarrow>
           gather p sd m caption ents reply
             (items @ [describe p a local (if items = [] then caption else None) (if items = [] then ents else None)]) as)"

definition parts_from :: "int list \<Rightarrow> outgoing_media list \<Rightarrow> delivered_part list" where
  "parts_from ids items =
     map (\<lambda>(k, i, item). \<lparr>dp_message_id = i, dp_kind = om_kind item, dp_index = k\<rparr>)
       (zip [0..<length items] (zip ids items))"

definition send_album ::
  "'m media_ports \<Rightarrow> 'm media_sender \<Rightarrow> media_message \<Rightarrow> attachment list \<Rightarrow> ucs option \<Rightarrow> json option \<Rightarrow> int option
   \<Rightarrow> (delivered_part list \<times> string option, 'm) act" where
  "send_album p sd m as caption ents reply =
     andthen (gather p sd m caption ents reply [] as) (\<lambda>items.
       case items of
         [] \<Rightarrow> ret ([], None)
       | [item] \<Rightarrow> andthen (dispatch sd item reply) (\<lambda>sent. ret (parts_from [sent] [item], None))
       | _ \<Rightarrow> andthen (sd_album sd items reply) (\<lambda>(ids, grp).
           if length ids \<noteq> length items then throw (OtherError ''ValueError'' ''zip() arguments differ'')
           else ret (parts_from ids items, grp)))"

subsection \<open>The delivery\<close>

fun send_singles ::
  "'m media_ports \<Rightarrow> 'm media_sender \<Rightarrow> media_message \<Rightarrow> ucs option \<Rightarrow> json option \<Rightarrow> int option
   \<Rightarrow> int option \<Rightarrow> bool \<Rightarrow> attachment list \<Rightarrow> (int option, 'm) act" where
  "send_singles p sd m caption ents reply first caption_used [] = ret first"
| "send_singles p sd m caption ents reply first caption_used (a # as) =
     andthen (send_one p sd m a (if caption_used then None else caption) (if caption_used then None else ents)
                (if first = None then reply else None)) (\<lambda>sent.
       send_singles p sd m caption ents reply (if first = None then Some sent else first) True as)"

definition singles_of :: "media_message \<Rightarrow> attachment list" where
  "singles_of m =
     filter (\<lambda>a. ma_kind a \<notin> ALBUM_KINDS \<or> album_attachments m = []) (mg_attachments m)"

definition send_tail :: "'m media_sender \<Rightarrow> ucs \<Rightarrow> int option \<Rightarrow> int option \<Rightarrow> (int option, 'm) act" where
  "send_tail sd tail_text reply first =
     (if tail_text = [] then ret first
      else andthen (sd_text sd tail_text (nonzero_or first reply) None None)
             (\<lambda>sent. ret (if first = None then Some sent else first)))"

definition deliver_parts ::
  "'m media_ports \<Rightarrow> 'm media_sender \<Rightarrow> media_message \<Rightarrow> ucs \<Rightarrow> json option \<Rightarrow> int option
   \<Rightarrow> (delivery_receipt, 'm) act" where
  "deliver_parts p sd m caption ents reply =
     (let album = album_attachments m; head = fst (split_caption caption)
      in andthen (if album = [] then ret ([], None) else send_album p sd m album head ents reply) (\<lambda>(ps, grp).
           andthen (send_singles p sd m head ents reply
                      (case ps of [] \<Rightarrow> None | d # _ \<Rightarrow> Some (dp_message_id d)) (album \<noteq> []) (singles_of m)) (\<lambda>first.
             andthen (send_tail sd (snd (split_caption caption)) reply first) (\<lambda>first'.
               ret \<lparr>dr_head = first', dr_album = ps, dr_group = grp\<rparr>))))"

text \<open>
  \<open>_AnnouncesFirstSend\<close>: the same sender over the state together with whether it has spoken yet. The
  first call runs the hook, and the flag is set before the hook runs.
\<close>

definition quietly :: "('a, 'm) act \<Rightarrow> ('a, 'm \<times> 'x) act" where
  "quietly c s = (let (r, m) = c (fst s) in (r, (m, snd s)))"

definition announced :: "(unit, 'm) act \<Rightarrow> ('a, 'm) act \<Rightarrow> ('a, 'm \<times> bool) act" where
  "announced hook c s =
     (if snd s then quietly c s
      else (let (r, m) = hook (fst s)
            in case r of Inl e \<Rightarrow> (Inl e, (m, True)) | Inr _ \<Rightarrow> quietly c (m, True)))"

definition announcing_sender :: "(unit, 'm) act \<Rightarrow> 'm media_sender \<Rightarrow> ('m \<times> bool) media_sender" where
  "announcing_sender hook sd =
     \<lparr>sd_media = (\<lambda>k x r. announced hook (sd_media sd k x r)),
      sd_album = (\<lambda>xs r. announced hook (sd_album sd xs r)),
      sd_text = (\<lambda>t r e b. announced hook (sd_text sd t r e b)),
      sd_contact = (\<lambda>ph f l v r. announced hook (sd_contact sd ph f l v r)),
      sd_photo_url = (\<lambda>u c r b. announced hook (sd_photo_url sd u c r b))\<rparr>"

definition quiet_ports :: "'m media_ports \<Rightarrow> ('m \<times> 'x) media_ports" where
  "quiet_ports p =
     \<lparr>pl_fetch = (\<lambda>a c i. quietly (pl_fetch p a c i)), pl_limit_bytes = pl_limit_bytes p, pl_cover = pl_cover p,
      pl_digest = pl_digest p, pl_origins = map_option (\<lambda>put d i. quietly (put d i)) (pl_origins p),
      pl_link = pl_link p\<rparr>"

definition deliver_receipt ::
  "'m media_ports \<Rightarrow> 'm media_sender \<Rightarrow> (unit, 'm) act option \<Rightarrow> media_message \<Rightarrow> ucs \<Rightarrow> json option \<Rightarrow> int option
   \<Rightarrow> (delivery_receipt, 'm) act" where
  "deliver_receipt p sd on_sending m caption ents reply s =
     (case on_sending of
        None \<Rightarrow> deliver_parts p sd m caption ents reply s
      | Some hook \<Rightarrow>
          (let (r, t) = deliver_parts (quiet_ports p) (announcing_sender hook sd) m caption ents reply (s, False)
           in (r, fst t)))"

definition deliver ::
  "'m media_ports \<Rightarrow> 'm media_sender \<Rightarrow> (unit, 'm) act option \<Rightarrow> media_message \<Rightarrow> ucs \<Rightarrow> json option \<Rightarrow> int option
   \<Rightarrow> (int option, 'm) act" where
  "deliver p sd on_sending m caption ents reply =
     andthen (deliver_receipt p sd on_sending m caption ents reply) (\<lambda>r. ret (dr_head r))"

end
