(* ===== verification/Media_Laws.thy ===== *)
theory Media_Laws
  imports Media_Delivery "HOL-Library.Sublist"
begin

section \<open>What a delivery with attachments guarantees\<close>

text \<open>
  The contract between \<open>MaxMediaDelivery\<close> and its transports as a locale, and the laws of the delivery:
  nothing is sent before the send mark, no attachment is dropped in silence, the parts of an album keep
  their places, and an attachment survives the queue - all but the sentence of a service notice.
\<close>

subsection \<open>A transport that keeps an invariant\<close>

locale transport_keeps =
  fixes I :: "'s \<Rightarrow> bool" and p :: "'s media_ports" and sd :: "'s media_sender"
  assumes fetch: "stays I (pl_fetch p a c i)"
    and origins: "pl_origins p = Some put \<Longrightarrow> stays I (put d n)"
    and media: "stays I (sd_media sd k x r)"
    and album: "stays I (sd_album sd xs r)"
    and words: "stays I (sd_text sd t r e b)"
    and contact: "stays I (sd_contact sd ph f l v r)"
    and photo_url: "stays I (sd_photo_url sd u t r b)"
begin

lemma dispatch_stays: "stays I (dispatch sd x r)"
  by (auto simp: dispatch_def intro!: media words stays_andthen split: attachment_kind.splits)

lemma note_stays: "stays I (note_sticker_origin p a l)"
proof (cases "pl_origins p")
  case (Some put)
  then show ?thesis
    using origins[OF Some] by (auto simp: note_sticker_origin_def intro!: stays_catching stays_simple split: option.splits)
qed (auto simp: note_sticker_origin_def intro!: stays_simple)

lemma send_one_stays: "stays I (send_one p sd m a c e r)"
proof -
  have "stays I (send_file p sd m a c e r)"
    by (auto simp: send_file_def intro!: fetch words dispatch_stays note_stays stays_andthen split: fetched.splits)
  moreover have "stays I (send_contact_card p sd a c e r)"
    by (auto simp: send_contact_card_def Let_def intro!: words contact photo_url stays_andthen split: option.splits)
  ultimately show ?thesis
    by (auto simp: send_one_def deliver_unknown_def intro!: words split: attachment_kind.splits)
qed

lemma gather_stays: "stays I (gather p sd m c e r items as)"
proof (induction as arbitrary: items)
  case (Cons a as)
  then show ?case
    by (auto simp: notify_too_large_def intro!: fetch words stays_andthen split: fetched.splits)
qed auto

lemma send_album_stays: "stays I (send_album p sd m as c e r)"
  by (auto simp: send_album_def intro!: gather_stays dispatch_stays album stays_andthen stays_simple split: list.splits)

lemma send_singles_stays: "stays I (send_singles p sd m c e r f u as)"
  by (induction as arbitrary: f u) (auto intro!: send_one_stays stays_andthen stays_simple)

lemma deliver_stays: "stays I (deliver_parts p sd m c e r)"
  by (auto simp: deliver_parts_def send_tail_def Let_def
      intro!: send_album_stays send_singles_stays words stays_andthen stays_simple split: prod.splits)

end

subsection \<open>The announcement\<close>

text \<open>A trace of what goes over the wire: the send mark, and every call of the sender.\<close>

datatype wire = Marked | Sent

definition traced :: "wire \<Rightarrow> ('a, 'm) act \<Rightarrow> ('a, 'm \<times> wire list) act" where
  "traced w c s = (let (r, m) = c (fst s) in (r, (m, snd s @ [w])))"

definition traced_sender :: "'m media_sender \<Rightarrow> ('m \<times> wire list) media_sender" where
  "traced_sender sd =
     \<lparr>sd_media = (\<lambda>k x r. traced Sent (sd_media sd k x r)), sd_album = (\<lambda>xs r. traced Sent (sd_album sd xs r)),
      sd_text = (\<lambda>t r e b. traced Sent (sd_text sd t r e b)),
      sd_contact = (\<lambda>ph f l v r. traced Sent (sd_contact sd ph f l v r)),
      sd_photo_url = (\<lambda>u c r b. traced Sent (sd_photo_url sd u c r b))\<rparr>"

definition marked_first :: "('m \<times> wire list) \<times> bool \<Rightarrow> bool" where
  "marked_first s \<longleftrightarrow> (if snd s then \<exists>n. snd (fst s) = Marked # replicate n Sent else snd (fst s) = [])"

lemma quiet_marked: "stays marked_first (quietly (quietly c))"
  by (simp add: stays_def quietly_def marked_first_def split_beta)

lemma announced_marked: "stays marked_first (announced (traced Marked hook) (traced Sent c))"
proof -
  have "\<exists>k. Marked # replicate n Sent @ [Sent] = Marked # replicate k Sent" for n
    by (rule exI[of _ "Suc n"]) (simp add: replicate_append_same)
  moreover have "\<exists>k. [Marked] = Marked # replicate k Sent" "\<exists>k. [Marked, Sent] = Marked # replicate k Sent"
    by (rule exI[of _ 0], simp) (rule exI[of _ 1], simp)
  ultimately show ?thesis
    by (auto simp: stays_def announced_def quietly_def traced_def marked_first_def split_beta Let_def
        split: sum.splits)
qed

interpretation marked: transport_keeps marked_first "quiet_ports (quiet_ports p)"
  "announcing_sender (traced Marked hook) (traced_sender sd)" for p hook sd
  by unfold_locales
    (auto simp: quiet_ports_def announcing_sender_def traced_sender_def intro: quiet_marked announced_marked)


subsection \<open>Nothing is dropped in silence\<close>

text \<open>The number of messages a call has created, kept beside the state: an album makes one per item, a
  declined photo URL none.\<close>

definition counted :: "('a \<Rightarrow> nat) \<Rightarrow> ('a, 'm) act \<Rightarrow> ('a, 'm \<times> nat) act" where
  "counted k c s = (let (r, m) = c (fst s) in (r, (m, snd s + (case r of Inl _ \<Rightarrow> 0 | Inr a \<Rightarrow> k a))))"

definition counted_sender :: "'m media_sender \<Rightarrow> ('m \<times> nat) media_sender" where
  "counted_sender sd =
     \<lparr>sd_media = (\<lambda>k x r. counted (\<lambda>_. 1) (sd_media sd k x r)),
      sd_album = (\<lambda>xs r. counted (\<lambda>_. length xs) (sd_album sd xs r)),
      sd_text = (\<lambda>t r e b. counted (\<lambda>_. 1) (sd_text sd t r e b)),
      sd_contact = (\<lambda>ph f l v r. counted (\<lambda>_. 1) (sd_contact sd ph f l v r)),
      sd_photo_url = (\<lambda>u c r b. counted (\<lambda>a. if a = None then 0 else 1) (sd_photo_url sd u c r b))\<rparr>"

text \<open>\<open>adds c k\<close>: when \<open>c\<close> returns \<open>a\<close>, at least \<open>k a\<close> messages more exist.\<close>

definition adds :: "('a, 'm \<times> nat) act \<Rightarrow> ('a \<Rightarrow> nat) \<Rightarrow> bool" where
  "adds c k \<longleftrightarrow> (\<forall>s a t. c s = (Inr a, t) \<longrightarrow> snd s + k a \<le> snd t)"

lemma addsD: "adds c k \<Longrightarrow> c s = (Inr a, t) \<Longrightarrow> snd s + k a \<le> snd t"
  unfolding adds_def by blast

lemma adds_counted: "adds (counted k c) k"
  by (auto simp: adds_def counted_def split_beta split: sum.splits)

lemma adds_quietly: "adds (quietly c) (\<lambda>_. 0)"
  by (auto simp: adds_def quietly_def split_beta)

lemma adds_ret: "adds (ret a) (\<lambda>_. 0)" "adds (throw e) k"
  by (simp_all add: adds_def)

lemma adds_andthen:
  assumes "adds c j" "\<And>a. adds (f a) (k a)" "\<And>a b. l b \<le> j a + k a b"
  shows "adds (andthen c f) l"
  unfolding adds_def
proof (intro allI impI)
  fix s b u assume r: "andthen c f s = (Inr b, u)"
  then obtain a t where "c s = (Inr a, t)" "f a t = (Inr b, u)"
    by (auto simp: andthen_def split: prod.splits sum.splits)
  then show "snd s + l b \<le> snd u"
    using addsD[OF assms(1)] addsD[OF assms(2)] assms(3)[of b a] by fastforce
qed

lemma adds_less: "adds c k \<Longrightarrow> (\<And>a. l a \<le> k a) \<Longrightarrow> adds c l"
  unfolding adds_def by (meson add_left_mono order_trans)

lemma counted_words: "adds (sd_text (counted_sender sd) t r e b) (\<lambda>_. 1)"
  by (simp add: counted_sender_def adds_counted)

lemma dispatch_adds: "adds (dispatch (counted_sender sd) x r) (\<lambda>_. 1)"
proof -
  have m: "adds (sd_media (counted_sender sd) k x r) (\<lambda>_. 1)" for k
    by (simp add: counted_sender_def adds_counted)
  have "adds (andthen (sd_text (counted_sender sd) t r' e None) (\<lambda>_. ret sent)) (\<lambda>_. 0)" for t r' e sent
    by (rule adds_andthen[OF counted_words]) (auto intro: adds_ret)
  then have "adds (andthen (sd_media (counted_sender sd) Send_sticker x r) (\<lambda>sent.
      if b then andthen (sd_text (counted_sender sd) t (nonzero_or (Some sent) r) e None) (\<lambda>_. ret sent) else ret sent)) (\<lambda>_. 1)"
    for b t e by (intro adds_andthen[OF m, of _ "\<lambda>_ _. 0"]) (auto intro: adds_ret)
  then show ?thesis using m by (simp add: dispatch_def split: attachment_kind.split)
qed

lemma note_adds: "adds (note_sticker_origin (quiet_ports p) a l) (\<lambda>_. 0)"
  by (auto simp: note_sticker_origin_def quiet_ports_def adds_def catching_def quietly_def split_beta
      split: option.splits sum.splits if_splits)

lemma fetch_adds: "adds (pl_fetch (quiet_ports p) a c i) (\<lambda>_. 0)"
  by (simp add: quiet_ports_def adds_quietly)

lemma send_one_adds: "adds (send_one (quiet_ports p) (counted_sender sd) m a c e r) (\<lambda>_. 1)"
proof -
  have d: "adds (andthen (dispatch (counted_sender sd) x r) (\<lambda>sent.
      andthen (note_sticker_origin (quiet_ports p) a l) (\<lambda>_. ret sent))) (\<lambda>_. 1)" for x l
    by (rule adds_andthen[OF dispatch_adds adds_andthen[OF note_adds adds_ret(1)]]) simp_all
  have f: "adds (send_file (quiet_ports p) (counted_sender sd) m a c e r) (\<lambda>_. 1)"
    unfolding send_file_def
    by (rule adds_andthen[OF fetch_adds, of _ "\<lambda>_ _. 1"])
       (auto simp del: One_nat_def intro: d counted_words adds_ret split: fetched.splits)
  have "adds (sd_contact (counted_sender sd) ph fi la v r) (\<lambda>_. 1)" for ph fi la v
    by (simp add: counted_sender_def adds_counted)
  moreover have "adds (andthen (sd_photo_url (counted_sender sd) u t r b) (\<lambda>shown. case shown of Some i \<Rightarrow> ret i
      | None \<Rightarrow> sd_text (counted_sender sd) t r e b)) (\<lambda>_. 1)" for u t b
    by (rule adds_andthen[of _ "\<lambda>a. if a = None then 0 else 1" _ "\<lambda>a _. if a = None then 1 else 0"])
       (auto simp: counted_sender_def intro: adds_counted adds_ret split: option.splits)
  ultimately have "adds (send_contact_card (quiet_ports p) (counted_sender sd) a c e r) (\<lambda>_. 1)"
    by (simp add: send_contact_card_def Let_def counted_words del: One_nat_def)
  then show ?thesis
    using f by (simp add: send_one_def deliver_unknown_def counted_words del: One_nat_def split: attachment_kind.split)
qed

lemma gather_step:
  assumes "gather p sd m c e r items (a # as) s = (Inr xs, t)"
  obtains items' s' where "gather p sd m c e r items' as s' = (Inr xs, t)"
    "length items \<le> length items'" "length items' \<le> Suc (length items)"
  using assms
  by (auto simp: andthen_def split: prod.splits sum.splits fetched.splits)

lemma gather_length:
  assumes "gather p sd m c e r items as s = (Inr xs, t)"
  shows "length items \<le> length xs \<and> length xs \<le> length items + length as"
  using assms
proof (induction as arbitrary: items s)
  case (Cons a as)
  obtain items' s' where "gather p sd m c e r items' as s' = (Inr xs, t)"
    "length items \<le> length items'" "length items' \<le> Suc (length items)"
    using gather_step[OF Cons.prems] .
  then show ?case using Cons.IH[of items' s'] by simp
qed simp

lemma gather_adds:
  "adds (gather (quiet_ports p) (counted_sender sd) m c e r items as) (\<lambda>xs. length as + length items - length xs)"
proof (induction as arbitrary: items)
  case (Cons a as)
  let ?g = "\<lambda>items. gather (quiet_ports p) (counted_sender sd) m c e r items as"
  have notice: "adds (andthen (notify_too_large (quiet_ports p) (counted_sender sd) a r) (\<lambda>_. ?g items))
      (\<lambda>xs. length (a # as) + length items - length xs)"
    unfolding notify_too_large_def
    by (rule adds_andthen[OF counted_words, of _ "\<lambda>_ xs. length as + length items - length xs"])
       (use Cons in auto)
  have fits: "adds (?g (items @ [x])) (\<lambda>xs. length (a # as) + length items - length xs)" for x
    using Cons[of "items @ [x]"] by simp
  show ?case
    unfolding gather.simps
    by (rule adds_andthen[OF fetch_adds, of _ "\<lambda>_ xs. length (a # as) + length items - length xs"])
       (use notice fits in \<open>auto intro: adds_ret split: fetched.splits\<close>)
qed (simp add: adds_def)

lemma send_album_adds:
  "adds (send_album (quiet_ports p) (counted_sender sd) m as c e r) (\<lambda>_. length as)"
proof -
  let ?g = "gather (quiet_ports p) (counted_sender sd) m c e r [] as"
  have g: "adds ?g (\<lambda>xs. length as - length xs)" using gather_adds[where items = "[]" and as = as] by simp
  have a: "adds (sd_album (counted_sender sd) xs r) (\<lambda>_. length xs)" for xs
    by (simp add: counted_sender_def adds_counted)
  have "snd s + length as \<le> snd u"
    if all: "send_album (quiet_ports p) (counted_sender sd) m as c e r s = (Inr b, u)" for s b u
  proof -
    obtain xs t where x: "?g s = (Inr xs, t)"
      using all by (cases "?g s") (auto simp: send_album_def andthen_def split: sum.splits)
    have "snd t + length xs \<le> snd u"
    proof (cases xs rule: remdups_adj.cases)
      case 1
      then show ?thesis using all x by (simp add: send_album_def andthen_def)
    next
      case (2 y)
      then obtain i where "dispatch (counted_sender sd) y r t = (Inr i, u)"
        using all x by (auto simp: send_album_def andthen_def split: prod.splits sum.splits)
      then show ?thesis using addsD[OF dispatch_adds] 2 by fastforce
    next
      case (3 y z zs)
      then obtain i where "sd_album (counted_sender sd) xs r t = (Inr i, u)"
        using all x by (auto simp: send_album_def andthen_def split: prod.splits sum.splits if_splits)
      then show ?thesis using addsD[OF a] by fastforce
    qed
    then show ?thesis using addsD[OF g x] by simp
  qed
  then show ?thesis by (simp add: adds_def)
qed

lemma send_singles_adds:
  "adds (send_singles (quiet_ports p) (counted_sender sd) m c e r f u as) (\<lambda>_. length as)"
proof (induction as arbitrary: f u)
  case (Cons a as)
  then show ?case unfolding send_singles.simps by (intro adds_andthen[OF send_one_adds]) auto
qed (simp add: adds_ret)

lemma singles_and_album: "length (mg_attachments m) = length (album_attachments m) + length (singles_of m)"
proof (cases "album_attachments m = []")
  case False
  then have "album_attachments m = filter (\<lambda>a. ma_kind a \<in> ALBUM_KINDS) (mg_attachments m)"
    by (auto simp: album_attachments_def Let_def split: if_splits)
  then show ?thesis using False sum_length_filter_compl[of "\<lambda>a. ma_kind a \<in> ALBUM_KINDS" "mg_attachments m"]
    by (simp add: singles_of_def)
qed (simp add: singles_of_def)

text \<open>C34. No attachment is dropped in silence: a delivery that succeeds has created at least one message for every
  attachment - the file itself, a card, a notice that it was too large or not available, or a placeholder -
  and any failure travels to the queue.\<close>

theorem nothing_dropped_silently:
  assumes "deliver_receipt (quiet_ports p) (counted_sender sd) None m caption ents reply (s, 0) = (Inr r, (t, n))"
  shows "length (mg_attachments m) \<le> n"
proof -
  let ?p = "quiet_ports p" and ?s = "counted_sender sd" and ?h = "fst (split_caption caption)"
  let ?f = "\<lambda>ps. case ps of [] \<Rightarrow> None | d # _ \<Rightarrow> Some (dp_message_id d)"
  have album: "adds (if album_attachments m = [] then ret ([], None) else send_album ?p ?s m (album_attachments m) ?h ents reply)
      (\<lambda>_. length (album_attachments m))"
    by (auto intro: adds_ret send_album_adds)
  have tail: "adds (andthen (send_tail ?s w reply f) (\<lambda>f'. ret (g f'))) (\<lambda>_. 0)" for w f and g :: "int option \<Rightarrow> delivery_receipt"
    by (rule adds_andthen[of _ "\<lambda>_. 0", OF adds_less[of _ "\<lambda>_. 0"] adds_ret(1)])
       (auto simp: send_tail_def intro: adds_ret adds_less[OF adds_andthen[OF counted_words adds_ret(1)], of "\<lambda>_. 1"])
  have singles: "adds (andthen (send_singles ?p ?s m ?h ents reply f u (singles_of m))
      (\<lambda>first. andthen (send_tail ?s w reply first) (\<lambda>f'. ret (g f')))) (\<lambda>_. length (singles_of m))"
    for f u w and g :: "int option \<Rightarrow> delivery_receipt"
    by (rule adds_andthen[OF send_singles_adds tail]) simp
  have "adds (deliver_parts ?p ?s m caption ents reply) (\<lambda>_. length (mg_attachments m))"
    unfolding deliver_parts_def Let_def singles_and_album
    by (rule adds_andthen[OF album, of _ "\<lambda>_ _. length (singles_of m)"]) (auto intro: singles)
  then show ?thesis using assms by (fastforce simp: deliver_receipt_def adds_def)
qed

definition plain_ports :: "'m media_ports" where
  "plain_ports = \<lparr>pl_fetch = (\<lambda>a c i. ret (if ma_size a = Some 99 then Too_large 20971520
       else Fetched \<lparr>lf_path = ''/tmp/x'', lf_display_name = []\<rparr>)),
     pl_limit_bytes = 20971520, pl_cover = (\<lambda>_. None), pl_digest = (\<lambda>_. None), pl_origins = None, pl_link = None\<rparr>"

text \<open>A sender that numbers its messages and keeps what it sent.\<close>

datatype sent = S_media media_method "ucs option" | S_album "ucs option list" | S_text ucs | S_contact ucs | S_photo ucs

definition numbering_sender :: "sent list media_sender" where
  "numbering_sender =
     (let say = (\<lambda>x s. (Inr (int (length s) + 1), s @ [x])) in
      \<lparr>sd_media = (\<lambda>k x r. say (S_media k (om_caption x))),
       sd_album = (\<lambda>xs r s. (Inr (map (\<lambda>i. int (length s) + int i + 1) [0..<length xs], None), s @ [S_album (map om_caption xs)])),
       sd_text = (\<lambda>t r e b. say (S_text t)), sd_contact = (\<lambda>ph f l v r. say (S_contact ph)),
       sd_photo_url = (\<lambda>u c r b s. (Inr None, s))\<rparr>)"

definition bare_attachment :: "attachment_kind \<Rightarrow> attachment" where
  "bare_attachment k = \<lparr>ma_kind = k, ma_duration_ms = None, ma_width = None, ma_height = None, ma_file_name = None,
     ma_size = None, ma_title = None, ma_performer = None, ma_missed = False, ma_call_video = False, ma_notice = None,
     ma_event = None, ma_url = None, ma_contact_name = None, ma_contact_phone = None, ma_contact_vcard = None,
     ma_contact_user_id = None, ma_contact_photo_url = None, ma_raw = PyDict []\<rparr>"

definition message_with :: "attachment list \<Rightarrow> media_message" where
  "message_with as = \<lparr>mg_message_id = 5, mg_chat_id = 7, mg_is_outgoing = False, mg_attachments = as\<rparr>"

definition three_things :: media_message where
  "three_things = message_with [bare_attachment A_PHOTO, bare_attachment A_VOICE, bare_attachment A_VIDEO]"

definition three_delivered :: "(failure + delivery_receipt) \<times> sent list \<times> nat" where
  "three_delivered =
     deliver_receipt (quiet_ports plain_ports) (counted_sender numbering_sender) None three_things [] None None ([], 0)"

lemmas media_run = deliver_receipt_def deliver_parts_def send_album_def album_attachments_def singles_of_def
  split_caption_def ustrip_def ALBUM_KINDS_def message_with_def bare_attachment_def plain_ports_def quiet_ports_def
  quietly_def send_one_def send_file_def dispatch_def describe_def cover_for_def note_sticker_origin_def send_tail_def
  andthen_def numbering_sender_def parts_from_def Let_def

lemma three_delivered_run: "three_delivered =
    (Inr \<lparr>dr_head = Some 1, dr_album = [\<lparr>dp_message_id = 1, dp_kind = A_PHOTO, dp_index = 0\<rparr>,
       \<lparr>dp_message_id = 2, dp_kind = A_VIDEO, dp_index = 1\<rparr>], dr_group = None\<rparr>,
     [S_album [None, None], S_media Send_voice None], 3)"
  by (simp add: three_delivered_def three_things_def media_run counted_sender_def counted_def ms_to_seconds_def)

theorem nothing_dropped_silently_witness:
  "length (mg_attachments three_things) \<le> 3"
  using three_delivered_run nothing_dropped_silently[of plain_ports numbering_sender three_things "[]" None None "[]"]
  unfolding three_delivered_def by fast

subsection \<open>Captions\<close>

lemma split_caption_lossless:
  "some_text (fst (split_caption c)) @ snd (split_caption c) = ustrip c
   \<and> length (some_text (fst (split_caption c))) \<le> CAPTION_LIMIT"
  by (simp add: split_caption_def Let_def some_text_def)

text \<open>The kinds whose Telegram form has no room for a caption: a call, a contact with a phone, a file that was
  too large and one without a source.\<close>

definition captionless :: "'m media_ports \<Rightarrow> media_message \<Rightarrow> attachment \<Rightarrow> 'm \<Rightarrow> bool" where
  "captionless p m a s \<longleftrightarrow>
     ma_kind a = A_CALL \<or> (ma_kind a = A_CONTACT \<and> some_text (ma_contact_phone a) \<noteq> [])
     \<or> (ma_kind a \<notin> {A_LINK, A_SERVICE, A_CALL, A_CONTACT, A_UNKNOWN}
        \<and> (\<exists>limit. fst (pl_fetch p a (mg_chat_id m) (mg_message_id m) s) = Inr (Too_large limit)
           \<or> (\<exists>d. fst (pl_fetch p a (mg_chat_id m) (mg_message_id m) s) = Inr (Unavailable ''source_missing'' d))))"

lemma captionless_one:
  assumes "captionless p m a s"
  shows "send_one p sd m a c e r s = send_one p sd m a None None r s"
  using assms
  by (auto simp: captionless_def send_one_def send_file_def send_contact_card_def andthen_def
      split: attachment_kind.split prod.split sum.split)

text \<open>The words of a message are lost with the form that has no room for them. A message with one attachment
  that is a call, a contact with a phone, a file over the limit or a file without a source is delivered
  exactly as if it had no text: the caption, of any length that would have ridden on the attachment, goes
  nowhere, and the delivery succeeds.\<close>

theorem caption_lost_without_a_carrier:
  assumes "mg_attachments m = [a]" "captionless p m a s" "length (ustrip caption) \<le> CAPTION_LIMIT"
  shows "deliver_receipt p sd None m caption ents reply s = deliver_receipt p sd None m [] None reply s"
proof -
  have "album_attachments m = []" "singles_of m = [a]"
    using assms(1) by (auto simp: album_attachments_def singles_of_def Let_def)
  moreover have "snd (split_caption caption) = []" "split_caption [] = (None, [])"
    using assms(3) by (auto simp: split_caption_def Let_def ustrip_def)
  ultimately show ?thesis
    using captionless_one[OF assms(2), of sd "fst (split_caption caption)" ents reply]
    by (simp add: deliver_receipt_def deliver_parts_def andthen_def)
qed

theorem caption_lost_without_a_carrier_witness:
  "deliver_receipt plain_ports numbering_sender None
     (message_with [(bare_attachment A_FILE)\<lparr>ma_size := Some 99\<rparr>]) [1087, 1088, 1080] None None []
   = (Inr \<lparr>dr_head = Some 1, dr_album = [], dr_group = None\<rparr>, [S_text (too_large_notice A_FILE 20971520)])"
proof -
  let ?a = "(bare_attachment A_FILE)\<lparr>ma_size := Some 99\<rparr>"
  have c: "captionless plain_ports (message_with [?a]) ?a []"
    by (simp add: captionless_def plain_ports_def bare_attachment_def)
  have "deliver_receipt plain_ports numbering_sender None (message_with [?a]) [] None None []
      = (Inr \<lparr>dr_head = Some 1, dr_album = [], dr_group = None\<rparr>, [S_text (too_large_notice A_FILE 20971520)])"
    by (simp add: media_run)
  moreover have "length (ustrip [1087, 1088, 1080]) \<le> CAPTION_LIMIT" by (simp add: ustrip_def isspace_def CAPTION_LIMIT_def)
  moreover have "mg_attachments (message_with [?a]) = [?a]" by (simp add: message_with_def)
  ultimately show ?thesis using caption_lost_without_a_carrier[OF _ c] by metis
qed

subsection \<open>Through the queue and back\<close>

lemma of_char_of_small: "(\<And>x. x \<in> set xs \<Longrightarrow> x < 256) \<Longrightarrow> map of_char (map char_of xs :: string) = (xs :: nat list)"
  by (induction xs) auto

lemma utf8_char_small: "c < 1114112 \<Longrightarrow> x \<in> set (utf8_char c) \<Longrightarrow> x < 256"
  by (auto simp: utf8_char_def split: if_splits)

lemma un_utf8_char: "c < 1114112 \<Longrightarrow> un_utf8 (utf8_char c @ bs) = c # un_utf8 bs"
proof -
  assume c: "c < 1114112"
  have e: "c div 64 * 64 + c mod 64 = c" "c div 64 div 64 * 64 + c div 64 mod 64 = c div 64"
    "c div 64 div 64 div 64 * 64 + c div 64 div 64 mod 64 = c div 64 div 64"
    by (rule div_mult_mod_eq)+
  have d: "c div 4096 = c div 64 div 64" "c div 262144 = c div 64 div 64 div 64"
    using div_mult2_eq[of c 64 64] div_mult2_eq[of c 4096 64] by simp_all
  consider "c < 128" | "128 \<le> c" "c < 2048" | "2048 \<le> c" "c < 65536" | "65536 \<le> c" by linarith
  then show ?thesis
  proof cases
    case 2
    then have "c div 64 < 32" using less_mult_imp_div_less[of c 32 64] by simp
    moreover have "utf8_char c = [192 + c div 64, 128 + c mod 64]" using 2 by (simp add: utf8_char_def)
    moreover have "un_utf8 ((192 + q) # (128 + r) # bs) = (q * 64 + r) # un_utf8 bs" if "q < 32" for q r :: nat
      using that by simp
    ultimately show ?thesis using e(1) by simp
  next
    case 3
    then have q: "c div 64 div 64 < 16" using less_mult_imp_div_less[of c 16 4096] d(1) by simp
    have "utf8_char c = [224 + c div 64 div 64, 128 + c div 64 mod 64, 128 + c mod 64]"
      using 3 d(1) by (simp add: utf8_char_def)
    moreover have "un_utf8 ((224 + q) # (128 + r) # (128 + u) # bs) = (q * 4096 + r * 64 + u) # un_utf8 bs"
      if "q < 16" for q r u :: nat using that by simp
    moreover have "c div 64 div 64 * 4096 + c div 64 mod 64 * 64 + c mod 64 = c" using e(1,2) by linarith
    ultimately show ?thesis using q by simp
  next
    case 4
    have "utf8_char c = [240 + c div 64 div 64 div 64, 128 + c div 64 div 64 mod 64, 128 + c div 64 mod 64, 128 + c mod 64]"
      using 4 d by (simp add: utf8_char_def)
    moreover have "un_utf8 ((240 + q) # (128 + r) # (128 + u) # (128 + v) # bs)
        = (q * 262144 + r * 4096 + u * 64 + v) # un_utf8 bs" for q r u v :: nat by simp
    moreover have "c div 64 div 64 div 64 * 262144 + c div 64 div 64 mod 64 * 4096 + c div 64 mod 64 * 64 + c mod 64 = c"
      using e by linarith
    ultimately show ?thesis by simp
  qed (simp add: utf8_char_def)
qed

lemma decode_utf8: "(\<And>c. c \<in> set t \<Longrightarrow> c < 1114112) \<Longrightarrow> decode (utf8 t) = t"
proof -
  assume t: "\<And>c. c \<in> set t \<Longrightarrow> c < 1114112"
  have "un_utf8 (concat (map utf8_char t)) = t"
    using t by (induction t) (simp_all add: un_utf8_char)
  moreover have "map of_char (utf8 t) = (concat (map utf8_char t) :: nat list)"
    unfolding utf8_def using t utf8_char_small by (intro of_char_of_small) auto
  ultimately show ?thesis by (simp add: decode_def)
qed

definition real_text :: "ucs option \<Rightarrow> bool" where
  "real_text t \<longleftrightarrow> (case t of None \<Rightarrow> True | Some cs \<Rightarrow> \<forall>c\<in>set cs. c < 1114112)"

definition real_texts :: "attachment \<Rightarrow> bool" where
  "real_texts a \<longleftrightarrow> list_all real_text
     [ma_file_name a, ma_title a, ma_performer a, ma_url a, ma_contact_name a, ma_contact_phone a, ma_contact_vcard a,
      ma_contact_photo_url a]"

lemma stored_int: "dumps (opt_int v) = Some (case v of None \<Rightarrow> JNull | Some i \<Rightarrow> JInt i)"
  by (simp add: opt_int_def split: option.split)

lemma stored_str: "dumps (opt_str v) = Some (case v of None \<Rightarrow> JNull | Some t \<Rightarrow> JStr (utf8 t))"
  by (simp add: opt_str_def split: option.split)

lemma kind_named_value [simp]: "kind_named (kind_value k) = Some k"
  by (cases k) (simp_all add: kind_named_def all_kinds_def)

lemma read_int: "(case (case v of None \<Rightarrow> JNull | Some i \<Rightarrow> JInt i) of JInt i \<Rightarrow> Some i | _ \<Rightarrow> None) = v"
  by (cases v) auto

lemma read_str:
  "real_text v \<Longrightarrow>
   map_option decode (case (case v of None \<Rightarrow> JNull | Some t \<Rightarrow> JStr (utf8 t)) of JStr s \<Rightarrow> Some s | _ \<Rightarrow> None) = v"
  by (cases v) (auto simp: real_text_def decode_utf8)



subsection \<open>A delivery of several messages\<close>

text \<open>A sender that answers the second call of its life with 429, and numbers its messages otherwise.\<close>

definition busy_sender :: "(sent list \<times> bool) media_sender" where
  "busy_sender =
     (let say = (\<lambda>x s. if fst s \<noteq> [] \<and> snd s then (Inl (TelegramRetryAfter 5 ''flood''), (fst s, False))
                         else (Inr (int (length (fst s)) + 1), (fst s @ [x], snd s))) in
      \<lparr>sd_media = (\<lambda>k x r. say (S_media k (om_caption x))), sd_album = (\<lambda>xs r s. (Inr ([], None), s)),
       sd_text = (\<lambda>t r e b. say (S_text t)), sd_contact = (\<lambda>ph f l v r. say (S_contact ph)),
       sd_photo_url = (\<lambda>u c r b s. (Inr None, s))\<rparr>)"

definition two_voices :: media_message where
  "two_voices = message_with [bare_attachment A_VOICE, bare_attachment A_VOICE]"

text \<open>A delivery of several Telegram messages is repeated from its first one. Two voice messages, the second
  answered with 429: the attempt fails with an error that proves its own call created nothing, so the job
  is put back on the queue for free - and the next attempt sends the first voice again. The chat holds
  three messages, and the job is done.\<close>

theorem rate_limited_part_repeats_the_first:
  "let first = deliver_receipt plain_ports busy_sender (Some (ret ())) two_voices [] None None ([], True);
       again = deliver_receipt plain_ports busy_sender (Some (ret ())) two_voices [] None None (snd first)
   in fst first = Inl (TelegramRetryAfter 5 ''flood'')
      \<and> fst (snd first) = [S_media Send_voice None]
      \<and> st_verdict (settle ''max_to_tg_media'' (TelegramRetryAfter 5 ''flood'') True) = V_RETRY
      \<and> fst again = Inr \<lparr>dr_head = Some 2, dr_album = [], dr_group = None\<rparr>
      \<and> fst (snd again) = [S_media Send_voice None, S_media Send_voice None, S_media Send_voice None]"
proof -
  have v: "st_verdict (settle ''max_to_tg_media'' (TelegramRetryAfter 5 ''flood'') True) = V_RETRY" by code_simp
  show ?thesis
    unfolding v
    by (simp add: two_voices_def media_run busy_sender_def announcing_sender_def announced_def ms_to_seconds_def)
qed

text \<open>The files of a message are not prepared before the first of them is sent: when the second voice cannot
  be downloaded, the first is already in the chat and the send mark is written, so a failed download is
  put to the owner as a question.\<close>

definition second_missing_ports :: "'m media_ports" where
  "second_missing_ports = plain_ports\<lparr>pl_fetch := (\<lambda>a c i. ret (if ma_size a = Some 2
       then Unavailable ''download_failed'' ''no answer'' else Fetched \<lparr>lf_path = ''/tmp/x'', lf_display_name = []\<rparr>))\<rparr>"

theorem second_file_is_prepared_after_the_first_send:
  "let m = message_with [bare_attachment A_VOICE, (bare_attachment A_VOICE)\<lparr>ma_size := Some 2\<rparr>];
       r = deliver_receipt second_missing_ports numbering_sender (Some (ret ())) m [] None None []
   in fst r = Inl (unavailable_error ''no answer'') \<and> snd r = [S_media Send_voice None]
      \<and> st_verdict (settle ''max_to_tg_media'' (unavailable_error ''no answer'') True) = V_AMBIGUOUS"
proof -
  have v: "st_verdict (settle ''max_to_tg_media'' (unavailable_error ''no answer'') True) = V_AMBIGUOUS" by code_simp
  show ?thesis
    unfolding v
    by (simp add: media_run second_missing_ports_def announcing_sender_def announced_def ms_to_seconds_def)
qed

text \<open>An album every part of which is too large: the notices go out, the words are lost, and the receipt names
  no message.\<close>

theorem oversized_album_names_no_message:
  "let big = (bare_attachment A_PHOTO)\<lparr>ma_size := Some 99\<rparr>; m = message_with [big, big];
       r = deliver_receipt plain_ports numbering_sender None m [1087, 1088] None None []
   in fst r = Inr \<lparr>dr_head = None, dr_album = [], dr_group = None\<rparr>
      \<and> snd r = [S_text (too_large_notice A_PHOTO 20971520), S_text (too_large_notice A_PHOTO 20971520)]"
  by (simp add: media_run notify_too_large_def isspace_def CAPTION_LIMIT_def)

text \<open>An album with a part that has no source fails at every attempt before anything is sent, so its message
  never arrives; alone, the same part would have been a notice.\<close>

theorem sourceless_part_sinks_the_album:
  assumes "album_attachments m = a # as"
    and "\<And>s. fst (pl_fetch p a (mg_chat_id m) (mg_message_id m) s) = Inr (Unavailable code d)"
  shows "fst (deliver_receipt p sd None m caption ents reply s) = Inl (unavailable_error d)"
  using assms(2)[of s] assms(1)
  by (auto simp: deliver_receipt_def deliver_parts_def send_album_def andthen_def Let_def
      split: prod.splits sum.splits)

end
