(* ===== verification/Media_Senders.thy ===== *)
theory Media_Senders
  imports Media_Laws
begin

section \<open>The two transports of a delivery\<close>

text \<open>
  \<open>routing/media_adapter.py\<close> (\<open>RegistryMediaSender\<close>, over the contact's bot) and \<open>routing/owner_voice.py\<close>
  (\<open>OwnerVoice\<close>, \<open>MtprotoOwnerSender\<close>, over the owner's session). The Bot API and the session are records
  of coroutines, looked up in the state at every call as the code does; a missing one is an exception.
  Building the request - reading the file, validating the ranges - belongs to the call.
\<close>

subsection \<open>The Bot API\<close>

datatype bot_call =
    Api_media media_method outgoing_media "int option"
  | Api_message ucs "int option" "json option" button_rows
  | Api_contact ucs ucs "ucs option" "ucs option" "int option"
  | Api_photo_url ucs ucs "int option" button_rows

text \<open>The id of the message that was made, if the answer names one; of a group, with the group's own id.\<close>

record 'm bot_api =
  ba_send :: "bot_call \<Rightarrow> (int option, 'm) act"
  ba_group :: "outgoing_media list \<Rightarrow> int option \<Rightarrow> ((int option \<times> string option) list, 'm) act"

definition with_bot :: "('m \<Rightarrow> 'm bot_api option) \<Rightarrow> ('m bot_api \<Rightarrow> ('a, 'm) act) \<Rightarrow> ('a, 'm) act" where
  "with_bot bots f s =
     (case bots s of
        None \<Rightarrow> (Inl (TelegramTransportUnavailableError ''the bot is no longer registered''), s)
      | Some api \<Rightarrow> f api s)"

definition named_id :: "int option \<Rightarrow> (int, 'm) act" where
  "named_id v =
     (case v of
        None \<Rightarrow> throw (UnconfirmedDeliveryError ''Telegram accepted the message and named no id'')
      | Some i \<Rightarrow> if i \<le> 0 then throw (UnconfirmedDeliveryError ''Telegram named an impossible message id'') else ret i)"

fun bad_request :: "failure \<Rightarrow> bool" where
  "bad_request (TelegramBadRequest t) = True"
| "bad_request e = False"

text \<open>\<open>except TelegramBadRequest\<close>, raised again unless the refusal is of the wanted sort.\<close>

definition on_refusal ::
  "(failure \<Rightarrow> bool) \<Rightarrow> ('a, 'm) act \<Rightarrow> ('b, 'm) act \<Rightarrow> ('a \<Rightarrow> ('b, 'm) act) \<Rightarrow> ('b, 'm) act" where
  "on_refusal wanted call instead k s =
     (case call s of
        (Inl e, t) \<Rightarrow> if bad_request e \<and> wanted e then instead t else (Inl e, t)
      | (Inr a, t) \<Rightarrow> k a t)"

definition send_document :: "('m \<Rightarrow> 'm bot_api option) \<Rightarrow> outgoing_media \<Rightarrow> int option \<Rightarrow> (int, 'm) act" where
  "send_document bots x reply =
     with_bot bots (\<lambda>api. andthen (ba_send api (Api_media Send_document x reply)) named_id)"

definition send_or ::
  "('m \<Rightarrow> 'm bot_api option) \<Rightarrow> bot_call \<Rightarrow> (int, 'm) act \<Rightarrow> (int, 'm) act" where
  "send_or bots call instead =
     with_bot bots (\<lambda>api. on_refusal refused_representation (ba_send api call) instead named_id)"

definition send_photo :: "('m \<Rightarrow> 'm bot_api option) \<Rightarrow> outgoing_media \<Rightarrow> int option \<Rightarrow> (int, 'm) act" where
  "send_photo bots x reply = send_or bots (Api_media Send_photo x reply) (send_document bots x reply)"

definition send_sticker :: "('m \<Rightarrow> 'm bot_api option) \<Rightarrow> outgoing_media \<Rightarrow> int option \<Rightarrow> (int, 'm) act" where
  "send_sticker bots x reply = send_or bots (Api_media Send_sticker x reply) (send_photo bots x reply)"

definition send_video :: "('m \<Rightarrow> 'm bot_api option) \<Rightarrow> outgoing_media \<Rightarrow> int option \<Rightarrow> (int, 'm) act" where
  "send_video bots x reply = send_or bots (Api_media Send_video x reply) (send_document bots x reply)"

definition bot_text :: "('m \<Rightarrow> 'm bot_api option) \<Rightarrow> ucs \<Rightarrow> int option \<Rightarrow> json option \<Rightarrow> button_rows \<Rightarrow> (int, 'm) act" where
  "bot_text bots t reply ents buttons =
     with_bot bots (\<lambda>api. andthen (ba_send api (Api_message t reply ents buttons)) named_id)"

definition send_video_note :: "('m \<Rightarrow> 'm bot_api option) \<Rightarrow> outgoing_media \<Rightarrow> int option \<Rightarrow> (int, 'm) act" where
  "send_video_note bots x reply =
     with_bot bots (\<lambda>api.
       on_refusal refused_representation (ba_send api (Api_media Send_video_note x reply))
         (send_video bots (x\<lparr>om_kind := A_VIDEO\<rparr>) reply)
         (\<lambda>sent. andthen (named_id sent) (\<lambda>i.
            if some_text (om_caption x) \<noteq> []
            then andthen (bot_text bots (some_text (om_caption x)) (Some i) None None) (\<lambda>_. ret i)
            else ret i)))"

fun bot_media :: "('m \<Rightarrow> 'm bot_api option) \<Rightarrow> media_method \<Rightarrow> outgoing_media \<Rightarrow> int option \<Rightarrow> (int, 'm) act" where
  "bot_media bots Send_photo x reply = send_photo bots x reply"
| "bot_media bots Send_video x reply = send_video bots x reply"
| "bot_media bots Send_video_note x reply = send_video_note bots x reply"
| "bot_media bots Send_voice x reply = send_or bots (Api_media Send_voice x reply) (send_document bots x reply)"
| "bot_media bots Send_audio x reply = send_or bots (Api_media Send_audio x reply) (send_document bots x reply)"
| "bot_media bots Send_document x reply = send_document bots x reply"
| "bot_media bots Send_sticker x reply = send_sticker bots x reply"

definition checked :: "int list \<Rightarrow> nat \<Rightarrow> 'a \<Rightarrow> ('a, 'm) act" where
  "checked ids n a = (case check_album_receipt ids n of Some e \<Rightarrow> throw e | None \<Rightarrow> ret a)"

text \<open>\<open>_dispatch_single\<close>, and the group sent part by part or as one.\<close>

definition dispatch_single :: "('m \<Rightarrow> 'm bot_api option) \<Rightarrow> int option \<Rightarrow> outgoing_media \<Rightarrow> (int, 'm) act" where
  "dispatch_single bots reply x = (if om_kind x = A_PHOTO then send_photo bots x reply else send_video bots x reply)"

fun first_group_id :: "(int option \<times> string option) list \<Rightarrow> string option" where
  "first_group_id [] = None"
| "first_group_id ((i, g) # ms) = (if some_text g \<noteq> [] then g else first_group_id ms)"

definition bot_album ::
  "('m \<Rightarrow> 'm bot_api option) \<Rightarrow> outgoing_media list \<Rightarrow> int option \<Rightarrow> (int list \<times> string option, 'm) act" where
  "bot_album bots xs reply =
     with_bot bots (\<lambda>api.
       on_refusal refused_group (ba_group api xs reply)
         (andthen (each (dispatch_single bots reply) xs) (\<lambda>ids. checked ids (length xs) (ids, None)))
         (\<lambda>sent. andthen (each (\<lambda>(i, g). named_id i) sent) (\<lambda>ids.
            checked ids (length xs) (ids, first_group_id sent))))"

definition bot_contact ::
  "('m \<Rightarrow> 'm bot_api option) \<Rightarrow> ucs \<Rightarrow> ucs \<Rightarrow> ucs option \<Rightarrow> ucs option \<Rightarrow> int option \<Rightarrow> (int, 'm) act" where
  "bot_contact bots phone first_name last_name vcard reply =
     with_bot bots (\<lambda>api. andthen (ba_send api (Api_contact phone first_name last_name vcard reply)) named_id)"

definition bot_photo_url ::
  "('m \<Rightarrow> 'm bot_api option) \<Rightarrow> ucs \<Rightarrow> ucs \<Rightarrow> int option \<Rightarrow> button_rows \<Rightarrow> (int option, 'm) act" where
  "bot_photo_url bots url caption reply buttons =
     with_bot bots (\<lambda>api.
       on_refusal refused_representation (ba_send api (Api_photo_url url caption reply buttons)) (ret None)
         (\<lambda>sent. andthen (named_id sent) (\<lambda>i. ret (Some i))))"

definition registry_sender :: "('m \<Rightarrow> 'm bot_api option) \<Rightarrow> 'm media_sender" where
  "registry_sender bots =
     \<lparr>sd_media = bot_media bots, sd_album = bot_album bots, sd_text = bot_text bots, sd_contact = bot_contact bots,
      sd_photo_url = bot_photo_url bots\<rparr>"

subsection \<open>The owner's session\<close>

record 'm owner_session =
  os_connected :: bool
  os_message :: "ucs \<Rightarrow> json option \<Rightarrow> (int option, 'm) act"
  os_file :: "string \<Rightarrow> outgoing_media \<Rightarrow> (int option, 'm) act"
  os_album :: "string list \<Rightarrow> ucs option \<Rightarrow> json option \<Rightarrow> (int option list, 'm) act"

definition with_session ::
  "('m \<Rightarrow> 'm owner_session option) \<Rightarrow> ('m owner_session \<Rightarrow> ('a, 'm) act) \<Rightarrow> ('a, 'm) act" where
  "with_session session f s =
     (case session s of
        None \<Rightarrow> (Inl (OwnerTransportUnavailableError ''the owner's Telegram session is not connected''), s)
      | Some live \<Rightarrow> f live s)"

definition owner_available :: "('m \<Rightarrow> 'm owner_session option) \<Rightarrow> 'm \<Rightarrow> bool" where
  "owner_available session s = (case session s of None \<Rightarrow> False | Some live \<Rightarrow> os_connected live)"

definition send_as_owner :: "('m \<Rightarrow> 'm owner_session option) \<Rightarrow> ucs \<Rightarrow> json option \<Rightarrow> (int option, 'm) act" where
  "send_as_owner session t ents = with_session session (\<lambda>live. os_message live t ents)"

definition placed_id :: "string \<Rightarrow> int option \<Rightarrow> (int, 'm) act" where
  "placed_id why v = (case v of None \<Rightarrow> throw (UnconfirmedDeliveryError why) | Some i \<Rightarrow> ret i)"

definition place :: "('m \<Rightarrow> 'm owner_session option) \<Rightarrow> string \<Rightarrow> outgoing_media \<Rightarrow> (int, 'm) act" where
  "place session kind x =
     with_session session (\<lambda>live. andthen (os_file live kind x)
       (placed_id ''the owner's session placed an attachment and named no id''))"

fun own_kind :: "media_method \<Rightarrow> string" where
  "own_kind Send_photo = ''photo''"
| "own_kind Send_video = ''video''"
| "own_kind Send_video_note = ''video_note''"
| "own_kind Send_voice = ''voice''"
| "own_kind Send_audio = ''audio''"
| "own_kind Send_document = ''document''"
| "own_kind Send_sticker = ''photo''"

definition owner_text :: "('m \<Rightarrow> 'm owner_session option) \<Rightarrow> ucs \<Rightarrow> json option \<Rightarrow> (int, 'm) act" where
  "owner_text session t ents =
     with_session session (\<lambda>live. andthen (os_message live t ents)
       (placed_id ''the owner's session placed a line and named no id''))"

definition owner_contact :: "('m \<Rightarrow> 'm owner_session option) \<Rightarrow> ucs \<Rightarrow> ucs option \<Rightarrow> (int, 'm) act" where
  "owner_contact session first_name last_name =
     (let l = some_text last_name;
          name = ustrip (if first_name \<noteq> [] \<and> l \<noteq> [] then first_name @ [32] @ l else first_name @ l)
      in owner_text session (if name \<noteq> [] then CONTACT_CARD_NAMELESS @ [58, 32] @ name else CONTACT_CARD_NAMELESS) None)"

text \<open>\<open>_grouped\<close> and \<open>_one_at_a_time\<close>.\<close>

definition owner_grouped :: "('m \<Rightarrow> 'm owner_session option) \<Rightarrow> outgoing_media list \<Rightarrow> (int list \<times> string option, 'm) act" where
  "owner_grouped session xs =
     with_session session (\<lambda>live.
       andthen (os_album live (map om_path xs) (om_caption (hd xs)) (om_entities (hd xs))) (\<lambda>placed.
         if length placed \<noteq> length xs \<or> None \<in> set placed
         then throw (PartialOwnerAlbumError ''the session placed an album and named a part of it'')
         else checked (map the placed) (length xs) (map the placed, None)))"

definition uncaptioned :: "outgoing_media \<Rightarrow> outgoing_media" where
  "uncaptioned x = x\<lparr>om_caption := None, om_entities := None\<rparr>"

fun unconfirmed :: "failure \<Rightarrow> bool" where
  "unconfirmed (UnconfirmedDeliveryError t) = True"
| "unconfirmed e = False"

definition place_part :: "('m \<Rightarrow> 'm owner_session option) \<Rightarrow> outgoing_media \<Rightarrow> (int, 'm) act" where
  "place_part session x s =
     (case place session (if om_kind x = A_VIDEO then ''video'' else ''photo'') x s of
        (Inl e, t) \<Rightarrow>
          (Inl (if unconfirmed e then PartialOwnerAlbumError ''a part was placed without an id'' else e), t)
      | r \<Rightarrow> r)"

definition owner_one_at_a_time ::
  "('m \<Rightarrow> 'm owner_session option) \<Rightarrow> outgoing_media list \<Rightarrow> (int list \<times> string option, 'm) act" where
  "owner_one_at_a_time session xs =
     andthen (each (place_part session) (case xs of [] \<Rightarrow> [] | x # ys \<Rightarrow> x # map uncaptioned ys))
       (\<lambda>ids. checked ids (length xs) (ids, None))"

definition owner_album :: "('m \<Rightarrow> 'm owner_session option) \<Rightarrow> outgoing_media list \<Rightarrow> (int list \<times> string option, 'm) act" where
  "owner_album session xs =
     (if list_all (\<lambda>x. om_kind x \<noteq> A_VIDEO) xs then owner_grouped session xs else owner_one_at_a_time session xs)"

definition mtproto_sender :: "('m \<Rightarrow> 'm owner_session option) \<Rightarrow> 'm media_sender" where
  "mtproto_sender session =
     \<lparr>sd_media = (\<lambda>k x reply. place session (own_kind k) x), sd_album = (\<lambda>xs reply. owner_album session xs),
      sd_text = (\<lambda>t reply ents buttons. owner_text session t ents),
      sd_contact = (\<lambda>phone first_name last_name vcard reply. owner_contact session first_name last_name),
      sd_photo_url = (\<lambda>url caption reply buttons. ret None)\<rparr>"

subsection \<open>One creating call at most takes effect\<close>

text \<open>
  What the Bot API documents: a request that is answered with an error has created nothing, and one that is
  accepted has created one message, a group one per item. Silence proves nothing. \<open>n s\<close> is the number of
  messages that exist in the state \<open>s\<close>.
\<close>

definition honest_api :: "('m \<Rightarrow> nat) \<Rightarrow> 'm bot_api \<Rightarrow> bool" where
  "honest_api n api \<longleftrightarrow>
     (\<forall>call s. case ba_send api call s of
        (Inl e, t) \<Rightarrow> n s \<le> n t \<and> n t \<le> n s + 1 \<and> (bad_request e \<longrightarrow> n t = n s)
      | (Inr a, t) \<Rightarrow> n t = n s + 1)
     \<and> (\<forall>xs reply s. case ba_group api xs reply s of
          (Inl e, t) \<Rightarrow> n s \<le> n t \<and> n t \<le> n s + length xs \<and> (bad_request e \<longrightarrow> n t = n s)
        | (Inr a, t) \<Rightarrow> n t = n s + length xs)"

definition honest_bots :: "('m \<Rightarrow> nat) \<Rightarrow> ('m \<Rightarrow> 'm bot_api option) \<Rightarrow> bool" where
  "honest_bots n bots \<longleftrightarrow> (\<forall>s api. bots s = Some api \<longrightarrow> honest_api n api)"

text \<open>\<open>makes n k c\<close>: \<open>c\<close> creates \<open>k\<close> messages when it returns, and at most \<open>k\<close> when it raises.\<close>

definition makes :: "('m \<Rightarrow> nat) \<Rightarrow> nat \<Rightarrow> ('a, 'm) act \<Rightarrow> bool" where
  "makes n k c \<longleftrightarrow> (\<forall>s. case c s of (Inl e, t) \<Rightarrow> n s \<le> n t \<and> n t \<le> n s + k | (Inr a, t) \<Rightarrow> n t = n s + k)"

lemma makes_simple: "makes n 0 (ret a)" "makes n k (throw e)"
  by (simp_all add: makes_def)

lemma makes_andthen: "makes n j c \<Longrightarrow> (\<And>a. makes n k (f a)) \<Longrightarrow> makes n (j + k) (andthen c f)"
  unfolding makes_def andthen_def by (fastforce split: prod.splits sum.splits)

lemma makes_with_bot: "(\<And>s api. bots s = Some api \<Longrightarrow> makes n k (f api)) \<Longrightarrow> makes n k (with_bot bots f)"
  by (auto simp: makes_def with_bot_def split: option.split)

lemma makes_named: "makes n 0 (named_id v)"
  by (auto simp: named_id_def makes_def split: option.split)

lemma makes_checked: "makes n 0 (checked ids k a)"
  by (auto simp: checked_def makes_def split: option.split)

lemma makes_each: "(\<And>x. makes n 1 (f x)) \<Longrightarrow> makes n (length xs) (each f xs)"
proof (induction xs)
  case (Cons x xs)
  have "makes n (1 + (length xs + 0)) (andthen (f x) (\<lambda>y. andthen (each f xs) (\<lambda>ys. ret (y # ys))))"
    by (intro makes_andthen Cons makes_simple)
  then show ?case by simp
qed (simp add: makes_simple)

lemma makes_refusal:
  assumes "\<And>s. case call s of (Inl e, t) \<Rightarrow> n s \<le> n t \<and> n t \<le> n s + k \<and> (bad_request e \<longrightarrow> n t = n s) | (Inr a, t) \<Rightarrow> n t = n s + k"
    and "makes n k instead" "\<And>a. makes n 0 (f a)"
  shows "makes n k (on_refusal w call instead f)"
  unfolding makes_def
proof
  fix s
  obtain r t where c: "call s = (r, t)" by (cases "call s")
  show "case on_refusal w call instead f s of (Inl e, t) \<Rightarrow> n s \<le> n t \<and> n t \<le> n s + k | (Inr a, t) \<Rightarrow> n t = n s + k"
  proof (cases r)
    case (Inl e)
    then have "n s \<le> n t \<and> n t \<le> n s + k \<and> (bad_request e \<longrightarrow> n t = n s)" using assms(1)[of s] c by simp
    moreover have "case instead t of (Inl e, u) \<Rightarrow> n t \<le> n u \<and> n u \<le> n t + k | (Inr a, u) \<Rightarrow> n u = n t + k"
      by (rule assms(2)[unfolded makes_def, THEN spec])
    ultimately show ?thesis
      using c Inl by (cases "instead t") (auto simp: on_refusal_def split: sum.splits)
  next
    case (Inr a)
    have "n t = n s + k" using assms(1)[of s] c Inr by simp
    moreover have "case f a t of (Inl e, u) \<Rightarrow> n t \<le> n u \<and> n u \<le> n t + 0 | (Inr a, u) \<Rightarrow> n u = n t + 0"
      by (rule assms(3)[unfolded makes_def, THEN spec])
    ultimately show ?thesis
      using c Inr by (cases "f a t") (auto simp: on_refusal_def split: sum.splits)
  qed
qed

lemma honest_send:
  assumes "honest_bots n bots" "bots s = Some api"
  shows "case ba_send api call u of (Inl e, t) \<Rightarrow> n u \<le> n t \<and> n t \<le> n u + 1 \<and> (bad_request e \<longrightarrow> n t = n u)
    | (Inr a, t) \<Rightarrow> n t = n u + 1"
    "case ba_group api xs r u of (Inl e, t) \<Rightarrow> n u \<le> n t \<and> n t \<le> n u + length xs \<and> (bad_request e \<longrightarrow> n t = n u)
    | (Inr a, t) \<Rightarrow> n t = n u + length xs"
proof -
  have h: "honest_api n api" using assms by (simp add: honest_bots_def)
  show "case ba_send api call u of (Inl e, t) \<Rightarrow> n u \<le> n t \<and> n t \<le> n u + 1 \<and> (bad_request e \<longrightarrow> n t = n u)
    | (Inr a, t) \<Rightarrow> n t = n u + 1"
    by (rule h[unfolded honest_api_def, THEN conjunct1, THEN spec, THEN spec])
  show "case ba_group api xs r u of (Inl e, t) \<Rightarrow> n u \<le> n t \<and> n t \<le> n u + length xs \<and> (bad_request e \<longrightarrow> n t = n u)
    | (Inr a, t) \<Rightarrow> n t = n u + length xs"
    by (rule h[unfolded honest_api_def, THEN conjunct2, THEN spec, THEN spec, THEN spec])
qed

lemma makes_call: "honest_bots n bots \<Longrightarrow> bots s = Some api \<Longrightarrow> makes n 1 (ba_send api call)"
  unfolding makes_def using honest_send(1) by (fastforce split: prod.splits sum.splits)

lemma makes_single:
  assumes "honest_bots n bots"
  shows "makes n 1 (send_document bots x r)" "makes n 1 instead \<Longrightarrow> makes n 1 (send_or bots call instead)"
    "makes n 1 (send_photo bots x r)" "makes n 1 (send_sticker bots x r)" "makes n 1 (send_video bots x r)"
    "makes n 1 (bot_text bots t r e b)" "makes n 1 (bot_contact bots ph fi la v r)"
proof -
  have call: "makes n (1 + 0) (andthen (ba_send api c) named_id)" if "bots s = Some api" for s api c
    by (rule makes_andthen[OF makes_call[OF assms that] makes_named])
  show doc: "makes n 1 (send_document bots x r)" for x
    unfolding send_document_def using call by (auto intro!: makes_with_bot)
  show or: "makes n 1 (send_or bots call instead)" if "makes n 1 instead" for call instead
    unfolding send_or_def
    by (rule makes_with_bot) (rule makes_refusal[OF honest_send(1)[OF assms] that makes_named])
  show photo: "makes n 1 (send_photo bots x r)" for x unfolding send_photo_def by (rule or[OF doc])
  show "makes n 1 (send_sticker bots x r)" unfolding send_sticker_def by (rule or[OF photo])
  show "makes n 1 (send_video bots x r)" unfolding send_video_def by (rule or[OF doc])
  show "makes n 1 (bot_text bots t r e b)" unfolding bot_text_def using call by (auto intro!: makes_with_bot)
  show "makes n 1 (bot_contact bots ph fi la v r)" unfolding bot_contact_def using call by (auto intro!: makes_with_bot)
qed

text \<open>C36. A fallback never duplicates. Whatever form the bot's sender offers an attachment in - photo, sticker, circle,
  and then video or document - one message exists when it returns and one at most when it raises; an album,
  sent as a group or, when Telegram refused the group, part by part, makes one message per item and never
  more. (A circle with words is two messages by design.)\<close>

theorem fallback_never_duplicates:
  assumes "honest_bots n bots" and "k = Send_video_note \<Longrightarrow> some_text (om_caption x) = []"
  shows "makes n 1 (bot_media bots k x reply) \<and> makes n (length xs) (bot_album bots xs reply)"
proof
  note one = makes_single[OF assms(1)]
  have note_words: "makes n 1 (send_video_note bots x reply)" if "some_text (om_caption x) = []"
    unfolding send_video_note_def
  proof (rule makes_with_bot)
    fix s api assume "bots s = Some api"
    moreover have "makes n (0 + 0) (andthen (named_id v) (\<lambda>i. if some_text (om_caption x) \<noteq> []
        then andthen (bot_text bots (some_text (om_caption x)) (Some i) None None) (\<lambda>_. ret i) else ret i))" for v
      using that by (intro makes_andthen makes_named) (simp add: makes_simple)
    ultimately show "makes n 1 (on_refusal refused_representation (ba_send api (Api_media Send_video_note x reply))
         (send_video bots (x\<lparr>om_kind := A_VIDEO\<rparr>) reply)
         (\<lambda>sent. andthen (named_id sent) (\<lambda>i. if some_text (om_caption x) \<noteq> []
            then andthen (bot_text bots (some_text (om_caption x)) (Some i) None None) (\<lambda>_. ret i) else ret i)))"
      by (intro makes_refusal honest_send(1)[OF assms(1)] one(5)) auto
  qed
  show "makes n 1 (bot_media bots k x reply)" by (cases k) (simp_all add: one note_words assms(2) del: One_nat_def)
  have single: "makes n 1 (dispatch_single bots reply y)" for y
    by (simp only: dispatch_single_def one split: if_split) simp
  have "makes n (length xs + 0) (andthen (each (dispatch_single bots reply) xs) (\<lambda>ids. checked ids (length xs) (ids, None)))"
    by (intro makes_andthen makes_each single makes_checked)
  moreover have "makes n 0 (each (\<lambda>(i, g). named_id i) sent)" for sent
  proof (induction sent)
    case (Cons y ys)
    obtain i g where "y = (i, g)" by (cases y)
    moreover have "makes n (0 + (0 + 0)) (andthen (named_id i) (\<lambda>y. andthen (each (\<lambda>(i, g). named_id i) ys) (\<lambda>ys. ret (y # ys))))"
      by (intro makes_andthen makes_named Cons makes_simple)
    ultimately show ?case by simp
  next
    case Nil
    show ?case unfolding each.simps by (rule makes_simple)
  qed
  then have "makes n (0 + 0) (andthen (each (\<lambda>(i, g). named_id i) sent) (\<lambda>ids. checked ids (length xs) (ids, first_group_id sent)))"
    for sent by (intro makes_andthen makes_checked)
  ultimately show "makes n (length xs) (bot_album bots xs reply)"
    unfolding bot_album_def by (auto intro!: makes_with_bot makes_refusal honest_send(2)[OF assms(1)])
qed

text \<open>A Bot API that takes no photos and no stickers, and answers everything else with the next number.\<close>

definition picky_api :: "bot_call list bot_api" where
  "picky_api =
     \<lparr>ba_send = (\<lambda>call s. case call of
         Api_media Send_photo x r \<Rightarrow> (Inl (TelegramBadRequest ''PHOTO_INVALID_DIMENSIONS''), s)
       | Api_media Send_sticker x r \<Rightarrow> (Inl (TelegramBadRequest ''STICKER_FILE_INVALID''), s)
       | _ \<Rightarrow> (Inr (Some (int (length s) + 1)), s @ [call])),
      ba_group = (\<lambda>xs r s. (Inr (map (\<lambda>x. (None, None)) xs), s @ map (\<lambda>x. Api_media Send_photo x r) xs))\<rparr>"

definition a_photo :: outgoing_media where
  "a_photo = \<lparr>om_kind = A_PHOTO, om_path = ''/tmp/x'', om_file_name = [], om_caption = Some [104], om_entities = None,
     om_duration = None, om_width = None, om_height = None, om_title = None, om_performer = None, om_thumbnail = None\<rparr>"

lemma picky_honest: "honest_bots length (\<lambda>s. Some picky_api)"
  by (auto simp: honest_bots_def honest_api_def picky_api_def split: bot_call.splits media_method.splits)

lemma photo_refused: "refused_representation (TelegramBadRequest ''PHOTO_INVALID_DIMENSIONS'')"
    "refused_representation (TelegramBadRequest ''STICKER_FILE_INVALID'')"
  by code_simp+

theorem fallback_never_duplicates_witness:
  "makes length 1 (bot_media (\<lambda>s. Some picky_api) Send_photo a_photo None)
   \<and> bot_media (\<lambda>s. Some picky_api) Send_photo a_photo None [] = (Inr 1, [Api_media Send_document a_photo None])"
proof
  show "makes length 1 (bot_media (\<lambda>s. Some picky_api) Send_photo a_photo None)"
    using fallback_never_duplicates[OF picky_honest, of Send_photo a_photo None "[]"] by simp
  show "bot_media (\<lambda>s. Some picky_api) Send_photo a_photo None [] = (Inr 1, [Api_media Send_document a_photo None])"
    by (simp add: send_photo_def send_or_def send_document_def with_bot_def on_refusal_def picky_api_def photo_refused
        andthen_def named_id_def)
qed

subsection \<open>Where the two halves disagree\<close>

text \<open>The words of a sticker go out twice when the sticker does not go out as one. The delivery sends them after
  the sticker because \<open>sendSticker\<close> has no caption, but the bot's sender has by then sent the refused sticker
  as a photo with its caption; the owner's sender always places a sticker as a captioned photo.\<close>

theorem sticker_words_go_twice:
  "let x = a_photo\<lparr>om_kind := A_STICKER\<rparr> in
     dispatch (registry_sender (\<lambda>s. Some picky_api)) x None []
       = (Inr 1, [Api_media Send_document x None, Api_message [104] (Some 1) None None])
     \<and> dispatch (mtproto_sender (\<lambda>s. Some
          \<lparr>os_connected = True, os_message = (\<lambda>t e s. (Inr (Some 2), s @ [S_text t])),
           os_file = (\<lambda>k x s. (Inr (Some 1), s @ [S_media Send_photo (om_caption x)])),
           os_album = (\<lambda>ps c e s. (Inr [], s))\<rparr>)) x None []
       = (Inr 1, [S_media Send_photo (Some [104]), S_text [104]])"
  by (simp add: dispatch_def registry_sender_def mtproto_sender_def send_sticker_def send_photo_def send_or_def
      send_document_def bot_text_def with_bot_def on_refusal_def picky_api_def photo_refused andthen_def named_id_def
      a_photo_def some_text_def nonzero_or_def place_def owner_text_def with_session_def placed_id_def)

text \<open>An owner's album with a video is placed part by part, and only a part without an id makes the rest a
  question. A flood wait on the second part travels as it is: the settlement retries the job for free, and
  the next attempt places the first part again.\<close>

definition flooded_session :: "(ucs option list \<times> bool) owner_session" where
  "flooded_session =
     \<lparr>os_connected = True, os_message = (\<lambda>t e s. (Inr (Some 9), s)),
      os_file = (\<lambda>k x s. if fst s \<noteq> [] \<and> snd s then (Inl (FloodWaitError 30 ''wait''), (fst s, False))
                         else (Inr (Some (int (length (fst s)) + 1)), (fst s @ [om_caption x], snd s))),
      os_album = (\<lambda>ps c e s. (Inr [], s))\<rparr>"

theorem flooded_owner_album_is_placed_again:
  "let xs = [a_photo, a_photo\<lparr>om_kind := A_VIDEO\<rparr>]; album = sd_album (mtproto_sender (\<lambda>s. Some flooded_session)) xs None;
       first = album ([], True); again = album (snd first)
   in fst first = Inl (FloodWaitError 30 ''wait'') \<and> fst (snd first) = [Some [104]]
      \<and> st_verdict (settle ''max_to_tg_owner'' (FloodWaitError 30 ''wait'') True) = V_RETRY
      \<and> fst again = Inr ([2, 3], None) \<and> fst (snd again) = [Some [104], Some [104], None]"
proof -
  have v: "st_verdict (settle ''max_to_tg_owner'' (FloodWaitError 30 ''wait'') True) = V_RETRY" by code_simp
  show ?thesis
    unfolding v
    by (simp add: mtproto_sender_def owner_album_def owner_one_at_a_time_def place_part_def place_def with_session_def
        flooded_session_def andthen_def placed_id_def a_photo_def uncaptioned_def checked_def check_album_receipt_def Let_def)
qed

end
