(* ===== verification/Own_Echoes.thy ===== *)
theory Own_Echoes
  imports Owner_Mutation Rendering "HOL-Library.Multiset"
begin

section \<open>Recognising what the bridge wrote itself\<close>

text \<open>
  The memory and the fingerprints of \<open>routing/echo.py\<close>. \<open>OwnEchoes\<close> is a bounded queue of notes; its
  clock is the monotonic one, in milliseconds. \<open>sha\<close> is SHA-256 of a UTF-8 text as hexadecimal digits.
\<close>

subsection \<open>OwnEchoes\<close>

definition ECHO_TTL_MS :: int where "ECHO_TTL_MS = 60000"
definition MAX_PENDING :: nat where "MAX_PENDING = 64"

record placed =
  pd_max_chat_id :: int
  pd_max_message_id :: int

record echo_note =
  en_at :: int
  en_bot_id :: int
  en_text :: string
  en_placed :: "placed option"

type_synonym own_echoes = "echo_note list"

text \<open>A full deque loses its oldest note.\<close>

definition note_echo :: "int \<Rightarrow> int \<Rightarrow> string \<Rightarrow> placed option \<Rightarrow> own_echoes \<Rightarrow> own_echoes" where
  "note_echo now bid t placed q =
     (let q' = q @ [\<lparr>en_at = now, en_bot_id = bid, en_text = t, en_placed = placed\<rparr>]
      in if length q' > MAX_PENDING then tl q' else q')"

definition stale :: "int \<Rightarrow> echo_note \<Rightarrow> bool" where
  "stale now e \<longleftrightarrow> now - en_at e > ECHO_TTL_MS"

definition expire_echoes :: "int \<Rightarrow> own_echoes \<Rightarrow> own_echoes" where
  "expire_echoes now q = dropWhile (stale now) q"

fun take_echo :: "int \<Rightarrow> int \<Rightarrow> string \<Rightarrow> own_echoes \<Rightarrow> (echo_note \<times> own_echoes) option" where
  "take_echo now bid t [] = None"
| "take_echo now bid t (e # q) =
     (if \<not> stale now e \<and> en_bot_id e = bid \<and> en_text e = t then Some (e, q)
      else map_option (\<lambda>(f, q'). (f, e # q')) (take_echo now bid t q))"

text \<open>The claim that is granted, if any, with what was placed.\<close>

definition claim_echo :: "int \<Rightarrow> int \<Rightarrow> string \<Rightarrow> own_echoes \<Rightarrow> echo_note option \<times> own_echoes" where
  "claim_echo now bid t q =
     (case take_echo now bid t q of
        Some (e, q') \<Rightarrow> (Some e, q')
      | None \<Rightarrow> (None, expire_echoes now q))"

subsection \<open>Fingerprints\<close>

definition BINDABLE_ECHO_KINDS :: "string list" where
  "BINDABLE_ECHO_KINDS = [''photo'', ''video'', ''voice'', ''video_note'', ''audio'', ''document'']"

definition MAX_ECHO_KINDS :: "(string \<times> string) list" where
  "MAX_ECHO_KINDS =
     [(''photo'', ''photo''), (''video'', ''video''), (''video_note'', ''video_note''), (''voice'', ''voice''),
      (''music'', ''audio''), (''file'', ''document'')]"

definition echo_kind_of :: "string \<Rightarrow> string option" where
  "echo_kind_of k = map_of MAX_ECHO_KINDS k"

definition digest32 :: "(string \<Rightarrow> string) \<Rightarrow> string \<Rightarrow> string" where
  "digest32 sha t = take 32 (sha t)"

definition text_echo_fingerprint :: "(string \<Rightarrow> string) \<Rightarrow> string \<Rightarrow> string" where
  "text_echo_fingerprint sha t = ''t1:'' @ digest32 sha t"

definition media_echo_fingerprint :: "(string \<Rightarrow> string) \<Rightarrow> string \<Rightarrow> string \<Rightarrow> string option" where
  "media_echo_fingerprint sha kind caption =
     (if kind \<notin> set BINDABLE_ECHO_KINDS then None
      else Some (''m1:'' @ digest32 sha (kind @ ''|1|'' @ digest32 sha caption)))"

definition album_part_fingerprint :: "(string \<Rightarrow> string) \<Rightarrow> string option \<Rightarrow> int \<Rightarrow> string option \<Rightarrow> string" where
  "album_part_fingerprint sha kind idx caption =
     (let k = some_text kind; c = digest32 sha (some_text caption)
      in ''a1:'' @ digest32 sha ((if k \<noteq> [] then k else ''?'') @ ''|'' @ show_int idx @ ''|''
           @ (if caption \<noteq> None then ''1'' else ''0'') @ ''|'' @ c))"

definition media_key :: "string \<Rightarrow> string" where
  "media_key file_unique_id = ''file:'' @ file_unique_id"

subsection \<open>A note is claimed once, while it is fresh\<close>

datatype echo_op = Note int int string "placed option" | Claim int int string

fun run_echoes :: "echo_op list \<Rightarrow> own_echoes \<Rightarrow> echo_note list \<times> own_echoes" where
  "run_echoes [] q = ([], q)"
| "run_echoes (Note now bid t pl # ops) q = run_echoes ops (note_echo now bid t pl q)"
| "run_echoes (Claim now bid t # ops) q =
     (let (r, q') = claim_echo now bid t q; (rs, q'') = run_echoes ops q'
      in (case r of None \<Rightarrow> rs | Some e \<Rightarrow> e # rs, q''))"

fun noted :: "echo_op list \<Rightarrow> echo_note list" where
  "noted [] = []"
| "noted (Note now bid t pl # ops) = \<lparr>en_at = now, en_bot_id = bid, en_text = t, en_placed = pl\<rparr> # noted ops"
| "noted (Claim now bid t # ops) = noted ops"

lemma take_echo_mset:
  "take_echo now bid t q = Some (e, q') \<Longrightarrow>
   mset q = add_mset e (mset q') \<and> \<not> stale now e \<and> en_bot_id e = bid \<and> en_text e = t"
  by (induction q arbitrary: q') (auto split: if_splits)

lemma claim_echo_mset:
  assumes "claim_echo now bid t q = (r, q')"
  shows "(case r of None \<Rightarrow> {#} | Some e \<Rightarrow> {#e#}) + mset q' \<subseteq># mset q"
proof (cases "take_echo now bid t q")
  case None
  have "mset (dropWhile (stale now) q) \<subseteq># mset q"
    by (metis mset_append mset_subset_eq_add_right takeWhile_dropWhile_id)
  then show ?thesis using assms None by (auto simp: claim_echo_def expire_echoes_def)
next
  case (Some ek)
  then show ?thesis using assms take_echo_mset by (cases ek) (fastforce simp: claim_echo_def)
qed

lemma note_echo_mset:
  "mset (note_echo now bid t pl q) \<subseteq># add_mset \<lparr>en_at = now, en_bot_id = bid, en_text = t, en_placed = pl\<rparr> (mset q)"
proof -
  have "mset (tl q') \<subseteq># mset q'" for q' :: own_echoes by (cases q') auto
  from this[of "q @ [\<lparr>en_at = now, en_bot_id = bid, en_text = t, en_placed = pl\<rparr>]"] show ?thesis
    by (simp add: note_echo_def Let_def)
qed

lemma run_echoes_mset:
  "run_echoes ops q = (granted, q') \<Longrightarrow> mset granted + mset q' \<subseteq># mset (noted ops) + mset q"
proof (induction ops q arbitrary: granted q' rule: run_echoes.induct)
  case (2 now bid t pl ops q)
  then have "mset granted + mset q' \<subseteq># mset (noted ops) + mset (note_echo now bid t pl q)" by simp
  also have "\<dots> \<subseteq># mset (noted ops) + add_mset \<lparr>en_at = now, en_bot_id = bid, en_text = t, en_placed = pl\<rparr> (mset q)"
    by (intro subset_mset.add_left_mono note_echo_mset)
  finally show ?case by simp
next
  case (3 now bid t ops q)
  obtain r k rs where r: "claim_echo now bid t q = (r, k)" "run_echoes ops k = (rs, q')"
    "granted = (case r of None \<Rightarrow> rs | Some e \<Rightarrow> e # rs)"
    using 3(2) by (auto simp: Let_def split: prod.splits)
  have i: "mset rs + mset q' \<subseteq># mset (noted ops) + mset k" using 3(1)[OF r(1)[symmetric] refl r(2)] .
  have c: "(case r of None \<Rightarrow> {#} | Some e \<Rightarrow> {#e#}) + mset k \<subseteq># mset q" using claim_echo_mset[OF r(1)] .
  have "mset granted + mset q' = (case r of None \<Rightarrow> {#} | Some e \<Rightarrow> {#e#}) + (mset rs + mset q')"
    using r(3) by (cases r) simp_all
  also have "\<dots> \<subseteq># (case r of None \<Rightarrow> {#} | Some e \<Rightarrow> {#e#}) + (mset (noted ops) + mset k)"
    by (intro subset_mset.add_left_mono i)
  also have "\<dots> = mset (noted ops) + ((case r of None \<Rightarrow> {#} | Some e \<Rightarrow> {#e#}) + mset k)"
    by (simp add: union_ac)
  also have "\<dots> \<subseteq># mset (noted ops) + mset q" by (intro subset_mset.add_left_mono c)
  finally show ?case by simp
qed simp

text \<open>No line the owner typed is swallowed for want of an echo: in any run, each placed line suppresses at most
  one message - the messages taken for echoes are a sub-multiset of the lines noted - and at most 64
  lines are waiting at any time.\<close>

theorem echo_suppresses_once:
  "mset (fst (run_echoes ops [])) \<subseteq># mset (noted ops)"
proof -
  obtain granted q where r: "run_echoes ops [] = (granted, q)" by fastforce
  then have "mset granted + mset q \<subseteq># mset (noted ops)" using run_echoes_mset by fastforce
  then show ?thesis using r by (metis fst_conv mset_subset_eq_add_left subset_mset.order_trans)
qed

lemma claim_is_fresh:
  assumes "claim_echo now bid t q = (Some e, q')"
  shows "e \<in> set q \<and> now - en_at e \<le> ECHO_TTL_MS \<and> en_bot_id e = bid \<and> en_text e = t"
proof -
  have k: "take_echo now bid t q = Some (e, q')"
    using assms by (auto simp: claim_echo_def split: option.splits)
  note m = take_echo_mset[OF k]
  have "e \<in> set q" using conjunct1[OF m] by (metis set_mset_mset union_single_eq_member)
  then show ?thesis using conjunct2[OF m] by (simp add: stale_def)
qed

text \<open>Two messages with the same fingerprint look the same, if SHA-256 does not collide: the kind of the media
  and its caption are equal. An album part is told by its kind, its position and its caption.\<close>

lemma bindable_no_bar: "k \<in> set BINDABLE_ECHO_KINDS \<Longrightarrow> CHR ''|'' \<notin> set k"
  by (auto simp: BINDABLE_ECHO_KINDS_def)

lemma media_fingerprint_exact:
  assumes "\<And>a b. digest32 sha a = digest32 sha b \<Longrightarrow> a = b"
    and "media_echo_fingerprint sha k c = Some f" "media_echo_fingerprint sha k' c' = Some f"
  shows "k = k' \<and> c = c'"
proof -
  have k: "CHR ''|'' \<notin> set k" "CHR ''|'' \<notin> set k'"
    using assms(2,3) bindable_no_bar by (auto simp: media_echo_fingerprint_def split: if_splits)
  have "k @ ''|1|'' @ digest32 sha c = k' @ ''|1|'' @ digest32 sha c'"
    using assms by (auto simp: media_echo_fingerprint_def split: if_splits)
  then have "k = k' \<and> digest32 sha c = digest32 sha c'" using sep_append_inject[OF k] by simp
  then show ?thesis using assms(1) by blast
qed

end
