(* ===== verification/Send_Job.thy ===== *)
theory Send_Job
  imports Media_Senders Own_Echoes Owner_Echo Max_Mutation Delivery_System
begin

section \<open>One queued delivery, performed\<close>

text \<open>
  \<open>send_job\<close> of \<open>service/runtime.py\<close>, the only sender the queue knows, with what it calls in that file and in
  \<open>routing/settlement.py\<close>. Its state is the tables it writes, the memory of placed lines and the world outside; its
  collaborators are a record of coroutines over the world outside. The flag \<open>jw_marked\<close> is the attempt's own: its
  hook writes the send mark and sets it.
\<close>

subsection \<open>The state and the ports\<close>

record 'm job_world =
  jw_outbox :: outbox
  jw_marked :: bool
  jw_links :: message_map
  jw_parts :: media_groups
  jw_obs :: bridge_obs
  jw_states :: owner_states
  jw_reactions :: reaction_state
  jw_echoes :: own_echoes
  jw_remote :: 'm

type_synonym ('a, 'm) job = "('a, 'm job_world) act"

type_synonym upload = "string \<times> string \<times> string"

record 'm job_ports =
  jp_bot_text :: "int \<Rightarrow> int \<Rightarrow> string \<Rightarrow> int option \<Rightarrow> json \<Rightarrow> (int option, 'm) act"
  jp_media :: "'m media_ports"
  jp_bot_media :: "int \<Rightarrow> int \<Rightarrow> 'm media_sender"
  jp_owner_media :: "int \<Rightarrow> 'm media_sender"
  jp_owner_text :: "int \<Rightarrow> string \<Rightarrow> json \<Rightarrow> (int option, 'm) act"
  jp_seeds :: bool
  jp_placement_fp :: "string \<Rightarrow> json \<Rightarrow> string option"
  jp_max_text :: "int \<Rightarrow> string \<Rightarrow> int option \<Rightarrow> (int, 'm) act"
  jp_max_contact :: "int \<Rightarrow> string \<Rightarrow> int option \<Rightarrow> int option \<Rightarrow> (int, 'm) act"
  jp_max_media :: "int \<Rightarrow> upload list \<Rightarrow> string \<Rightarrow> int option \<Rightarrow> (int, 'm) act"
  jp_exists :: "string \<Rightarrow> 'm \<Rightarrow> bool"
  jp_mtproto :: "(json \<Rightarrow> (upload, 'm) act) option"
  jp_bot_live :: "int \<Rightarrow> 'm \<Rightarrow> bool"
  jp_bot_of_chat :: "int \<Rightarrow> 'm \<Rightarrow> int option"
  jp_bot_file :: "int \<Rightarrow> string \<Rightarrow> string \<Rightarrow> (string, 'm) act"
  jp_max_client :: "'m max_client"
  jp_telegram :: "'m telegram"
  jp_online :: "'m \<Rightarrow> bool"
  jp_session :: "'m session option"

definition on_remote :: "('a, 'm) act \<Rightarrow> ('a, 'm) job" where
  "on_remote c w = (let (r, m) = c (jw_remote w) in (r, w\<lparr>jw_remote := m\<rparr>))"

definition lift_sender :: "'m media_sender \<Rightarrow> 'm job_world media_sender" where
  "lift_sender sd =
     \<lparr>sd_media = (\<lambda>k x r. on_remote (sd_media sd k x r)), sd_album = (\<lambda>xs r. on_remote (sd_album sd xs r)),
      sd_text = (\<lambda>t r e b. on_remote (sd_text sd t r e b)),
      sd_contact = (\<lambda>ph f l v r. on_remote (sd_contact sd ph f l v r)),
      sd_photo_url = (\<lambda>u c r b. on_remote (sd_photo_url sd u c r b))\<rparr>"

definition lift_ports :: "'m media_ports \<Rightarrow> 'm job_world media_ports" where
  "lift_ports p =
     \<lparr>pl_fetch = (\<lambda>a c i. on_remote (pl_fetch p a c i)), pl_limit_bytes = pl_limit_bytes p, pl_cover = pl_cover p,
      pl_digest = pl_digest p, pl_origins = map_option (\<lambda>put d i. on_remote (put d i)) (pl_origins p),
      pl_link = pl_link p\<rparr>"

text \<open>\<open>payload[key]\<close> as an int, as a text.\<close>

definition need_int :: "string \<Rightarrow> json \<Rightarrow> (int \<Rightarrow> ('a, 's) act) \<Rightarrow> ('a, 's) act" where
  "need_int k payload f = (case get_int k payload of None \<Rightarrow> throw key_error | Some i \<Rightarrow> f i)"

definition need_str :: "string \<Rightarrow> json \<Rightarrow> (string \<Rightarrow> ('a, 's) act) \<Rightarrow> ('a, 's) act" where
  "need_str k payload f = (case get_str k payload of None \<Rightarrow> throw key_error | Some t \<Rightarrow> f t)"

definition get_json :: "string \<Rightarrow> json \<Rightarrow> json" where
  "get_json k payload = (case jget k payload of None \<Rightarrow> JNull | Some v \<Rightarrow> v)"

definition get_list :: "string \<Rightarrow> json \<Rightarrow> json list" where
  "get_list k payload = (case jget k payload of Some (JList vs) \<Rightarrow> vs | _ \<Rightarrow> [])"

fun db_failure :: "db_error \<Rightarrow> failure" where
  "db_failure IntegrityError = OtherError ''IntegrityError'' ''UNIQUE constraint failed''"
| "db_failure (AlbumSettlementError t) = OtherError ''AlbumSettlementError'' t"
| "db_failure (DatabaseUnavailableError t) = OtherError ''DatabaseUnavailableError'' t"
| "db_failure (BridgeIdentityConflictError t) = OtherError ''BridgeIdentityConflictError'' t"
| "db_failure (StatementError t) = OtherError ''OperationalError'' t"

subsection \<open>Settlement\<close>

definition album_parts :: "delivery_receipt \<Rightarrow> (int \<times> int) list" where
  "album_parts r = map (\<lambda>d. (int (dp_index d), dp_message_id d)) (dr_album r)"

definition album_settled :: "db_error + (message_map \<times> media_groups) \<Rightarrow> int \<Rightarrow> (int, 'm) job" where
  "album_settled result sent w =
     (case result of
        Inl (AlbumSettlementError t) \<Rightarrow> (Inl (UnconfirmedDeliveryError t), w)
      | Inl e \<Rightarrow> (Inl (db_failure e), w)
      | Inr (mm, mg) \<Rightarrow> (Inr sent, w\<lparr>jw_links := mm, jw_parts := mg\<rparr>))"

definition settle_telegram_mapping :: "int \<Rightarrow> json \<Rightarrow> int \<Rightarrow> delivery_receipt option \<Rightarrow> (int, 'm) job" where
  "settle_telegram_mapping now payload sent receipt w =
     (case get_int ''link_id'' payload of
        None \<Rightarrow> (Inr sent, w)
      | Some link \<Rightarrow>
          (case receipt of
             Some r \<Rightarrow>
               if dr_album r \<noteq> [] then
                 album_settled (settle_bot_album now link (album_parts r) (jw_links w, jw_parts w)) sent w
               else (case attach_telegram_message link sent (jw_links w) of
                       Inl e \<Rightarrow> (Inl (db_failure e), w) | Inr mm \<Rightarrow> (Inr sent, w\<lparr>jw_links := mm\<rparr>))
           | None \<Rightarrow> (case attach_telegram_message link sent (jw_links w) of
                       Inl e \<Rightarrow> (Inl (db_failure e), w) | Inr mm \<Rightarrow> (Inr sent, w\<lparr>jw_links := mm\<rparr>))))"

definition settle_owner_mapping :: "int \<Rightarrow> json \<Rightarrow> int \<Rightarrow> delivery_receipt option \<Rightarrow> (int, 'm) job" where
  "settle_owner_mapping now payload owner_message receipt w =
     (case get_int ''link_id'' payload of
        None \<Rightarrow> (Inr owner_message, w)
      | Some link \<Rightarrow>
          (let acct = get_int ''owner_account_id'' payload in
           case receipt of
             Some r \<Rightarrow>
               if dr_album r \<noteq> [] then
                 album_settled (settle_owner_album now link (some_int acct) (album_parts r) (jw_links w, jw_parts w))
                   owner_message w
               else (Inr owner_message, w\<lparr>jw_links := map_attach_owner_message link owner_message acct (jw_links w)\<rparr>)
           | None \<Rightarrow>
               (Inr owner_message, w\<lparr>jw_links := map_attach_owner_message link owner_message acct (jw_links w)\<rparr>)))"

definition settle_max_mapping :: "json \<Rightarrow> int \<Rightarrow> (int, 'm) job" where
  "settle_max_mapping payload sent w =
     (case settle_max_delivery_mapping (Some (jw_links w)) payload sent of
        Inl e \<Rightarrow> (Inl (db_failure e), w)
      | Inr (i, mm) \<Rightarrow> (Inr i, w\<lparr>jw_links := (case mm of None \<Rightarrow> jw_links w | Some l \<Rightarrow> l)\<rparr>))"

subsection \<open>Into MAX\<close>

text \<open>\<open>_creating_send\<close>: what the MAX client could not confirm becomes a question.\<close>

definition creating_send :: "('a, 's) act \<Rightarrow> ('a, 's) act" where
  "creating_send call s =
     (case call s of
        (Inl (MaxUnconfirmedSendError t), u) \<Rightarrow> (Inl (UnconfirmedDeliveryError t), u)
      | r \<Rightarrow> r)"

definition carry_media_into_max :: "'m job_ports \<Rightarrow> json \<Rightarrow> upload list \<Rightarrow> (int, 'm) job" where
  "carry_media_into_max po payload items =
     creating_send (need_int ''max_chat_id'' payload (\<lambda>chat.
       on_remote (jp_max_media po chat items (some_text (get_str ''caption'' payload)) (get_int ''reply_to'' payload))))"

definition refetch_mtproto_media :: "'m job_ports \<Rightarrow> json list \<Rightarrow> (upload list, 'm) job" where
  "refetch_mtproto_media po refs =
     (case jp_mtproto po of
        None \<Rightarrow> throw (PermanentDeliveryError ''no MTProto session to re-fetch this media from'')
      | Some fetch \<Rightarrow> andthen (each (\<lambda>ref. on_remote (fetch ref)) refs) (\<lambda>got.
          if got = [] then throw (PermanentDeliveryError ''nothing could be re-fetched for this upload'') else ret got))"

fun as_upload :: "json \<Rightarrow> upload option" where
  "as_upload (JList [JStr k, JStr f, JStr n]) = Some (k, f, n)"
| "as_upload v = None"

text \<open>The bot is looked up by the job's own bot id and then by its MAX chat.\<close>

definition refetch_media :: "'m job_ports \<Rightarrow> json \<Rightarrow> json list \<Rightarrow> (upload list, 'm) job" where
  "refetch_media po payload sources w =
     (let by_bot = (case get_int ''bot_id'' payload of
                      None \<Rightarrow> None
                    | Some i \<Rightarrow> if i \<noteq> 0 \<and> jp_bot_live po i (jw_remote w) then Some i else None);
          fetch = (\<lambda>bid. andthen
            (each (\<lambda>src. case as_upload src of
                None \<Rightarrow> throw (OtherError ''ValueError'' ''not enough values to unpack'')
              | Some (kind, file_id, name) \<Rightarrow>
                  andthen (on_remote (jp_bot_file po bid file_id name)) (\<lambda>path. ret (kind, path, name))) sources)
            (\<lambda>got. if got = [] then throw (PermanentDeliveryError ''nothing could be re-fetched for this upload'')
                    else ret got))
      in (case by_bot of
            Some bid \<Rightarrow> fetch bid w
          | None \<Rightarrow> need_int ''max_chat_id'' payload (\<lambda>chat w.
              case jp_bot_of_chat po chat (jw_remote w) of
                Some bid \<Rightarrow> fetch bid w
              | None \<Rightarrow> (Inl (PermanentDeliveryError ''the bridge this upload belongs to is no longer running''), w)) w))"

definition send_max_media :: "'m job_ports \<Rightarrow> (unit, 'm) job \<Rightarrow> json \<Rightarrow> (int option, 'm) job" where
  "send_max_media po sending payload w =
     (let stored = map as_upload (get_list ''items'' payload); items = map the stored;
          upload = (\<lambda>got. andthen sending (\<lambda>_. carry_media_into_max po payload got));
          settle = (\<lambda>sent. andthen (settle_max_mapping payload sent) (\<lambda>i. ret (Some i)))
      in if None \<in> set stored then (Inl (OtherError ''IndexError'' ''list index out of range''), w)
         else if items \<noteq> [] \<and> list_all (\<lambda>(k, path, n). jp_exists po path (jw_remote w)) items
         then andthen (upload items) settle w
         else if get_list ''mtproto'' payload \<noteq> []
         then andthen (andthen (refetch_mtproto_media po (get_list ''mtproto'' payload)) upload) settle w
         else if get_list ''sources'' payload = []
         then (Inl (PermanentDeliveryError ''the downloaded files are gone and this job has no Telegram file ids''), w)
         else andthen (andthen (refetch_media po payload (get_list ''sources'' payload)) upload) settle w)"

text \<open>An oversized text of an older process is fanned out into a batch before MAX is touched.\<close>

definition legacy_base :: "int \<Rightarrow> string" where
  "legacy_base link = ''legacy-text:'' @ show_int link"

definition part_payload :: "int \<Rightarrow> int \<Rightarrow> json \<Rightarrow> nat \<Rightarrow> ucs \<Rightarrow> json" where
  "part_payload chat link reply k chunk =
     JObj ([(''max_chat_id'', JInt chat), (''text'', JStr (utf8 chunk)), (''reply_to'', if k = 0 then reply else JNull)]
           @ (if k = 0 then [(''link_id'', JInt link)] else []))"

definition fan_out :: "int \<Rightarrow> json \<Rightarrow> ucs list \<Rightarrow> (int option, 'm) job" where
  "fan_out now payload chunks =
     need_int ''link_id'' payload (\<lambda>link w.
       case link_by_id link (jw_links w) of
         None \<Rightarrow> (Inl (OtherError ''RuntimeError'' ''an oversized text job lost its mapping''), w)
       | Some row \<Rightarrow>
           need_int ''max_chat_id'' payload (\<lambda>chat. andthen
             (writes (\<lambda>w. w\<lparr>jw_outbox := snd (enqueue_batch now (ml_bridge_name row) TG_TO_MAX
                (map (\<lambda>(k, c). (KIND_TG_TO_MAX_TEXT, part_payload chat link (get_json ''reply_to'' payload) k c,
                               text_part_source_key (legacy_base link) (int k) (int (length chunks))))
                   (zip [0..<length chunks] chunks)) (Some DEFAULT_TTL_MS) (jw_outbox w))\<rparr>))
             (\<lambda>_. ret None)) w)"

definition send_max_text :: "int \<Rightarrow> 'm job_ports \<Rightarrow> (unit, 'm) job \<Rightarrow> json \<Rightarrow> (int option, 'm) job" where
  "send_max_text now po sending payload =
     need_str ''text'' payload (\<lambda>t.
       case split_max_text MAX_TEXT_UTF16_LIMIT (decode t) of
         Inl e \<Rightarrow> throw (OtherError ''UnicodeEncodeError'' [])
       | Inr chunks \<Rightarrow>
           if length chunks > 1 then fan_out now payload chunks
           else andthen sending (\<lambda>_. andthen
                  (creating_send (need_int ''max_chat_id'' payload (\<lambda>chat.
                     on_remote (jp_max_text po chat t (get_int ''reply_to'' payload)))))
                  (\<lambda>sent. andthen (settle_max_mapping payload sent) (\<lambda>i. ret (Some i)))))"

definition send_max_contact :: "'m job_ports \<Rightarrow> (unit, 'm) job \<Rightarrow> json \<Rightarrow> (int option, 'm) job" where
  "send_max_contact po sending payload =
     andthen sending (\<lambda>_. andthen
       (creating_send (need_int ''max_chat_id'' payload (\<lambda>chat. need_str ''vcard'' payload (\<lambda>card.
          on_remote (jp_max_contact po chat card (get_int ''contact_user_id'' payload) (get_int ''reply_to'' payload))))))
       (\<lambda>sent. andthen (settle_max_mapping payload sent) (\<lambda>i. ret (Some i))))"

subsection \<open>Into Telegram\<close>

definition restored_attachments :: "json \<Rightarrow> (attachment list, 's) act" where
  "restored_attachments payload =
     each (\<lambda>item. case attachment_from_payload item of Inl e \<Rightarrow> throw e | Inr a \<Rightarrow> ret a)
       (get_list ''attachments'' payload)"

definition restored_message :: "json \<Rightarrow> bool \<Rightarrow> (media_message, 's) act" where
  "restored_message payload is_outgoing =
     need_int ''max_message_id'' payload (\<lambda>message. need_int ''max_chat_id'' payload (\<lambda>chat.
       andthen (restored_attachments payload) (\<lambda>as.
         ret \<lparr>mg_message_id = message, mg_chat_id = chat, mg_is_outgoing = is_outgoing, mg_attachments = as\<rparr>)))"

text \<open>\<open>caption_entities\<close>: null is None.\<close>

definition ranges_of :: "string \<Rightarrow> json \<Rightarrow> json option" where
  "ranges_of k payload = (case jget k payload of None \<Rightarrow> None | Some JNull \<Rightarrow> None | Some v \<Rightarrow> Some v)"

definition headed :: "string \<Rightarrow> delivery_receipt \<Rightarrow> (int, 's) act" where
  "headed why r = (case dr_head r of None \<Rightarrow> throw (UnconfirmedDeliveryError why) | Some i \<Rightarrow> ret i)"

definition send_bot_text :: "int \<Rightarrow> 'm job_ports \<Rightarrow> (unit, 'm) job \<Rightarrow> json \<Rightarrow> (int option, 'm) job" where
  "send_bot_text now po sending payload =
     andthen sending (\<lambda>_. need_int ''bot_id'' payload (\<lambda>bid. need_int ''chat_id'' payload (\<lambda>chat.
       need_str ''text'' payload (\<lambda>t. andthen
         (on_remote (jp_bot_text po bid chat t (get_int ''reply_to'' payload) (get_json ''entities'' payload)))
         (\<lambda>sent. case sent of
            None \<Rightarrow> throw (UnconfirmedDeliveryError ''Telegram returned no message id'')
          | Some i \<Rightarrow> andthen (settle_telegram_mapping now payload i None) (\<lambda>i. ret (Some i)))))))"

definition send_bot_media :: "int \<Rightarrow> 'm job_ports \<Rightarrow> (unit, 'm) job \<Rightarrow> json \<Rightarrow> (int option, 'm) job" where
  "send_bot_media now po sending payload =
     andthen (restored_message payload (got_bool ''is_outgoing'' payload)) (\<lambda>m.
       need_int ''bot_id'' payload (\<lambda>bid. need_int ''chat_id'' payload (\<lambda>chat. andthen
         (deliver_receipt (lift_ports (jp_media po)) (lift_sender (jp_bot_media po bid chat)) (Some sending) m
            (some_text (got_str ''caption'' payload)) (ranges_of ''caption_entities'' payload) (get_int ''reply_to'' payload))
         (\<lambda>receipt. andthen (headed ''Telegram returned no message id for the attachments'' receipt) (\<lambda>i.
            andthen (settle_telegram_mapping now payload i (Some receipt)) (\<lambda>i. ret (Some i)))))))"

text \<open>\<open>place_owner_message\<close>.\<close>

definition seed_placed_baseline :: "int \<Rightarrow> 'm job_ports \<Rightarrow> json \<Rightarrow> int \<Rightarrow> string \<Rightarrow> (unit, 'm) job" where
  "seed_placed_baseline now po payload message t =
     (case (get_int ''owner_account_id'' payload, get_int ''bot_id'' payload, jp_placement_fp po t (get_json ''entities'' payload)) of
        (Some acct, Some bid, Some fp) \<Rightarrow>
          if jp_seeds po then writes (\<lambda>w. w\<lparr>jw_states := snd (seed now (acct, bid, message) fp [] (jw_states w))\<rparr>) else ret ()
      | _ \<Rightarrow> ret ())"

definition note_placed :: "int \<Rightarrow> json \<Rightarrow> string \<Rightarrow> (unit, 'm) job" where
  "note_placed now payload t =
     need_int ''bot_id'' payload (\<lambda>bid. need_int ''max_chat_id'' payload (\<lambda>chat. need_int ''max_message_id'' payload (\<lambda>message.
       writes (\<lambda>w. w\<lparr>jw_echoes := note_echo now bid t
         (Some \<lparr>pd_max_chat_id = chat, pd_max_message_id = message\<rparr>) (jw_echoes w)\<rparr>))))"

definition place_owner_message :: "int \<Rightarrow> 'm job_ports \<Rightarrow> (unit, 'm) job \<Rightarrow> json \<Rightarrow> (int, 'm) job" where
  "place_owner_message now po sending payload =
     need_int ''peer_id'' payload (\<lambda>peer.
       if got_bool ''attachments'' payload then
         andthen (restored_message payload True) (\<lambda>m. need_int ''bot_id'' payload (\<lambda>bid. andthen
           (deliver_receipt (lift_ports (jp_media po)) (lift_sender (jp_owner_media po peer)) (Some sending) m
              (some_text (got_str ''caption'' payload)) (ranges_of ''caption_entities'' payload) None)
           (\<lambda>receipt. andthen (headed ''the owner's session returned no message id for the attachments'' receipt)
              (\<lambda>i. settle_owner_mapping now payload i (Some receipt)))))
       else
         andthen sending (\<lambda>_. need_str ''outgoing_text'' payload (\<lambda>t. andthen
           (on_remote (jp_owner_text po peer t (get_json ''entities'' payload)))
           (\<lambda>got. case got of
              None \<Rightarrow> throw (UnconfirmedDeliveryError ''the owner's session returned no message id'')
            | Some i \<Rightarrow> andthen (note_placed now payload t) (\<lambda>_.
                andthen (seed_placed_baseline now po payload i t) (\<lambda>_.
                  settle_owner_mapping now payload i None))))))"

subsection \<open>The sender\<close>

text \<open>The resolvers of \<open>Owner_Mutation\<close> and \<open>Max_Mutation\<close> over this state.\<close>

definition via_mutation :: "('m mutation_world \<Rightarrow> 'm resolved) \<Rightarrow> (int option, 'm) job" where
  "via_mutation f w =
     (let (r, v) = f \<lparr>mw_outbox = jw_outbox w, mw_links = jw_links w, mw_parts = Some (jw_parts w), mw_max = jw_remote w\<rparr>
      in (r, w\<lparr>jw_outbox := mw_outbox v, jw_links := mw_links v,
               jw_parts := (case mw_parts v of None \<Rightarrow> jw_parts w | Some mg \<Rightarrow> mg), jw_remote := mw_max v\<rparr>))"

definition via_max_mutation ::
  "'m job_ports \<Rightarrow> string \<Rightarrow> json \<Rightarrow> (int option, 'm) job" where
  "via_max_mutation po kind payload w =
     via_mutation (send_max_mutation (jp_telegram po) (jp_online po (jw_remote w)) kind payload) w"

definition via_reaction :: "'m job_ports \<Rightarrow> json \<Rightarrow> (int option, 'm) job" where
  "via_reaction po payload w =
     (case resolve_reaction (jp_max_client po) (jw_states w) payload (jw_reactions w, jw_remote w) of
        (r, rs, m) \<Rightarrow> (r, w\<lparr>jw_reactions := rs, jw_remote := m\<rparr>))"

fun as_echo_part :: "json \<Rightarrow> echo_part option" where
  "as_echo_part (JObj d) =
     (case (get_int ''owner_message_id'' (JObj d), get_int ''part_index'' (JObj d), get_str ''fingerprint'' (JObj d)) of
        (Some i, Some k, Some fp) \<Rightarrow> Some \<lparr>ep_owner_message_id = i, ep_part_index = k, ep_fingerprint = fp\<rparr>
      | _ \<Rightarrow> None)"
| "as_echo_part v = None"

definition bind_owner_echo :: "int \<Rightarrow> json \<Rightarrow> (int option, 'm) job" where
  "bind_owner_echo now payload =
     need_int ''bot_id'' payload (\<lambda>bid. need_int ''account_id'' payload (\<lambda>acct.
       if got_bool ''parts'' payload then
         need_str ''bridge_name'' payload (\<lambda>bridge. need_str ''namespace'' payload (\<lambda>ns.
           need_int ''first_seen_ms'' payload (\<lambda>seen w.
             let ps = map as_echo_part (get_list ''parts'' payload) in
             if None \<in> set ps then (Inl key_error, w)
             else (case resolve_album_echo now bid acct bridge ns seen (map the ps) (jw_parts w, jw_obs w) of
               (r, mg, st) \<Rightarrow> (r, w\<lparr>jw_parts := mg, jw_obs := st\<rparr>)))))
       else
         need_int ''owner_message_id'' payload (\<lambda>message. need_str ''fingerprint'' payload (\<lambda>fp.
           need_str ''bridge_name'' payload (\<lambda>bridge. need_int ''first_seen_ms'' payload (\<lambda>seen w.
             case resolve_echo now bid acct message fp bridge seen (jw_links w, jw_obs w) of
               (r, mm, st) \<Rightarrow> (r, w\<lparr>jw_links := mm, jw_obs := st\<rparr>)))))))"

definition send_job :: "int \<Rightarrow> 'm job_ports \<Rightarrow> (unit, 'm) job \<Rightarrow> string \<Rightarrow> json \<Rightarrow> (int option, 'm) job" where
  "send_job now po sending kind payload =
     (if kind = KIND_MAX_TO_TG_TEXT then send_bot_text now po sending payload
      else if kind = KIND_MAX_TO_TG_MEDIA then send_bot_media now po sending payload
      else if kind = KIND_MAX_TO_TG_OWNER then andthen (place_owner_message now po sending payload) (\<lambda>i. ret (Some i))
      else if kind = KIND_MAX_TO_TG_EDIT \<or> kind = KIND_MAX_TO_TG_DELETE then via_max_mutation po kind payload
      else if kind = KIND_TG_TO_MAX_TEXT then send_max_text now po sending payload
      else if kind = KIND_TG_TO_MAX_CONTACT then send_max_contact po sending payload
      else if kind = KIND_OWNER_ECHO_BIND then bind_owner_echo now payload
      else if kind = KIND_TG_ALBUM_SWEEP \<or> kind = KIND_TG_TO_MAX_EDIT \<or> kind = KIND_TG_TO_MAX_DELETE
      then via_mutation (send_mutation now (jp_max_client po) (jp_session po) kind payload)
      else if kind = KIND_TG_TO_MAX_REACTION then via_reaction po payload
      else if kind = KIND_TG_TO_MAX_MEDIA then send_max_media po sending payload
      else throw (PermanentDeliveryError (''unknown delivery kind '' @ kind)))"

text \<open>One inline attempt on a job: the hook of \<open>DeliveryPipe.attempt\<close>, the sender, and the settlement.\<close>

definition mark_hook :: "int \<Rightarrow> int \<Rightarrow> (unit, 'm) job" where
  "mark_hook now i = writes (\<lambda>w. w\<lparr>jw_outbox := mark_sending now i (jw_outbox w), jw_marked := True\<rparr>)"

definition attempt_job :: "int \<Rightarrow> 'm job_ports \<Rightarrow> outbox_item \<Rightarrow> 'm job_world \<Rightarrow> 'm job_world" where
  "attempt_job now po item w =
     (let (r, v) = send_job now po (mark_hook now (ob_id item)) (ob_kind item) (ob_payload item) (w\<lparr>jw_marked := False\<rparr>)
      in v\<lparr>jw_outbox := pipe_finish now item (jw_marked v) r (jw_outbox v)\<rparr>)"

end
