(* ===== verification/Router.thy ===== *)
theory Router
  imports Send_Job
begin

section \<open>The router: a message of MAX into Telegram\<close>

text \<open>
  \<open>routing/router.py\<close>, from a MAX message to the attempt on its job. The state is that of \<open>Send_Job\<close>, the cache
  of forwarded names and what the observer of the status line was told. The queue, the album aliases and the media
  transport are wired, as they are in the service; the observer and the names are optional, as there. A text that
  Python cannot encode raises where it is measured.
\<close>

subsection \<open>The message, the ports and the state\<close>

record max_forward = forward_info +
  fw_sender_id :: "int option"

record incoming =
  im_chat_id :: int
  im_message_id :: int
  im_is_outgoing :: bool
  im_text :: ucs
  im_timestamp :: int
  im_attachments :: "attachment list"
  im_forward :: "max_forward option"
  im_edited_at :: "int option"
  im_elements :: "element list"
  im_reply_to :: "int option"

definition shown :: "incoming \<Rightarrow> max_message" where
  "shown m =
     \<lparr>mm_text = im_text m, mm_timestamp = im_timestamp m, mm_is_outgoing = im_is_outgoing m,
      mm_attachments = map (\<lambda>a. asc (kind_value (ma_kind a))) (im_attachments m),
      mm_forward = map_option forward_info.truncate (im_forward m), mm_edited_at = im_edited_at m,
      mm_elements = im_elements m\<rparr>"

definition media_of :: "incoming \<Rightarrow> media_message" where
  "media_of m =
     \<lparr>mg_message_id = im_message_id m, mg_chat_id = im_chat_id m, mg_is_outgoing = im_is_outgoing m,
      mg_attachments = im_attachments m\<rparr>"

record bridge_target =
  bt_name :: string
  bt_max_chat_id :: int
  bt_bot_id :: int

type_synonym forward_name = "ucs option \<times> ucs option"

record 'm display_names =
  dn_forward_author :: "int \<Rightarrow> (forward_name, 'm) act"
  dn_contact_avatar :: "int \<Rightarrow> (ucs option, 'm) act"

record 'm router_ports =
  rt_job :: "'m job_ports"
  rt_for_max_chat :: "int \<Rightarrow> bridge_target option"
  rt_for_bot :: "int \<Rightarrow> bridge_target option"
  rt_owner_chat :: int
  rt_render :: render_context
  rt_sha :: "string \<Rightarrow> string"
  rt_mirrors :: "'m \<Rightarrow> bool"
  rt_own_voice :: "'m \<Rightarrow> bool"
  rt_own_media :: bool
  rt_names :: "'m display_names option"
  rt_unbridged :: "(incoming \<Rightarrow> (unit, 'm) act) option"
  rt_observed :: bool

datatype observation_note = Chat_activity string | Note_delivered string int int int

record 'm router_world =
  rw_job :: "'m job_world"
  rw_names :: "(int \<times> forward_name) list"
  rw_notes :: "observation_note list"

type_synonym ('a, 'm) routing = "('a, 'm router_world) act"

definition on_job :: "('a, 'm) job \<Rightarrow> ('a, 'm) routing" where
  "on_job c w = (let (r, j) = c (rw_job w) in (r, w\<lparr>rw_job := j\<rparr>))"

definition outside :: "('a, 'm) act \<Rightarrow> ('a, 'm) routing" where
  "outside c = on_job (on_remote c)"

definition noting :: "'m router_ports \<Rightarrow> observation_note \<Rightarrow> (unit, 'm) routing" where
  "noting rt x = (if rt_observed rt then writes (\<lambda>w. w\<lparr>rw_notes := rw_notes w @ [x]\<rparr>) else ret ())"

definition encoded :: "split_error + 'a \<Rightarrow> ('a, 's) act" where
  "encoded r = (case r of Inl e \<Rightarrow> throw (OtherError ''UnicodeEncodeError'' []) | Inr a \<Rightarrow> ret a)"

subsection \<open>Names\<close>

definition FORWARD_NAME_CACHE_LIMIT :: nat where "FORWARD_NAME_CACHE_LIMIT = 256"

definition cache_name :: "int \<Rightarrow> forward_name \<Rightarrow> (int \<times> forward_name) list \<Rightarrow> (int \<times> forward_name) list" where
  "cache_name user nm cache = (if length cache \<ge> FORWARD_NAME_CACHE_LIMIT then [] else cache) @ [(user, nm)]"

definition name_forward :: "'m router_ports \<Rightarrow> incoming \<Rightarrow> (incoming, 'm) routing" where
  "name_forward rt m =
     (case im_forward m of
        None \<Rightarrow> ret m
      | Some f \<Rightarrow>
          if some_text (fw_display_name f) \<noteq> [] \<or> some_text (fw_chat_name f) \<noteq> [] then ret m
          else (case (fw_sender_id f, rt_names rt) of
            (Some user, Some dn) \<Rightarrow> andthen (reads (\<lambda>w. map_of (rw_names w) user)) (\<lambda>cached. andthen
              (case cached of
                 Some nm \<Rightarrow> ret nm
               | None \<Rightarrow> andthen (catching (outside (dn_forward_author dn user)) (\<lambda>e. ret (None, None))) (\<lambda>nm.
                   andthen (writes (\<lambda>w. w\<lparr>rw_names := cache_name user nm (rw_names w)\<rparr>)) (\<lambda>_. ret nm)))
              (\<lambda>(nm, link).
                 if some_text nm = [] \<and> some_text link = [] then ret m
                 else ret (m\<lparr>im_forward := Some (f\<lparr>fw_display_name := nm, fw_profile_link := link\<rparr>)\<rparr>)))
          | _ \<Rightarrow> ret m))"

definition with_avatar :: "'m display_names \<Rightarrow> attachment \<Rightarrow> (attachment, 'm) routing" where
  "with_avatar dn a =
     (case (ma_kind a, ma_contact_user_id a) of
        (A_CONTACT, Some user) \<Rightarrow>
          andthen (catching (outside (dn_contact_avatar dn user)) (\<lambda>e. ret None)) (\<lambda>avatar.
            if some_text avatar \<noteq> [] then ret (a\<lparr>ma_contact_photo_url := avatar\<rparr>) else ret a)
      | _ \<Rightarrow> ret a)"

definition enrich_contact_avatar :: "'m router_ports \<Rightarrow> incoming \<Rightarrow> (incoming, 'm) routing" where
  "enrich_contact_avatar rt m =
     (case rt_names rt of
        None \<Rightarrow> ret m
      | Some dn \<Rightarrow> andthen (each (with_avatar dn) (im_attachments m)) (\<lambda>as. ret (m\<lparr>im_attachments := as\<rparr>)))"

subsection \<open>The job of a message\<close>

definition echo_fingerprint :: "'m router_ports \<Rightarrow> incoming \<Rightarrow> string option" where
  "echo_fingerprint rt m =
     (case im_attachments m of
        [] \<Rightarrow> (let t = render (rt_render rt) (shown m) True
              in if t = [] then None else Some (text_echo_fingerprint (rt_sha rt) (utf8 t)))
      | [a] \<Rightarrow> (case echo_kind_of (kind_value (ma_kind a)) of
                 None \<Rightarrow> None
               | Some kind \<Rightarrow> media_echo_fingerprint (rt_sha rt) kind (utf8 (caption_of (rt_render rt) (shown m) True)))
      | _ \<Rightarrow> None)"

definition telegram_reply_target :: "incoming \<Rightarrow> bridge_target \<Rightarrow> (int option, 'm) routing" where
  "telegram_reply_target m t =
     (case im_reply_to m of
        None \<Rightarrow> ret None
      | Some replied \<Rightarrow> reads (\<lambda>w. case by_max_message (im_chat_id m) replied (bt_bot_id t) (jw_links (rw_job w)) of
          None \<Rightarrow> None | Some link \<Rightarrow> ml_telegram_message_id link))"

text \<open>The rows of an album that is about to exist.\<close>

fun expect_parts :: "(string \<Rightarrow> string) \<Rightarrow> int \<Rightarrow> bridge_target \<Rightarrow> int \<Rightarrow> ucs option \<Rightarrow> int \<Rightarrow> attachment list \<Rightarrow> media_groups \<Rightarrow> media_groups" where
  "expect_parts sha now t link cap k [] mg = mg"
| "expect_parts sha now t link cap k (a # as) mg =
     (let c = (if k = 0 then cap else None); kind = echo_kind_of (kind_value (ma_kind a))
      in expect_parts sha now t link cap (k + 1) as
           (snd (add_part now (expected_album_namespace link) (bt_name t) (bt_bot_id t) None
              (JObj [(''kind'', JStr (kind_value (ma_kind a)))]) (Some link) (Some MAX_TO_TG) (Some k) kind
              (Some (c \<noteq> None)) (Some (album_part_fingerprint sha kind k (map_option utf8 c))) None None mg)))"

definition expect_album :: "int \<Rightarrow> 'm router_ports \<Rightarrow> bridge_target \<Rightarrow> int \<Rightarrow> incoming \<Rightarrow> ucs \<Rightarrow> (unit, 'm) routing" where
  "expect_album now rt t link m caption =
     on_job (writes (\<lambda>w. w\<lparr>jw_parts := expect_parts (rt_sha rt) now t link (fst (split_caption caption)) 0
       (album_attachments (media_of m)) (jw_parts w)\<rparr>))"

definition entry :: "string \<Rightarrow> pyval \<Rightarrow> pykey \<times> pyval" where
  "entry k v = (KStr k, v)"

definition media_payload :: "'m router_ports \<Rightarrow> bridge_target \<Rightarrow> int \<Rightarrow> incoming \<Rightarrow> ucs \<Rightarrow> entity list \<Rightarrow> int option \<Rightarrow> pyval" where
  "media_payload rt t link m caption es reply =
     PyDict [entry ''max_chat_id'' (PyInt (im_chat_id m)), entry ''max_message_id'' (PyInt (im_message_id m)),
       entry ''bot_id'' (PyInt (bt_bot_id t)), entry ''chat_id'' (PyInt (rt_owner_chat rt)), entry ''link_id'' (PyInt link),
       entry ''caption'' (PyStr (utf8 caption)), entry ''caption_entities'' (loads (entities_json es)),
       entry ''reply_to'' (opt_int reply), entry ''text'' (PyStr (utf8 (im_text m))),
       entry ''timestamp'' (PyInt (im_timestamp m)), entry ''is_outgoing'' (PyBool (im_is_outgoing m)),
       entry ''reply_to_message_id'' (opt_int (im_reply_to m)),
       entry ''attachments'' (PyList (map attachment_to_payload (im_attachments m)))]"

definition text_payload :: "'m router_ports \<Rightarrow> bridge_target \<Rightarrow> int \<Rightarrow> ucs \<Rightarrow> entity list \<Rightarrow> int option \<Rightarrow> pyval" where
  "text_payload rt t link body es reply =
     PyDict [entry ''bot_id'' (PyInt (bt_bot_id t)), entry ''chat_id'' (PyInt (rt_owner_chat rt)),
       entry ''text'' (PyStr (utf8 body)), entry ''entities'' (loads (entities_json es)),
       entry ''reply_to'' (opt_int reply), entry ''link_id'' (PyInt link)]"

text \<open>\<open>DeliveryPipe\<close> over this state: a submission, and the attempt that follows one that is ours. The payload an
  attempt is given is the one its job holds; \<open>pipe_attempt\<close> settles the answer, its own mark being the one the
  hook has written.\<close>

definition submitting :: "(outbox \<Rightarrow> ((int \<times> bool) \<times> outbox) option) \<Rightarrow> ((int \<times> bool) option, 'm) routing" where
  "submitting f = on_job (\<lambda>w. case f (jw_outbox w) of
     None \<Rightarrow> (Inr None, w) | Some (r, ob) \<Rightarrow> (Inr (Some r), w\<lparr>jw_outbox := ob\<rparr>))"

definition attempting ::
  "int \<Rightarrow> 'm router_ports \<Rightarrow> int \<Rightarrow> direction \<Rightarrow> string \<Rightarrow> pyval \<Rightarrow> (settled_result, 'm) routing" where
  "attempting now rt i d kind payload = on_job (\<lambda>w.
     let j = the (storable payload);
         (r, v) = send_job now (rt_job rt) (mark_hook now i) kind j (w\<lparr>jw_marked := False\<rparr>);
         (s, ob) = pipe_attempt now (\<lambda>_ _ _. (jw_marked v, r)) i d kind j (jw_outbox v)
     in (s, v\<lparr>jw_outbox := ob\<rparr>))"

definition unstorable_error :: failure where
  "unstorable_error = OtherError ''UnstorablePayloadError'' []"

definition id_reference :: "incoming \<Rightarrow> (string \<times> int) list \<Rightarrow> (string \<times> json) list" where
  "id_reference m ids =
     [(''max_chat_id'', JInt (im_chat_id m)), (''max_message_id'', JInt (im_message_id m))] @ map (\<lambda>(k, i). (k, JInt i)) ids"

definition message_key :: "incoming \<Rightarrow> string" where
  "message_key m = max_source_key (im_chat_id m) (im_message_id m)"

definition account_nothing_to_deliver :: "int \<Rightarrow> bridge_target \<Rightarrow> incoming \<Rightarrow> (unit, 'm) routing" where
  "account_nothing_to_deliver now t m =
     on_job (writes (\<lambda>w. w\<lparr>jw_outbox := snd (submit_noop now (bt_name t) MAX_TO_TG KIND_MAX_TO_TG_TEXT (message_key m)
       ''the MAX message renders to no text and carries nothing to send''
       (id_reference m [(''bot_id'', bt_bot_id t)]) (jw_outbox w))\<rparr>))"

definition account_unstorable :: "int \<Rightarrow> bridge_target \<Rightarrow> string \<Rightarrow> incoming \<Rightarrow> (string \<times> int) list \<Rightarrow> (unit, 'm) routing" where
  "account_unstorable now t kind m ids =
     on_job (writes (\<lambda>w. w\<lparr>jw_outbox := snd (submit_unstorable now (bt_name t) MAX_TO_TG kind (message_key m)
       [] (id_reference m ids) (jw_outbox w))\<rparr>))"

definition send_media_durably ::
  "int \<Rightarrow> 'm router_ports \<Rightarrow> bridge_target \<Rightarrow> int \<Rightarrow> incoming \<Rightarrow> ucs \<Rightarrow> entity list \<Rightarrow> int option \<Rightarrow> (int option, 'm) routing" where
  "send_media_durably now rt t link m caption es reply =
     (let payload = media_payload rt t link m caption es reply
      in andthen (expect_album now rt t link m caption) (\<lambda>_. andthen
           (submitting (submit_in_order now (bt_name t) MAX_TO_TG KIND_MAX_TO_TG_MEDIA payload (message_key m)))
           (\<lambda>job. case job of
              None \<Rightarrow> andthen (account_unstorable now t KIND_MAX_TO_TG_MEDIA m [(''bot_id'', bt_bot_id t), (''link_id'', link)])
                         (\<lambda>_. ret None)
            | Some (i, ours) \<Rightarrow>
                if \<not> ours then ret None
                else andthen (attempting now rt i MAX_TO_TG KIND_MAX_TO_TG_MEDIA payload) (\<lambda>s. ret (sr_remote_message_id s)))))"

definition send_text_durably ::
  "int \<Rightarrow> 'm router_ports \<Rightarrow> bridge_target \<Rightarrow> int \<Rightarrow> incoming \<Rightarrow> ucs \<Rightarrow> entity list \<Rightarrow> int option \<Rightarrow> (int option, 'm) routing" where
  "send_text_durably now rt t link m body es reply =
     (let payload = text_payload rt t link body es reply
      in andthen (submitting (submit_in_order now (bt_name t) MAX_TO_TG KIND_MAX_TO_TG_TEXT payload (message_key m)))
           (\<lambda>job. case job of
              None \<Rightarrow> throw unstorable_error
            | Some (i, ours) \<Rightarrow>
                if \<not> ours then ret None
                else andthen (attempting now rt i MAX_TO_TG KIND_MAX_TO_TG_TEXT payload) (\<lambda>s. ret (sr_remote_message_id s))))"

subsection \<open>The owner's own message, placed as theirs\<close>

definition owner_payload_head :: "'m router_ports \<Rightarrow> bridge_target \<Rightarrow> int \<Rightarrow> incoming \<Rightarrow> (pykey \<times> pyval) list" where
  "owner_payload_head rt t link m =
     [entry ''max_chat_id'' (PyInt (im_chat_id m)), entry ''max_message_id'' (PyInt (im_message_id m)),
      entry ''bot_id'' (PyInt (bt_bot_id t)), entry ''peer_id'' (PyInt (bt_bot_id t)), entry ''link_id'' (PyInt link),
      entry ''owner_account_id'' (PyInt (rt_owner_chat rt)), entry ''timestamp'' (PyInt (im_timestamp m)),
      entry ''is_outgoing'' (PyBool True), entry ''reply_to_message_id'' (opt_int (im_reply_to m))]"

definition submit_owner_delivery ::
  "int \<Rightarrow> 'm router_ports \<Rightarrow> bridge_target \<Rightarrow> int \<Rightarrow> incoming \<Rightarrow> pyval \<Rightarrow> (bool, 'm) routing" where
  "submit_owner_delivery now rt t link m payload =
     andthen (submitting (submit_in_order now (bt_name t) MAX_TO_TG KIND_MAX_TO_TG_OWNER payload (message_key m)))
       (\<lambda>job. case job of
          None \<Rightarrow> andthen (account_unstorable now t KIND_MAX_TO_TG_OWNER m [(''link_id'', link)]) (\<lambda>_. ret True)
        | Some (i, ours) \<Rightarrow>
            if \<not> ours then ret True
            else andthen (attempting now rt i MAX_TO_TG KIND_MAX_TO_TG_OWNER payload) (\<lambda>s. ret True))"

definition goes_as_owner :: "'m router_ports \<Rightarrow> incoming \<Rightarrow> 'm \<Rightarrow> bool" where
  "goes_as_owner rt m world \<longleftrightarrow> im_is_outgoing m \<and> rt_own_voice rt world \<and> (im_attachments m \<noteq> [] \<longrightarrow> rt_own_media rt)"

definition deliver_as_owner :: "int \<Rightarrow> 'm router_ports \<Rightarrow> incoming \<Rightarrow> bridge_target \<Rightarrow> int \<Rightarrow> (bool, 'm) routing" where
  "deliver_as_owner now rt m t link =
     andthen (outside (reads (goes_as_owner rt m))) (\<lambda>able.
       if \<not> able then ret False
       else andthen (encoded (edit_entities (prefix_as_owner (rt_render rt) (shown m)) (shown m))) (\<lambda>es.
         let head = owner_payload_head rt t link m in
         if im_attachments m \<noteq> [] then
           (let cap = caption_as_owner (rt_render rt) (shown m) True in
            andthen (encoded (mark_entities (rt_render rt) (shown m) cap)) (\<lambda>mark. andthen
              (expect_album now rt t link m cap) (\<lambda>_.
              submit_owner_delivery now rt t link m (PyDict (head @
                [entry ''text'' (PyStr (utf8 (im_text m))), entry ''caption'' (PyStr (utf8 cap)),
                 entry ''caption_entities'' (loads (entities_json (es @ mark))),
                 entry ''attachments'' (PyList (map attachment_to_payload (im_attachments m)))])))))
         else
           (let body = render_as_owner (rt_render rt) (shown m) True in
            if body = [] then ret False
            else andthen (encoded (mark_entities (rt_render rt) (shown m) body)) (\<lambda>mark.
              submit_owner_delivery now rt t link m (PyDict (head @
                [entry ''outgoing_text'' (PyStr (utf8 body)), entry ''entities'' (loads (entities_json (es @ mark)))]))))))"

subsection \<open>on_max_message\<close>

definition claim_message :: "int \<Rightarrow> 'm router_ports \<Rightarrow> bridge_target \<Rightarrow> incoming \<Rightarrow> (int option, 'm) routing" where
  "claim_message now rt t m = on_job (\<lambda>w.
     let (link, mm) = claim_from_max now (bt_name t) (im_chat_id m) (im_message_id m) (bt_bot_id t) (rt_owner_chat rt)
           (echo_fingerprint rt m) (jw_links w)
     in (Inr link, w\<lparr>jw_links := mm\<rparr>))"

definition attach_sent :: "int \<Rightarrow> 'm router_ports \<Rightarrow> bridge_target \<Rightarrow> int \<Rightarrow> int \<Rightarrow> (unit, 'm) routing" where
  "attach_sent now rt t link sent =
     andthen (on_job (\<lambda>w. case attach_telegram_message link sent (jw_links w) of
                Inl e \<Rightarrow> (Inl (db_failure e), w) | Inr mm \<Rightarrow> (Inr (), w\<lparr>jw_links := mm\<rparr>))) (\<lambda>_.
     andthen (noting rt (Chat_activity (bt_name t))) (\<lambda>_.
     on_job (writes (\<lambda>w. w\<lparr>jw_obs := note_delivery now (bt_name t) (jw_obs w)\<rparr>))))"

text \<open>The claimed message, from the claim on.\<close>

definition deliver_claimed :: "int \<Rightarrow> 'm router_ports \<Rightarrow> bridge_target \<Rightarrow> int \<Rightarrow> incoming \<Rightarrow> (unit, 'm) routing" where
  "deliver_claimed now rt t link m =
     (let rc = rt_render rt; sm = shown m in
      andthen (encoded (edit_entities (prefix_of rc sm) sm)) (\<lambda>es.
      andthen (telegram_reply_target m t) (\<lambda>reply.
      andthen (deliver_as_owner now rt m t link) (\<lambda>own.
        if own then noting rt (Chat_activity (bt_name t))
        else andthen
          (if im_attachments m \<noteq> [] then
             andthen (encoded (mark_entities rc sm (caption_of rc sm True))) (\<lambda>mark.
               send_media_durably now rt t link m (caption_of rc sm True) (es @ mark) reply)
           else if render rc sm True = [] then andthen (account_nothing_to_deliver now t m) (\<lambda>_. ret None)
           else andthen (encoded (mark_entities rc sm (render rc sm True))) (\<lambda>mark.
               send_text_durably now rt t link m (render rc sm True) (es @ mark) reply))
          (\<lambda>sent. case sent of None \<Rightarrow> ret () | Some i \<Rightarrow> attach_sent now rt t link i)))))"

definition on_max_message :: "int \<Rightarrow> 'm router_ports \<Rightarrow> incoming \<Rightarrow> (unit, 'm) routing" where
  "on_max_message now rt m =
     (case rt_for_max_chat rt (im_chat_id m) of
        None \<Rightarrow> (case rt_unbridged rt of
                   Some provision \<Rightarrow> if im_is_outgoing m then ret () else outside (provision m)
                 | None \<Rightarrow> ret ())
      | Some t \<Rightarrow>
          andthen (reads (\<lambda>w. is_echo_of_our_own (im_chat_id m) (im_message_id m) (jw_links (rw_job w)))) (\<lambda>echo.
          if echo then ret ()
          else andthen (outside (reads (rt_mirrors rt))) (\<lambda>mirrors.
          if im_is_outgoing m \<and> \<not> mirrors then ret ()
          else andthen (name_forward rt m) (\<lambda>m1.
               andthen (enrich_contact_avatar rt m1) (\<lambda>m2.
               andthen (claim_message now rt t m2) (\<lambda>link.
                 case link of None \<Rightarrow> ret () | Some l \<Rightarrow> deliver_claimed now rt t l m2))))))"

text \<open>\<open>note_own_placement\<close>: the bot's own id of a line placed as the owner.\<close>

definition note_own_placement :: "int \<Rightarrow> int \<Rightarrow> placed \<Rightarrow> (unit, 'm) routing" where
  "note_own_placement bid tg p = on_job (\<lambda>w.
     case by_max_message (pd_max_chat_id p) (pd_max_message_id p) bid (jw_links w) of
       None \<Rightarrow> (Inr (), w)
     | Some link \<Rightarrow>
         if ml_telegram_message_id link \<noteq> None then (Inr (), w)
         else (case attach_telegram_message (ml_id link) tg (jw_links w) of
             Inl e \<Rightarrow> (Inl (db_failure e), w) | Inr mm \<Rightarrow> (Inr (), w\<lparr>jw_links := mm\<rparr>)))"

end
