(* ===== verification/Router_Intake.thy ===== *)
theory Router_Intake
  imports Router
begin

section \<open>The router: a message of the owner into MAX\<close>

text \<open>
  The other half of \<open>routing/router.py\<close>: what the owner typed, shared or uploaded in Telegram, their reactions said
  in words, and the echoes of the bridge's own messages seen by the owner's session. An owner account marks an intake
  over the owner's session, whose message ids are the owner's.
\<close>

subsection \<open>The mapping and the reply\<close>

definition record_intake ::
  "int \<Rightarrow> 'm router_ports \<Rightarrow> bridge_target \<Rightarrow> int \<Rightarrow> int \<Rightarrow> int \<Rightarrow> int option \<Rightarrow> (int, 'm) routing" where
  "record_intake now rt t bid tg_chat message acct = on_job (\<lambda>w.
     case (case acct of
             Some a \<Rightarrow> record_from_telegram now (bt_name t) (bt_max_chat_id t) bid (rt_owner_chat rt) None None (Some message) (Some a) (jw_links w)
           | None \<Rightarrow> record_from_telegram now (bt_name t) (bt_max_chat_id t) bid tg_chat (Some message) None None None (jw_links w)) of
       Inl e \<Rightarrow> (Inl (db_failure e), w)
     | Inr (link, mm) \<Rightarrow> (Inr link, w\<lparr>jw_links := mm\<rparr>))"

definition max_message_of_part :: "media_part option \<Rightarrow> message_map \<Rightarrow> int option" where
  "max_message_of_part part mm =
     (case part of
        None \<Rightarrow> None
      | Some p \<Rightarrow> (case mp_link_id p of
          None \<Rightarrow> None
        | Some link \<Rightarrow> (case link_by_id link mm of None \<Rightarrow> None | Some r \<Rightarrow> ml_max_message_id r)))"

definition max_reply_target :: "int \<Rightarrow> int option \<Rightarrow> int option \<Rightarrow> 'm job_world \<Rightarrow> int option" where
  "max_reply_target bid message acct w =
     (case message of
        None \<Rightarrow> None
      | Some tg \<Rightarrow>
          (case acct of
             Some a \<Rightarrow> (case by_owner_account_message a tg (jw_links w) of
                 Some link \<Rightarrow> ml_max_message_id link
               | None \<Rightarrow> max_message_of_part (part_by_owner_message a tg (jw_parts w)) (jw_links w))
           | None \<Rightarrow> (case by_telegram_message bid tg (jw_links w) of
                 Some link \<Rightarrow> ml_max_message_id link
               | None \<Rightarrow> max_message_of_part (part_by_bot_message bid tg (jw_parts w)) (jw_links w))))"

subsection \<open>One job into MAX\<close>

definition deliver_to_max ::
  "int \<Rightarrow> 'm router_ports \<Rightarrow> bridge_target \<Rightarrow> string \<Rightarrow> pyval \<Rightarrow> string \<Rightarrow> bool \<Rightarrow> (int option, 'm) routing" where
  "deliver_to_max now rt t kind payload key same_kind_order =
     andthen (submitting ((if same_kind_order then submit_in_kind_order else submit) now (bt_name t) TG_TO_MAX kind payload key))
       (\<lambda>job. case job of
          None \<Rightarrow> throw unstorable_error
        | Some (i, ours) \<Rightarrow>
            if \<not> ours then ret None
            else andthen (attempting now rt i TG_TO_MAX kind payload) (\<lambda>s.
              case sr_exception s of Some e \<Rightarrow> throw e | None \<Rightarrow> ret (sr_remote_message_id s)))"

text \<open>What the owner is told (\<open>max_errors.py\<close>), as code points.\<close>

fun note_words :: "owner_note \<Rightarrow> ucs" where
  "note_words SERVICE_ACCOUNT =
     [1042, 32, 1101, 1090, 1086, 1090, 32, 1076, 1080, 1072, 1083, 1086, 1075, 32, 77, 65, 88, 32, 1087,
     1080, 1089, 1072, 1090, 1100, 32, 1085, 1077, 1083, 1100, 1079, 1103, 32, 8212, 32, 1101, 1090,
     1086, 32, 1089, 1083, 1091, 1078, 1077, 1073, 1085, 1099, 1081, 32, 1072, 1082, 1082, 1072, 1091,
     1085, 1090, 46]"
| "note_words NOT_PERMITTED =
     [77, 65, 88, 32, 1085, 1077, 32, 1088, 1072, 1079, 1088, 1077, 1096, 1072, 1077, 1090, 32, 1087,
     1080, 1089, 1072, 1090, 1100, 32, 1074, 32, 1101, 1090, 1086, 1090, 32, 1076, 1080, 1072, 1083,
     1086, 1075, 46]"
| "note_words CONTACT_CLOSED =
     [1050, 1086, 1085, 1090, 1072, 1082, 1090, 32, 1079, 1072, 1082, 1088, 1099, 1083, 32, 1087, 1077,
     1088, 1077, 1087, 1080, 1089, 1082, 1091, 32, 1074, 32, 77, 65, 88, 46]"
| "note_words NO_ACCESS =
     [1053, 1077, 1090, 32, 1076, 1086, 1089, 1090, 1091, 1087, 1072, 32, 1082, 32, 1101, 1090, 1086,
     1084, 1091, 32, 1076, 1080, 1072, 1083, 1086, 1075, 1091, 32, 1074, 32, 77, 65, 88, 46]"
| "note_words GENERIC_PERMANENT_MESSAGE =
     [77, 65, 88, 32, 1086, 1090, 1082, 1072, 1079, 1072, 1083, 1089, 1103, 32, 1087, 1088, 1080, 1085,
     1103, 1090, 1100, 32, 1101, 1090, 1086, 32, 1089, 1086, 1086, 1073, 1097, 1077, 1085, 1080, 1077, 46]"
| "note_words RETRYABLE_MESSAGE =
     [77, 65, 88, 32, 1085, 1077, 32, 1087, 1088, 1080, 1085, 1103, 1083, 32, 1089, 1086, 1086, 1073,
     1097, 1077, 1085, 1080, 1077, 46, 32, 1055, 1086, 1087, 1088, 1086, 1073, 1091, 1102, 32, 1077,
     1097, 1105, 32, 1088, 1072, 1079, 46]"

text \<open>\<open>_say\<close> never raises.\<close>

definition say :: "'m router_ports \<Rightarrow> int \<Rightarrow> int \<Rightarrow> int option \<Rightarrow> string \<Rightarrow> (unit, 'm) routing" where
  "say rt bid chat reply t =
     catching (andthen (outside (jp_bot_text (rt_job rt) bid chat t reply JNull)) (\<lambda>_. ret ())) (\<lambda>e. ret ())"

definition delivered_to_max :: "int \<Rightarrow> 'm router_ports \<Rightarrow> bridge_target \<Rightarrow> int \<Rightarrow> int \<Rightarrow> (unit, 'm) routing" where
  "delivered_to_max now rt t bid chat =
     andthen (on_job (writes (\<lambda>w. w\<lparr>jw_obs := note_delivery now (bt_name t) (jw_obs w)\<rparr>)))
       (\<lambda>_. noting rt (Note_delivered (bt_name t) bid chat now))"

definition erred :: "int \<Rightarrow> bridge_target \<Rightarrow> failure \<Rightarrow> (unit, 'm) routing" where
  "erred now t e = on_job (writes (\<lambda>w. w\<lparr>jw_obs := note_error now (bt_name t) (error_text e) (jw_obs w)\<rparr>))"

text \<open>The \<open>try\<close> of a text and of a contact: an error is noted, a permanent refusal is answered in words, and
  any other goes on to the intake. \<open>None\<close> from the body is a message that is not confirmed.\<close>

definition with_refusals ::
  "int \<Rightarrow> 'm router_ports \<Rightarrow> bridge_target \<Rightarrow> int \<Rightarrow> int \<Rightarrow> int \<Rightarrow> (int option, 'm) routing \<Rightarrow> (unit, 'm) routing" where
  "with_refusals now rt t bid chat message body =
     andthen
       (catching body (\<lambda>e. andthen (erred now t e) (\<lambda>_.
          if \<not> rf_permanent (classify_refusal e) then throw e
          else andthen (say rt bid chat (Some message) (utf8 (note_words (rf_message (classify_refusal e))))) (\<lambda>_. ret None))))
       (\<lambda>sent. case sent of None \<Rightarrow> ret () | Some i \<Rightarrow> delivered_to_max now rt t bid chat)"

subsection \<open>A text\<close>

definition part_of_text :: "bridge_target \<Rightarrow> int \<Rightarrow> int option \<Rightarrow> nat \<Rightarrow> ucs \<Rightarrow> pyval" where
  "part_of_text t link reply k chunk =
     PyDict ([entry ''max_chat_id'' (PyInt (bt_max_chat_id t)), entry ''text'' (PyStr (utf8 chunk)),
              entry ''reply_to'' (if k = 0 then opt_int reply else PyNone)]
             @ (if k = 0 then [entry ''link_id'' (PyInt link)] else []))"

definition text_parts :: "bridge_target \<Rightarrow> int \<Rightarrow> int option \<Rightarrow> string \<Rightarrow> ucs list \<Rightarrow> (pyval \<times> string) list" where
  "text_parts t link reply key chunks =
     map (\<lambda>(k, c). (part_of_text t link reply k c, text_part_source_key key (int k) (int (length chunks))))
       (zip [0..<length chunks] chunks)"

text \<open>The parts in turn; the first that is not confirmed leaves the rest to the queue.\<close>

fun send_parts :: "int \<Rightarrow> 'm router_ports \<Rightarrow> bridge_target \<Rightarrow> int option \<Rightarrow> (pyval \<times> string) list \<Rightarrow> (int option, 'm) routing" where
  "send_parts now rt t sent [] = ret sent"
| "send_parts now rt t sent ((payload, key) # ps) =
     andthen (deliver_to_max now rt t KIND_TG_TO_MAX_TEXT payload key True) (\<lambda>got.
       case got of None \<Rightarrow> ret None | Some i \<Rightarrow> send_parts now rt t (Some i) ps)"

definition enqueue_parts :: "int \<Rightarrow> bridge_target \<Rightarrow> (pyval \<times> string) list \<Rightarrow> (unit, 'm) routing" where
  "enqueue_parts now t ps =
     (if length ps > 1 then
        on_job (\<lambda>w. case enqueue_batch_in_order now (bt_name t) TG_TO_MAX
                       (map (\<lambda>(p, k). (KIND_TG_TO_MAX_TEXT, p, k)) ps) (jw_outbox w) of
          None \<Rightarrow> (Inl unstorable_error, w)
        | Some (is, ob) \<Rightarrow> (Inr (), w\<lparr>jw_outbox := ob\<rparr>))
      else ret ())"

definition on_telegram_text ::
  "int \<Rightarrow> 'm router_ports \<Rightarrow> int \<Rightarrow> int \<Rightarrow> int \<Rightarrow> ucs \<Rightarrow> int option \<Rightarrow> int option \<Rightarrow> (unit, 'm) routing" where
  "on_telegram_text now rt bid chat message body reply_message acct =
     (case rt_for_bot rt bid of
        None \<Rightarrow> ret ()
      | Some t \<Rightarrow>
          andthen (on_job (reads (max_reply_target bid reply_message acct))) (\<lambda>reply.
          andthen (record_intake now rt t bid chat message acct) (\<lambda>link.
          andthen (encoded (split_max_text MAX_TEXT_UTF16_LIMIT body)) (\<lambda>chunks.
            let ps = text_parts t link reply (router_source_key bid message acct) chunks in
            andthen (enqueue_parts now t ps) (\<lambda>_.
            with_refusals now rt t bid chat message (send_parts now rt t None ps))))))"

subsection \<open>A contact\<close>

definition on_telegram_contact ::
  "int \<Rightarrow> 'm router_ports \<Rightarrow> int \<Rightarrow> int \<Rightarrow> int \<Rightarrow> string \<Rightarrow> int option \<Rightarrow> int option \<Rightarrow> int option \<Rightarrow> (unit, 'm) routing" where
  "on_telegram_contact now rt bid chat message vcard contact_user reply_message acct =
     (case rt_for_bot rt bid of
        None \<Rightarrow> ret ()
      | Some t \<Rightarrow>
          andthen (on_job (reads (max_reply_target bid reply_message acct))) (\<lambda>reply.
          andthen (record_intake now rt t bid chat message acct) (\<lambda>link.
            with_refusals now rt t bid chat message
              (deliver_to_max now rt t KIND_TG_TO_MAX_CONTACT
                 (PyDict [entry ''max_chat_id'' (PyInt (bt_max_chat_id t)), entry ''vcard'' (PyStr vcard),
                    entry ''contact_user_id'' (opt_int contact_user), entry ''reply_to'' (opt_int reply),
                    entry ''link_id'' (PyInt link)])
                 (router_source_key bid message acct) False))))"

subsection \<open>Media\<close>

record upload_refs =
  ur_items :: "upload list"
  ur_sources :: "upload list"
  ur_mtproto :: "json list"

definition upload_json :: "upload \<Rightarrow> pyval" where
  "upload_json u = (case u of (kind, path, nm) \<Rightarrow> PyList [PyStr kind, PyStr path, PyStr nm])"

definition album_mapping :: "string option \<Rightarrow> int option \<Rightarrow> int \<Rightarrow> 'm job_world \<Rightarrow> int option" where
  "album_mapping grp acct head w =
     (case grp of
        None \<Rightarrow> None
      | Some g \<Rightarrow>
          (case link_of g (jw_parts w) of
             Some link \<Rightarrow> Some link
           | None \<Rightarrow>
               (case acct of
                  None \<Rightarrow> None
                | Some a \<Rightarrow> map_option ml_id (by_owner_account_message a head (jw_links w)))))"

definition on_telegram_media ::
  "int \<Rightarrow> 'm router_ports \<Rightarrow> int \<Rightarrow> int \<Rightarrow> int \<Rightarrow> upload_refs \<Rightarrow> ucs \<Rightarrow> int option \<Rightarrow> int option \<Rightarrow> string option
   \<Rightarrow> string option \<Rightarrow> (int option, 'm) routing" where
  "on_telegram_media now rt bid chat message refs caption reply_message acct grp key =
     (case rt_for_bot rt bid of
        None \<Rightarrow> ret None
      | Some t \<Rightarrow>
          andthen (on_job (reads (max_reply_target bid reply_message acct))) (\<lambda>reply.
          andthen (on_job (reads (album_mapping grp acct message))) (\<lambda>existing.
          andthen (case existing of Some l \<Rightarrow> ret l | None \<Rightarrow> record_intake now rt t bid chat message acct) (\<lambda>link.
          andthen (case grp of
                     None \<Rightarrow> ret ()
                   | Some g \<Rightarrow> on_job (writes (\<lambda>w. w\<lparr>jw_parts := snd (bind_link now g link (jw_parts w))\<rparr>))) (\<lambda>_.
          andthen
            (catching
               (deliver_to_max now rt t KIND_TG_TO_MAX_MEDIA
                  (PyDict [entry ''max_chat_id'' (PyInt (bt_max_chat_id t)), entry ''bot_id'' (PyInt bid),
                     entry ''caption'' (PyStr (utf8 caption)), entry ''reply_to'' (opt_int reply),
                     entry ''link_id'' (PyInt link), entry ''items'' (PyList (map upload_json (ur_items refs))),
                     entry ''sources'' (PyList (map upload_json (ur_sources refs))),
                     entry ''mtproto'' (PyList (map loads (ur_mtproto refs)))])
                  (case key of None \<Rightarrow> router_source_key bid message acct
                             | Some k \<Rightarrow> if k = [] then router_source_key bid message acct else k) False)
               (\<lambda>e. andthen (erred now t e) (\<lambda>_. throw e)))
            (\<lambda>sent. case sent of
               None \<Rightarrow> ret (Some link)
             | Some i \<Rightarrow> andthen (delivered_to_max now rt t bid chat) (\<lambda>_. ret (Some link))))))))"

subsection \<open>Reactions and echoes\<close>

text \<open>\<open>_enqueue_mutation\<close>: the answer of the attempt is the queue's business.\<close>

definition enqueue_router_mutation ::
  "int \<Rightarrow> 'm router_ports \<Rightarrow> string \<Rightarrow> string \<Rightarrow> string \<Rightarrow> pyval \<Rightarrow> (unit, 'm) routing" where
  "enqueue_router_mutation now rt bridge kind key payload =
     andthen (submitting (submit now bridge TG_TO_MAX kind payload key))
       (\<lambda>job. case job of
          None \<Rightarrow> throw unstorable_error
        | Some (i, ours) \<Rightarrow>
            if \<not> ours then ret () else andthen (attempting now rt i TG_TO_MAX kind payload) (\<lambda>s. ret ()))"

definition carry_owner_reaction ::
  "int \<Rightarrow> 'm router_ports \<Rightarrow> int \<Rightarrow> int \<Rightarrow> int \<Rightarrow> int \<Rightarrow> int \<Rightarrow> string option \<Rightarrow> int \<Rightarrow> (unit, 'm) routing" where
  "carry_owner_reaction now rt bid max_chat max_message acct message emoji pts =
     (case rt_for_bot rt bid of
        None \<Rightarrow> ret ()
      | Some t \<Rightarrow> enqueue_router_mutation now rt (bt_name t) KIND_TG_TO_MAX_REACTION
          (owner_reaction_source_key acct bid message pts)
          (PyDict [entry ''max_chat_id'' (PyInt max_chat), entry ''max_message_id'' (PyInt max_message),
             entry ''account_id'' (PyInt acct), entry ''bot_id'' (PyInt bid), entry ''owner_message_id'' (PyInt message),
             entry ''emoji'' (case emoji of None \<Rightarrow> PyNone | Some e \<Rightarrow> PyStr e), entry ''pts'' (PyInt pts)]))"

definition carry_reaction_note :: "int \<Rightarrow> 'm router_ports \<Rightarrow> int \<Rightarrow> int \<Rightarrow> int \<Rightarrow> string \<Rightarrow> string \<Rightarrow> (unit, 'm) routing" where
  "carry_reaction_note now rt bid chat reply t key =
     (case rt_for_bot rt bid of
        None \<Rightarrow> ret ()
      | Some target \<Rightarrow>
          (let payload = PyDict [entry ''bot_id'' (PyInt bid), entry ''chat_id'' (PyInt chat), entry ''text'' (PyStr t),
                 entry ''reply_to'' (PyInt reply)]
           in andthen (submitting (submit_in_order now (bt_name target) MAX_TO_TG KIND_MAX_TO_TG_TEXT payload key))
             (\<lambda>job. case job of
                None \<Rightarrow> throw unstorable_error
              | Some (i, ours) \<Rightarrow>
                  if \<not> ours then ret ()
                  else andthen (attempting now rt i MAX_TO_TG KIND_MAX_TO_TG_TEXT payload) (\<lambda>s. ret ()))))"

definition carry_emoji_note :: "int \<Rightarrow> 'm router_ports \<Rightarrow> int \<Rightarrow> int \<Rightarrow> int \<Rightarrow> string \<Rightarrow> string \<Rightarrow> (unit, 'm) routing" where
  "carry_emoji_note now rt bid max_chat reply emoji key =
     (case rt_for_bot rt bid of
        None \<Rightarrow> ret ()
      | Some t \<Rightarrow>
          andthen (on_job (\<lambda>w. case record_from_telegram now (bt_name t) max_chat bid (rt_owner_chat rt) None None None None (jw_links w) of
                     Inl e \<Rightarrow> (Inl (db_failure e), w) | Inr (link, mm) \<Rightarrow> (Inr link, w\<lparr>jw_links := mm\<rparr>))) (\<lambda>link.
          andthen (deliver_to_max now rt t KIND_TG_TO_MAX_TEXT
                     (PyDict [entry ''max_chat_id'' (PyInt max_chat), entry ''text'' (PyStr emoji),
                        entry ''reply_to'' (PyInt reply), entry ''link_id'' (PyInt link)]) key False)
            (\<lambda>_. ret ())))"

definition on_contact_echo :: "int \<Rightarrow> 'm router_ports \<Rightarrow> int \<Rightarrow> int \<Rightarrow> int \<Rightarrow> string \<Rightarrow> (unit, 'm) routing" where
  "on_contact_echo now rt bid acct message fp =
     (case rt_for_bot rt bid of
        None \<Rightarrow> ret ()
      | Some t \<Rightarrow> enqueue_router_mutation now rt (bt_name t) KIND_OWNER_ECHO_BIND (echo_source_key acct message)
          (PyDict [entry ''bot_id'' (PyInt bid), entry ''bridge_name'' (PyStr (bt_name t)), entry ''account_id'' (PyInt acct),
             entry ''owner_message_id'' (PyInt message), entry ''fingerprint'' (PyStr fp), entry ''first_seen_ms'' (PyInt now)]))"

definition on_contact_album_echo ::
  "int \<Rightarrow> 'm router_ports \<Rightarrow> int \<Rightarrow> int \<Rightarrow> namespace \<Rightarrow> json list \<Rightarrow> (unit, 'm) routing" where
  "on_contact_album_echo now rt bid acct ns ps =
     (case rt_for_bot rt bid of
        None \<Rightarrow> ret ()
      | Some t \<Rightarrow>
          if ps = [] then ret ()
          else enqueue_router_mutation now rt (bt_name t) KIND_OWNER_ECHO_BIND (album_echo_source_key ns)
            (PyDict [entry ''bot_id'' (PyInt bid), entry ''bridge_name'' (PyStr (bt_name t)), entry ''account_id'' (PyInt acct),
               entry ''namespace'' (PyStr (ns_text ns)), entry ''parts'' (PyList (map loads ps)),
               entry ''first_seen_ms'' (PyInt now)]))"

end
