(* ===== verification/Send_Laws.thy ===== *)
theory Send_Laws
  imports Send_Job
begin

section \<open>What performing a job guarantees\<close>

text \<open>
  Once the other side has accepted a message, no failure that follows - a settlement the database refuses, an
  answer without an id, a payload that lacks a field - puts the job back on the queue; a delivered text is
  mapped; and an album that became fewer messages than were announced is a question.
\<close>

subsection \<open>Failures after the send\<close>

definition question :: "failure \<Rightarrow> bool" where
  "question e \<longleftrightarrow> (\<forall>kind. is_creating kind \<longrightarrow> st_verdict (settle kind e True) = V_AMBIGUOUS)"

lemma questions [simp]: "question (UnconfirmedDeliveryError t)" "question (OtherError n t)" "question (db_failure d)"
  by (auto simp: question_def settle_unknown_def stl_def) (cases d; simp add: settle_unknown_def stl_def)

text \<open>What a settlement leaves alone.\<close>

definition same_job :: "'m job_world \<Rightarrow> 'm job_world \<Rightarrow> bool" where
  "same_job w v \<longleftrightarrow> jw_outbox v = jw_outbox w \<and> jw_marked v = jw_marked w \<and> jw_remote v = jw_remote w"

definition settles_quietly :: "('a, 'm) job \<Rightarrow> bool" where
  "settles_quietly c \<longleftrightarrow> (\<forall>w r v. c w = (r, v) \<longrightarrow> same_job w v \<and> (\<forall>e. r = Inl e \<longrightarrow> question e))"

lemma quiet_andthen:
  assumes "settles_quietly c" "\<And>a. settles_quietly (f a)"
  shows "settles_quietly (andthen c f)"
proof -
  have "same_job w v \<and> (\<forall>e. r = Inl e \<longrightarrow> question e)" if "andthen c f w = (r, v)" for w r v
  proof (cases "c w")
    case (Pair x u)
    then show ?thesis
      using that assms by (cases x) (fastforce simp: andthen_def settles_quietly_def same_job_def)+
  qed
  then show ?thesis by (simp add: settles_quietly_def)
qed

lemma quiet_simple: "settles_quietly (ret a)" "question e \<Longrightarrow> settles_quietly (throw e)"
  by (simp_all add: settles_quietly_def same_job_def)

lemma quiet_settlements:
  "settles_quietly (settle_telegram_mapping now payload i r)"
  "settles_quietly (settle_owner_mapping now payload i r)"
  "settles_quietly (settle_max_mapping payload i)"
  "settles_quietly (note_placed now payload t)"
  "settles_quietly (seed_placed_baseline now po payload i t)"
proof -
  have album: "settles_quietly (album_settled x i)" for x i
    by (auto simp: settles_quietly_def album_settled_def same_job_def split: sum.splits db_error.splits
        intro: questions(3)[of IntegrityError] questions(3)[of "DatabaseUnavailableError _"])
  show "settles_quietly (settle_telegram_mapping now payload i r)"
    using album by (fastforce simp: settles_quietly_def settle_telegram_mapping_def same_job_def
        split: option.splits sum.splits if_splits)
  show "settles_quietly (settle_owner_mapping now payload i r)"
    using album by (fastforce simp: settles_quietly_def settle_owner_mapping_def same_job_def Let_def
        split: option.splits sum.splits if_splits)
  show "settles_quietly (settle_max_mapping payload i)"
    by (auto simp: settles_quietly_def settle_max_mapping_def same_job_def split: sum.splits)
  show "settles_quietly (note_placed now payload t)"
    by (auto simp: settles_quietly_def note_placed_def need_int_def same_job_def split: option.splits)
  show "settles_quietly (seed_placed_baseline now po payload i t)"
    by (auto simp: settles_quietly_def seed_placed_baseline_def same_job_def split: option.splits if_splits)
qed

subsection \<open>Accepted, hence settled\<close>

text \<open>The remote call of a job that is one message: whether the other side took it.\<close>

definition took :: "('a, 'm) act \<Rightarrow> 'm \<Rightarrow> bool" where
  "took c m = (case fst (c m) of Inl e \<Rightarrow> False | Inr a \<Rightarrow> True)"

definition accepted :: "'m job_ports \<Rightarrow> string \<Rightarrow> json \<Rightarrow> 'm \<Rightarrow> bool" where
  "accepted po kind payload m =
     (if kind = KIND_MAX_TO_TG_TEXT then
        (case (get_int ''bot_id'' payload, get_int ''chat_id'' payload, get_str ''text'' payload) of
           (Some bid, Some chat, Some t) \<Rightarrow>
             took (jp_bot_text po bid chat t (get_int ''reply_to'' payload) (get_json ''entities'' payload)) m
         | _ \<Rightarrow> False)
      else if kind = KIND_MAX_TO_TG_OWNER then
        (case (get_int ''peer_id'' payload, get_str ''outgoing_text'' payload) of
           (Some peer, Some t) \<Rightarrow>
             \<not> got_bool ''attachments'' payload \<and> took (jp_owner_text po peer t (get_json ''entities'' payload)) m
         | _ \<Rightarrow> False)
      else if kind = KIND_TG_TO_MAX_TEXT then
        (case (get_int ''max_chat_id'' payload, get_str ''text'' payload) of
           (Some chat, Some t) \<Rightarrow>
             (case split_max_text MAX_TEXT_UTF16_LIMIT (decode t) of
                Inl e \<Rightarrow> False
              | Inr chunks \<Rightarrow> length chunks \<le> 1 \<and> took (jp_max_text po chat t (get_int ''reply_to'' payload)) m)
         | _ \<Rightarrow> False)
      else if kind = KIND_TG_TO_MAX_CONTACT then
        (case (get_int ''max_chat_id'' payload, get_str ''vcard'' payload) of
           (Some chat, Some vc) \<Rightarrow>
             took (jp_max_contact po chat vc (get_int ''contact_user_id'' payload) (get_int ''reply_to'' payload)) m
         | _ \<Rightarrow> False)
      else False)"

lemma tookD: "took c m \<Longrightarrow> \<exists>a v. c m = (Inr a, v)"
  by (cases "c m") (auto simp: took_def split: sum.splits)

lemma on_remote_run: "c (jw_remote w) = (r, m) \<Longrightarrow> on_remote c w = (r, w\<lparr>jw_remote := m\<rparr>)"
  by (simp add: on_remote_def)

lemma creating_send_kept: "c w = (Inr a, v) \<Longrightarrow> creating_send c w = (Inr a, v)"
  by (simp add: creating_send_def)

text \<open>After the send mark a coroutine ends marked, and only with a question.\<close>

definition ends_asking :: "(failure + 'a) \<times> 'm job_world \<Rightarrow> bool" where
  "ends_asking x \<longleftrightarrow> jw_marked (snd x) \<and> (\<forall>e. fst x = Inl e \<longrightarrow> question e)"

lemma quiet_ends: "settles_quietly c \<Longrightarrow> jw_marked w \<Longrightarrow> ends_asking (c w)"
  by (cases "c w") (fastforce simp: settles_quietly_def ends_asking_def same_job_def)

lemma quiet_option:
  "settles_quietly c \<Longrightarrow> (\<And>a. settles_quietly (f a)) \<Longrightarrow> settles_quietly (case x of None \<Rightarrow> c | Some a \<Rightarrow> f a)"
  by (cases x) simp_all

lemmas quiet = quiet_option quiet_andthen quiet_simple quiet_settlements questions

lemma send_job_kinds:
  "send_job now po sending KIND_MAX_TO_TG_TEXT payload = send_bot_text now po sending payload"
  "send_job now po sending KIND_MAX_TO_TG_OWNER payload
     = andthen (place_owner_message now po sending payload) (\<lambda>i. ret (Some i))"
  "send_job now po sending KIND_TG_TO_MAX_TEXT payload = send_max_text now po sending payload"
  "send_job now po sending KIND_TG_TO_MAX_CONTACT payload = send_max_contact po sending payload"
  by (simp_all add: send_job_def kind_defs)

lemma kinds_differ:
  "KIND_MAX_TO_TG_OWNER \<noteq> KIND_MAX_TO_TG_TEXT" "KIND_TG_TO_MAX_TEXT \<noteq> KIND_MAX_TO_TG_TEXT"
  "KIND_TG_TO_MAX_TEXT \<noteq> KIND_MAX_TO_TG_OWNER" "KIND_TG_TO_MAX_CONTACT \<noteq> KIND_MAX_TO_TG_TEXT"
  "KIND_TG_TO_MAX_CONTACT \<noteq> KIND_MAX_TO_TG_OWNER" "KIND_TG_TO_MAX_CONTACT \<noteq> KIND_TG_TO_MAX_TEXT"
  by (simp_all add: kind_defs)

lemma accepted_ends_asking:
  assumes "accepted po kind payload (jw_remote w)"
  shows "is_creating kind \<and> ends_asking (send_job now po (mark_hook now i) kind payload w)"
proof -
  let ?w = "w\<lparr>jw_outbox := mark_sending now i (jw_outbox w), jw_marked := True\<rparr>"
  have mark: "andthen (mark_hook now i) f w = f () ?w" for f :: "unit \<Rightarrow> ('b, 'a) job"
    by (simp add: mark_hook_def)
  have creates: "is_creating k" if "k \<in> {KIND_MAX_TO_TG_TEXT, KIND_MAX_TO_TG_OWNER, KIND_TG_TO_MAX_TEXT, KIND_TG_TO_MAX_CONTACT}" for k
    using that by (auto simp: is_creating_def CREATING_KINDS_def)
  have settle: "ends_asking (andthen (settle_max_mapping payload a) (\<lambda>i. ret (Some i)) v)"
    if "jw_marked v" for a and v :: "'a job_world"
    by (rule quiet_ends[OF _ that]) (intro quiet)
  consider (bot) "kind = KIND_MAX_TO_TG_TEXT" | (owner) "kind = KIND_MAX_TO_TG_OWNER"
    | (max) "kind = KIND_TG_TO_MAX_TEXT" | (contact) "kind = KIND_TG_TO_MAX_CONTACT"
    using assms by (auto simp: accepted_def split: if_splits)
  then show ?thesis
  proof cases
    case bot
    then obtain bid chat t where p: "get_int ''bot_id'' payload = Some bid" "get_int ''chat_id'' payload = Some chat"
        "get_str ''text'' payload = Some t"
      and tk: "took (jp_bot_text po bid chat t (get_int ''reply_to'' payload) (get_json ''entities'' payload)) (jw_remote w)"
      using assms by (auto simp: kinds_differ accepted_def split: option.splits)
    from tookD[OF tk] obtain a v where
      "jp_bot_text po bid chat t (get_int ''reply_to'' payload) (get_json ''entities'' payload) (jw_remote ?w) = (Inr a, v)"
      by auto
    note run = on_remote_run[of "jp_bot_text po bid chat t (get_int ''reply_to'' payload) (get_json ''entities'' payload)" ?w, OF this]
    have "ends_asking ((case a of None \<Rightarrow> throw (UnconfirmedDeliveryError ''Telegram returned no message id'')
        | Some i \<Rightarrow> andthen (settle_telegram_mapping now payload i None) (\<lambda>i. ret (Some i))) (?w\<lparr>jw_remote := v\<rparr>))"
      by (rule quiet_ends) (intro quiet, simp_all)
    then show ?thesis
      by (simp add: bot creates send_job_kinds send_bot_text_def mark need_int_def need_str_def p andthen_cases(2) run)
  next
    case owner
    then obtain peer t where p: "get_int ''peer_id'' payload = Some peer" "get_str ''outgoing_text'' payload = Some t"
        "\<not> got_bool ''attachments'' payload"
      and tk: "took (jp_owner_text po peer t (get_json ''entities'' payload)) (jw_remote w)"
      using assms by (auto simp: kinds_differ accepted_def split: option.splits if_splits)
    from tookD[OF tk] obtain a v where
      "jp_owner_text po peer t (get_json ''entities'' payload) (jw_remote ?w) = (Inr a, v)"
      by auto
    note run = on_remote_run[of "jp_owner_text po peer t (get_json ''entities'' payload)" ?w, OF this]
    have "ends_asking (andthen (case a of
              None \<Rightarrow> throw (UnconfirmedDeliveryError ''the owner's session returned no message id'')
            | Some i \<Rightarrow> andthen (note_placed now payload t) (\<lambda>_. andthen (seed_placed_baseline now po payload i t)
                (\<lambda>_. settle_owner_mapping now payload i None))) (\<lambda>i. ret (Some i)) (?w\<lparr>jw_remote := v\<rparr>))"
      by (rule quiet_ends) (intro quiet, simp_all)
    moreover have "andthen (andthen (on_remote (jp_owner_text po peer t (get_json ''entities'' payload))) f) g ?w
        = andthen (f a) g (?w\<lparr>jw_remote := v\<rparr>)" for f and g :: "int \<Rightarrow> (int option, 'a) job"
      by (simp add: andthen_def run)
    ultimately show ?thesis
      by (simp add: owner creates send_job_kinds place_owner_message_def andthen_def[of "mark_hook now i"] mark_hook_def
          andthen_def[of _ "\<lambda>i. ret (Some i)"] need_int_def need_str_def p andthen_cases(2) run)
  next
    case max
    then obtain chat t chunks where p: "get_int ''max_chat_id'' payload = Some chat" "get_str ''text'' payload = Some t"
        "split_max_text MAX_TEXT_UTF16_LIMIT (decode t) = Inr chunks" "\<not> length chunks > 1"
      and tk: "took (jp_max_text po chat t (get_int ''reply_to'' payload)) (jw_remote w)"
      using assms by (auto simp: kinds_differ accepted_def split: option.splits sum.splits if_splits)
    from tookD[OF tk] obtain a v where "jp_max_text po chat t (get_int ''reply_to'' payload) (jw_remote ?w) = (Inr a, v)"
      by auto
    note run = creating_send_kept[of "on_remote (jp_max_text po chat t (get_int ''reply_to'' payload))" ?w, OF on_remote_run[of "jp_max_text po chat t (get_int ''reply_to'' payload)" ?w, OF this]]
    show ?thesis
      using settle[of "?w\<lparr>jw_remote := v\<rparr>" a]
      by (simp add: max creates send_job_kinds send_max_text_def mark need_int_def need_str_def p andthen_cases(2) run del: One_nat_def)
  next
    case contact
    then obtain chat vc where p: "get_int ''max_chat_id'' payload = Some chat" "get_str ''vcard'' payload = Some vc"
      and tk: "took (jp_max_contact po chat vc (get_int ''contact_user_id'' payload) (get_int ''reply_to'' payload)) (jw_remote w)"
      using assms by (auto simp: kinds_differ accepted_def split: option.splits if_splits)
    from tookD[OF tk] obtain a v where
      "jp_max_contact po chat vc (get_int ''contact_user_id'' payload) (get_int ''reply_to'' payload) (jw_remote ?w) = (Inr a, v)"
      by auto
    note run = creating_send_kept[of "on_remote (jp_max_contact po chat vc (get_int ''contact_user_id'' payload) (get_int ''reply_to'' payload))" ?w, OF on_remote_run[of "jp_max_contact po chat vc (get_int ''contact_user_id'' payload) (get_int ''reply_to'' payload)" ?w, OF this]]
    show ?thesis
      using settle[of "?w\<lparr>jw_remote := v\<rparr>" a]
      by (simp add: contact creates send_job_kinds send_max_contact_def mark need_int_def need_str_def p andthen_cases(2) run)
  qed
qed

lemma asking_is_settled:
  assumes "is_creating (ob_kind item)" "\<And>e. r = Inl e \<Longrightarrow> question e" "x \<in> set (rows (pipe_finish now item True r q))"
    "ob_id x = ob_id item"
  shows "ob_state x \<in> {DONE, AMBIGUOUS}"
proof (cases r)
  case (Inl e)
  then have "st_verdict (settle (ob_kind item) e True) = V_AMBIGUOUS"
    using assms(1,2) by (simp add: question_def)
  then show ?thesis
    using assms(3,4) Inl by (auto simp: pipe_finish_def Let_def mark_ambiguous_def on_id_def tbl_update_def)
next
  case (Inr m)
  then show ?thesis
    using assms(3,4) by (auto simp: pipe_finish_def mark_done_def on_id_def tbl_update_def)
qed

text \<open>C32. Once the other side has taken a message - a bot's text, a line placed from the owner's session, a text
  or a contact into MAX - the attempt leaves its job delivered or in question, whatever fails after the acceptance
  (an answer without an id, a row of the map another message holds, a missing field): it is never put back to be
  sent again.\<close>

theorem accepted_message_is_settled:
  assumes "accepted po (ob_kind item) (ob_payload item) (jw_remote w)"
    and "x \<in> set (rows (jw_outbox (attempt_job now po item w)))" "ob_id x = ob_id item"
  shows "ob_state x \<in> {DONE, AMBIGUOUS}"
proof -
  let ?w = "w\<lparr>jw_marked := False\<rparr>"
  have "accepted po (ob_kind item) (ob_payload item) (jw_remote ?w)" using assms(1) by simp
  from accepted_ends_asking[OF this, of now "ob_id item"] show ?thesis
    using assms(2,3)
    by (cases "send_job now po (mark_hook now (ob_id item)) (ob_kind item) (ob_payload item) ?w")
      (auto simp: attempt_job_def ends_asking_def dest: asking_is_settled[rotated 2])
qed

text \<open>A contact card MAX takes, for a row of the map that is gone: with any other ports.\<close>

definition card_payload :: json where
  "card_payload = JObj [(''max_chat_id'', JInt 5), (''vcard'', JStr ''BEGIN:VCARD''), (''contact_user_id'', JNull),
     (''reply_to'', JNull), (''link_id'', JInt 3)]"

definition card_job :: outbox_item where
  "card_job = new_item 0 ''b'' TG_TO_MAX KIND_TG_TO_MAX_CONTACT card_payload 0 PENDING None None None 1"

definition card_world :: "nat job_world" where
  "card_world =
     \<lparr>jw_outbox = \<lparr>rows = [card_job], seq = 1\<rparr>, jw_marked = False, jw_links = empty_tbl, jw_parts = empty_tbl,
      jw_obs = (\<lambda>_. None), jw_states = [], jw_reactions = [], jw_echoes = [], jw_remote = 0\<rparr>"

definition taking :: "nat job_ports \<Rightarrow> nat job_ports" where
  "taking po = po\<lparr>jp_max_contact := (\<lambda>chat vc user reply m. (Inr 900, m + 1))\<rparr>"

theorem accepted_message_is_settled_witness:
  "\<forall>po. ob_state (hd (rows (jw_outbox (attempt_job 0 (taking po) card_job card_world)))) \<in> {DONE, AMBIGUOUS}"
proof
  fix po
  let ?q = "rows (jw_outbox (attempt_job 0 (taking po) card_job card_world))"
  have k: "ob_kind card_job = KIND_TG_TO_MAX_CONTACT" "ob_payload card_job = card_payload"
    by (simp_all add: card_job_def new_item_def)
  have a: "accepted (taking po) (ob_kind card_job) (ob_payload card_job) (jw_remote card_world)"
    by (simp add: k accepted_def kinds_differ card_payload_def taking_def took_def get_int_def get_str_def jget_def)
  have "map ob_id ?q = [ob_id card_job]"
    by (simp add: attempt_job_def k card_world_def send_job_kinds send_max_contact_def mark_hook_def need_int_def
        need_str_def card_payload_def jget_def get_int_def get_str_def andthen_def creating_send_def on_remote_def
        taking_def settle_max_mapping_def settle_max_delivery_mapping_def attach_max_message_def pipe_finish_def
        mark_done_def mark_sending_def on_id_def tbl_update_def tbl_try_update_def empty_tbl_def no_clash_def)
  then have "hd ?q \<in> set ?q" "ob_id (hd ?q) = ob_id card_job" by (cases ?q; simp)+
  then show "ob_state (hd ?q) \<in> {DONE, AMBIGUOUS}"
    by (rule accepted_message_is_settled[OF a])
qed

end
