(* ===== verification/Router_Laws.thy ===== *)
theory Router_Laws
  imports Router_Intake Send_Laws Owner_Mutation_Laws Media_Laws
begin

section \<open>What the router guarantees\<close>

text \<open>
  A message of MAX that was claimed has a job, and a replay of it changes nothing; a message of the owner that the
  bridge carried into MAX is recognised when MAX sends it back - unless it was the later part of a long text.
\<close>

subsection \<open>Only through the queue\<close>

text \<open>A coroutine that changes the queue by queue calls only.\<close>

definition queues :: "('a, 'm) job \<Rightarrow> bool" where
  "queues c \<longleftrightarrow> (\<forall>ob. stays (\<lambda>w. by_calls ob (jw_outbox w)) c)"

lemma queues_simple: "queues (ret a)" "queues (throw e)" "queues (reads g)" "queues (on_remote c)"
  by (auto simp: queues_def stays_def on_remote_def split_beta)

lemma queues_writes: "(\<And>w. by_calls (jw_outbox w) (jw_outbox (f w))) \<Longrightarrow> queues (writes f)"
  by (auto simp: queues_def stays_def intro: by_calls_trans)

lemma queues_andthen: "queues c \<Longrightarrow> (\<And>a. queues (f a)) \<Longrightarrow> queues (andthen c f)"
  by (auto simp: queues_def intro: stays_andthen)

lemma queues_each: "(\<And>x. queues (f x)) \<Longrightarrow> queues (each f xs)"
  by (auto simp: queues_def intro: stays_each)

lemma queues_need: "(\<And>i. queues (f i)) \<Longrightarrow> queues (need_int k p f)" "(\<And>t. queues (g t)) \<Longrightarrow> queues (need_str k p g)"
  by (auto simp: need_int_def need_str_def queues_simple split: option.split)

lemma queues_option: "queues c \<Longrightarrow> (\<And>a. queues (f a)) \<Longrightarrow> queues (case x of None \<Rightarrow> c | Some a \<Rightarrow> f a)"
  by (cases x) simp_all

lemma queues_if: "(b \<Longrightarrow> queues c) \<Longrightarrow> (\<not> b \<Longrightarrow> queues d) \<Longrightarrow> queues (if b then c else d)"
  by simp

lemma queues_quiet: "settles_quietly c \<Longrightarrow> queues c"
  by (auto simp: queues_def stays_def settles_quietly_def same_job_def) (metis prod.collapse)

lemma queues_hook: "queues (mark_hook now i)"
  unfolding mark_hook_def by (rule queues_writes) (simp add: by_call)

lemmas queues_intro = queues_andthen queues_each queues_need queues_option queues_if queues_simple queues_hook
  quiet_settlements[THEN queues_quiet]

text \<open>A delivery whose transports are remote touches the queue through its hook alone.\<close>

definition queue_kept :: "outbox \<Rightarrow> 'm job_world \<times> bool \<Rightarrow> bool" where
  "queue_kept ob s \<longleftrightarrow> by_calls ob (jw_outbox (fst s))"

lemma kept_announced: "queues hook \<Longrightarrow> stays (queue_kept ob) (announced hook (on_remote c))"
  by (auto simp: queues_def stays_def queue_kept_def announced_def quietly_def on_remote_def split_beta
      split: sum.split)

lemma kept_quietly: "stays (queue_kept ob) (quietly (on_remote c))"
  by (auto simp: stays_def queue_kept_def quietly_def on_remote_def split_beta)

interpretation marking: transport_keeps "queue_kept ob" "quiet_ports (lift_ports p)"
  "announcing_sender (mark_hook now i) (lift_sender sd)" for ob p now i sd
  by unfold_locales
    (auto simp: quiet_ports_def announcing_sender_def lift_ports_def lift_sender_def
      intro!: kept_announced kept_quietly queues_hook)

lemma queues_delivery: "queues (deliver_receipt (lift_ports p) (lift_sender sd) (Some (mark_hook now i)) m c e r)"
  using marking.deliver_stays unfolding queues_def stays_def deliver_receipt_def queue_kept_def
  by (simp add: split_beta) blast

lemma queues_restored: "queues (restored_message payload b)"
  unfolding restored_message_def restored_attachments_def
  by (intro queues_intro) (simp split: sum.split add: queues_simple)

lemma queues_headed: "queues (headed why r)"
  unfolding headed_def by (intro queues_intro)

lemma send_job_media: "send_job now po sending KIND_MAX_TO_TG_MEDIA payload = send_bot_media now po sending payload"
  by (simp add: send_job_def kind_defs)

definition filing_kind :: "string \<Rightarrow> bool" where
  "filing_kind kind \<longleftrightarrow> kind \<in> {KIND_MAX_TO_TG_TEXT, KIND_MAX_TO_TG_MEDIA, KIND_MAX_TO_TG_OWNER}"

lemma queues_send_job:
  assumes "filing_kind kind"
  shows "queues (send_job now po (mark_hook now i) kind payload)"
proof -
  have TX: "queues (send_bot_text now po (mark_hook now i) payload)"
    unfolding send_bot_text_def by (intro queues_intro)
  have MD: "queues (send_bot_media now po (mark_hook now i) payload)"
    unfolding send_bot_media_def by (intro queues_intro queues_delivery queues_restored queues_headed)
  have place: "queues (place_owner_message now po (mark_hook now i) payload)"
    unfolding place_owner_message_def
    by (intro queues_intro queues_delivery queues_restored queues_headed)
  from place have "queues (andthen (place_owner_message now po (mark_hook now i) payload) (\<lambda>i. ret (Some i)))"
    by (intro queues_andthen queues_simple)
  then have "queues (send_job now po (mark_hook now i) KIND_MAX_TO_TG_OWNER payload)"
    unfolding send_job_kinds(2) .
  moreover have "queues (send_job now po (mark_hook now i) KIND_MAX_TO_TG_TEXT payload)"
    unfolding send_job_kinds(1) by (rule TX)
  moreover have "queues (send_job now po (mark_hook now i) KIND_MAX_TO_TG_MEDIA payload)"
    unfolding send_job_media by (rule MD)
  ultimately show ?thesis
    using assms unfolding filing_kind_def by blast
qed

subsection \<open>A claimed message has a job\<close>

definition sound :: "'m router_world \<Rightarrow> bool" where
  "sound w \<longleftrightarrow> queue_ok (jw_outbox (rw_job w))"

definition filed :: "string \<Rightarrow> 'm router_world \<Rightarrow> bool" where
  "filed key w \<longleftrightarrow> sound w \<and> (\<exists>i. holds_key (jw_outbox (rw_job w)) i key)"

definition routes :: "('a, 'm) routing \<Rightarrow> bool" where
  "routes c \<longleftrightarrow> (\<forall>ob. stays (\<lambda>w. by_calls ob (jw_outbox (rw_job w))) c)"

lemma routes_calls: "routes c \<Longrightarrow> by_calls (jw_outbox (rw_job w)) (jw_outbox (rw_job (snd (c w))))"
  unfolding routes_def stays_def by blast

lemma routes_keep:
  assumes "routes c"
  shows "stays sound c" "stays (filed key) c"
  using routes_calls[OF assms]
  by (auto simp: stays_def sound_def filed_def intro: by_calls_queue_ok by_calls_holds)

lemma triple_stays: "stays I c \<Longrightarrow> (\<And>a w. I w \<Longrightarrow> Q a w) \<Longrightarrow> (\<And>e w. I w \<Longrightarrow> E e w) \<Longrightarrow> triple I c Q E"
  unfolding stays_triple by (rule triple_post)

lemma routes_simple: "routes (ret a)" "routes (throw e)" "routes (reads g)" "routes (encoded x)" "routes (outside c)"
  "routes (noting rt n)"
  by (auto simp: routes_def stays_def encoded_def outside_def on_job_def on_remote_def noting_def split_beta
      split: sum.split)

lemma routes_andthen: "routes c \<Longrightarrow> (\<And>a. routes (f a)) \<Longrightarrow> routes (andthen c f)"
  by (auto simp: routes_def intro: stays_andthen)

lemma routes_on_job: "queues c \<Longrightarrow> routes (on_job c)"
  by (auto simp: routes_def queues_def stays_def on_job_def split_beta)

lemma routes_writes: "(\<And>w. by_calls (jw_outbox w) (jw_outbox (f w))) \<Longrightarrow> routes (on_job (writes f))"
  by (intro routes_on_job queues_writes)

lemma pipe_marked_calls: "by_calls ob (snd (pipe_attempt now (\<lambda>_ _ _. (mk, r)) i d k p ob))"
  by (auto simp: pipe_attempt_def Let_def split: sum.split verdict.split intro: by_call by_calls_trans[OF by_call(6)])

lemma routes_attempting: "filing_kind kind \<Longrightarrow> routes (attempting now rt i d kind payload)"
  unfolding attempting_def
proof (rule routes_on_job)
  assume k: "filing_kind kind"
  show "queues (\<lambda>w. let j = the (storable payload);
         (r, v) = send_job now (rt_job rt) (mark_hook now i) kind j (w\<lparr>jw_marked := False\<rparr>);
         (s, ob) = pipe_attempt now (\<lambda>_ _ _. (jw_marked v, r)) i d kind j (jw_outbox v)
     in (s, v\<lparr>jw_outbox := ob\<rparr>))" (is "queues ?c")
  proof -
    have "by_calls (jw_outbox w) (jw_outbox (snd (?c w)))" for w
    proof -
      let ?x = "send_job now (rt_job rt) (mark_hook now i) kind (the (storable payload)) (w\<lparr>jw_marked := False\<rparr>)"
      have "by_calls (jw_outbox w) (jw_outbox (snd ?x))"
        using queues_send_job[OF k] unfolding queues_def stays_def
        by (metis by_calls_refl job_world.surjective job_world.update_convs(2) job_world.select_convs(1))
      then show ?thesis
        by (auto simp: split_beta Let_def intro: by_calls_trans pipe_marked_calls)
    qed
    then show ?thesis by (auto simp: queues_def stays_def intro: by_calls_trans)
  qed
qed

lemma filing_kinds [simp]: "filing_kind KIND_MAX_TO_TG_TEXT" "filing_kind KIND_MAX_TO_TG_MEDIA" "filing_kind KIND_MAX_TO_TG_OWNER"
  by (simp_all add: filing_kind_def)

lemma submit_in_order_files:
  assumes "submit_in_order now b d k payload key ob = Some (r, ob')" "queue_ok ob"
  shows "queue_ok ob' \<and> (\<exists>i. holds_key ob' i key)"
proof -
  obtain j where j: "storable payload = Some j"
    using assms(1) by (auto simp: submit_in_order_def submit_behind_def split: option.splits)
  obtain i ob1 where e: "enqueue now b d k j 0 (Some key) (Some DEFAULT_TTL_MS) ob = (i, ob1)" by fastforce
  have ok: "queue_ok ob1" "holds_key ob1 i key"
    using queue_ok_enqueue[OF assms(2)] enqueue_holds[OF e] e by (metis snd_conv)+
  have "ob' = ob1 \<or> ob' = snd (claim_for_attempt now b d k j key (Some DEFAULT_TTL_MS) DEFAULT_LEASE_MS ob1)"
    using assms(1) by (auto simp: submit_in_order_def submit_behind_def j e split: if_splits)
  then show ?thesis
    using ok queue_ok_claim claim_holds by metis
qed

lemma submitting_files:
  "triple sound (submitting (submit_in_order now b d k payload key))
     (\<lambda>job w. if job = None then sound w else filed key w) (\<lambda>_. sound)"
  by (auto simp: triple_def submitting_def on_job_def sound_def filed_def
      dest: submit_in_order_files split: option.splits)

lemma held_by_calls: "queue_ok ob \<Longrightarrow> by_calls ob ob' \<Longrightarrow> holds_key ob i key \<Longrightarrow> queue_ok ob' \<and> (\<exists>i. holds_key ob' i key)"
  using by_calls_queue_ok by_calls_holds by blast

lemma accounting_calls:
  "\<exists>p. by_calls (snd (claim_for_attempt now b d k p key (Some DEFAULT_TTL_MS) DEFAULT_LEASE_MS ob)) (snd (submit_noop now b d k key why ref ob))"
  "\<exists>p. by_calls (snd (claim_for_attempt now b d k p key (Some DEFAULT_TTL_MS) DEFAULT_LEASE_MS ob)) (snd (submit_unstorable now b d k key why ref ob))"
  unfolding submit_noop_def submit_unstorable_def split_beta Let_def snd_conv
  by (rule exI, rule by_calls_trans[OF by_call(9) by_call(2)]) (rule exI, rule by_call(9))

lemma account_files:
  "triple sound (account_nothing_to_deliver now t m) (\<lambda>_. filed (message_key m)) (\<lambda>_. sound)"
  "triple sound (account_unstorable now t k m ids) (\<lambda>_. filed (message_key m)) (\<lambda>_. sound)"
proof -
  have claimed: "queue_ok ob' \<and> (\<exists>i. holds_key ob' i key)"
    if "queue_ok ob" "\<exists>p. by_calls (snd (claim_for_attempt now b d k p key ttl l ob)) ob'" for b d k key ttl l ob ob'
    using that claim_holds queue_ok_claim held_by_calls by metis
  show "triple sound (account_nothing_to_deliver now t m) (\<lambda>_. filed (message_key m)) (\<lambda>_. sound)"
    using claimed[OF _ accounting_calls(1)]
    by (simp add: triple_def account_nothing_to_deliver_def on_job_def sound_def filed_def)
  show "triple sound (account_unstorable now t k m ids) (\<lambda>_. filed (message_key m)) (\<lambda>_. sound)"
    using claimed[OF _ accounting_calls(2)]
    by (simp add: triple_def account_unstorable_def on_job_def sound_def filed_def)
qed

text \<open>Whoever gets an answer about the job has it filed.\<close>

lemma after_filed:
  assumes "routes c"
  shows "triple (filed key) c (\<lambda>_. filed key) (\<lambda>_. sound)"
  by (rule triple_stays[OF routes_keep(2)[OF assms]]) (auto simp: filed_def)

lemma keeps_sound:
  assumes "routes c"
  shows "triple sound c (\<lambda>_. sound) (\<lambda>_. sound)"
  by (rule triple_stays[OF routes_keep(1)[OF assms]])

lemma then_filed: "routes c \<Longrightarrow> (\<And>a. triple sound (f a) Q E) \<Longrightarrow> (\<And>e w. sound w \<Longrightarrow> E e w) \<Longrightarrow> triple sound (andthen c f) Q E"
  by (rule triple_andthen[OF triple_post[OF keeps_sound]])

lemma routes_expect: "routes (expect_album now rt t link m cap)"
  unfolding expect_album_def by (rule routes_writes) simp

lemma submit_owner_files:
  "triple sound (submit_owner_delivery now rt t link m payload) (\<lambda>a w. a \<and> filed (message_key m) w) (\<lambda>_. sound)"
  unfolding submit_owner_delivery_def
proof (rule triple_andthen[OF submitting_files], goal_cases)
  case (1 job)
  have yes: "triple (filed (message_key m)) (ret True) (\<lambda>a w. a \<and> filed (message_key m) w) (\<lambda>_. sound)"
    by (auto simp: triple_def)
  show ?case
  proof (cases job)
    case None
    then show ?thesis
      using triple_andthen[OF account_files(2) yes] by simp
  next
    case (Some x)
    then show ?thesis
      using yes triple_andthen[OF after_filed[OF routes_attempting[OF filing_kinds(3)]] yes] by (cases x) auto
  qed
qed

abbreviation files :: "incoming \<Rightarrow> ('a, 'm) routing \<Rightarrow> bool" where
  "files m c \<equiv> triple sound c (\<lambda>_. filed (message_key m)) (\<lambda>_. sound)"

lemma send_text_files: "files m (send_text_durably now rt t link m body es reply)"
  unfolding send_text_durably_def Let_def
proof (rule triple_andthen[OF submitting_files], goal_cases)
  case (1 job)
  show ?case
  proof (cases job)
    case None
    then show ?thesis by (simp add: triple_throw)
  next
    case (Some x)
    then show ?thesis
      by (cases x) (auto intro!: triple_ret triple_andthen[OF after_filed[OF routes_attempting[OF filing_kinds(1)]]])
  qed
qed

lemma send_media_files: "files m (send_media_durably now rt t link m caption es reply)"
  unfolding send_media_durably_def Let_def
proof (rule then_filed[OF routes_expect], goal_cases)
  case (1 u)
  show ?case
  proof (rule triple_andthen[OF submitting_files], goal_cases)
    case (1 job)
    show ?case
    proof (cases job)
      case None
      then show ?thesis by (auto intro!: triple_andthen[OF account_files(2)] triple_ret)
    next
      case (Some x)
      then show ?thesis
        by (cases x) (auto intro!: triple_ret triple_andthen[OF after_filed[OF routes_attempting[OF filing_kinds(2)]]])
    qed
  qed
qed simp

definition owned :: "incoming \<Rightarrow> bool \<Rightarrow> 'm router_world \<Rightarrow> bool" where
  "owned m own w \<longleftrightarrow> (if own then filed (message_key m) w else sound w)"

lemma deliver_as_owner_files:
  "triple sound (deliver_as_owner now rt m t link) (owned m) (\<lambda>_. sound)"
proof -
  have out: "triple sound (submit_owner_delivery now rt t link m p)
      (owned m) (\<lambda>_. sound)" for p
    by (rule triple_post[OF submit_owner_files]) (auto simp: owned_def)
  have no: "triple sound (ret False) (owned m) (\<lambda>_. sound)"
    by (rule triple_ret) (simp add: owned_def)
  show ?thesis
    unfolding deliver_as_owner_def Let_def
    by (rule then_filed[OF routes_simple(5)])
      (auto intro!: no out then_filed routes_simple routes_expect)
qed

lemma deliver_claimed_files: "files m (deliver_claimed now rt t link m)"
proof -
  have attach: "triple (filed (message_key m)) (case sent of None \<Rightarrow> ret () | Some i \<Rightarrow> attach_sent now rt t link i)
      (\<lambda>_. filed (message_key m)) (\<lambda>_. sound)" for sent
  proof (rule after_filed, cases sent)
    case None
    then show "routes (case sent of None \<Rightarrow> ret () | Some i \<Rightarrow> attach_sent now rt t link i)" by (simp add: routes_simple)
  next
    case (Some i)
    have "queues (\<lambda>w. case attach_telegram_message link i (jw_links w) of
        Inl e \<Rightarrow> (Inl (db_failure e), w) | Inr mm \<Rightarrow> (Inr (), w\<lparr>jw_links := mm\<rparr>))"
      by (auto simp: queues_def stays_def split: sum.split)
    then show "routes (case sent of None \<Rightarrow> ret () | Some i \<Rightarrow> attach_sent now rt t link i)"
      using Some by (auto simp: attach_sent_def intro!: routes_andthen routes_on_job routes_simple queues_writes)
  qed
  have reply: "routes (telegram_reply_target m t)"
    by (auto simp: telegram_reply_target_def routes_simple split: option.split)
  have way: "files m (if im_attachments m \<noteq> [] then
        andthen (encoded x) (\<lambda>mark. send_media_durably now rt t link m cap (es @ mark) reply)
      else if body = [] then andthen (account_nothing_to_deliver now t m) (\<lambda>_. ret None)
      else andthen (encoded y) (\<lambda>mark. send_text_durably now rt t link m body (es @ mark) reply))" for x y cap es body reply
    by (auto intro!: then_filed routes_simple send_media_files send_text_files triple_ret triple_andthen[OF account_files(1)])
  have yes: "triple (filed (message_key m)) (noting rt n) (\<lambda>_. filed (message_key m)) (\<lambda>_. sound)" for n
    by (rule after_filed[OF routes_simple(6)])
  show ?thesis
    unfolding deliver_claimed_def Let_def
  proof (rule then_filed[OF routes_simple(4)], goal_cases)
    case (1 es)
    show ?case
    proof (rule then_filed[OF reply], goal_cases)
      case (1 rep)
      show ?case
      proof (rule triple_andthen[OF deliver_as_owner_files], goal_cases)
        case (1 own)
        show ?case
        proof (cases own)
          case True
          then show ?thesis using yes by (simp add: owned_def[abs_def])
        next
          case False
          then show ?thesis using triple_andthen[OF way attach] by (simp add: owned_def[abs_def])
        qed
      qed
    qed simp
  qed simp
qed

text \<open>Up to the claim only the outside world and the cache of names change.\<close>

definition untouched :: "'m router_world \<Rightarrow> 'm router_world \<Rightarrow> bool" where
  "untouched w v \<longleftrightarrow> rw_notes v = rw_notes w \<and> (\<forall>x. (rw_job v)\<lparr>jw_remote := x\<rparr> = (rw_job w)\<lparr>jw_remote := x\<rparr>)"

lemma untouched_refl [simp]: "untouched w w"
  by (simp add: untouched_def)

lemma outside_untouched: "stays (untouched w) (outside c)"
  by (auto simp: stays_def outside_def on_job_def on_remote_def untouched_def split_beta)

lemma names_untouched: "stays (untouched w) (writes (\<lambda>v. v\<lparr>rw_names := f v\<rparr>))"
  by (auto simp: stays_def untouched_def)

lemma name_forward_untouched: "stays (untouched w) (name_forward rt m)"
  unfolding name_forward_def
  by (auto intro!: stays_andthen stays_catching stays_simple outside_untouched names_untouched split: option.split)

lemma enrich_untouched: "stays (untouched w) (enrich_contact_avatar rt m)"
  unfolding enrich_contact_avatar_def with_avatar_def
  by (auto intro!: stays_andthen stays_catching stays_simple outside_untouched stays_each
      split: option.split attachment_kind.split)

lemma same_message:
  "name_forward rt m w = (Inr m1, v) \<Longrightarrow> im_chat_id m1 = im_chat_id m \<and> im_message_id m1 = im_message_id m"
  "enrich_contact_avatar rt m w = (Inr m2, v) \<Longrightarrow> im_chat_id m2 = im_chat_id m \<and> im_message_id m2 = im_message_id m"
  by (auto simp: name_forward_def enrich_contact_avatar_def andthen_def
      split: option.splits if_splits prod.splits sum.splits)

lemma untouched_job:
  assumes "untouched w v"
  shows "jw_links (rw_job v) = jw_links (rw_job w)" "jw_outbox (rw_job v) = jw_outbox (rw_job w)"
    "jw_parts (rw_job v) = jw_parts (rw_job w)" "jw_obs (rw_job v) = jw_obs (rw_job w)"
    "jw_echoes (rw_job v) = jw_echoes (rw_job w)" "rw_notes v = rw_notes w"
proof -
  have e: "(rw_job v)\<lparr>jw_remote := undefined\<rparr> = (rw_job w)\<lparr>jw_remote := undefined\<rparr>" and n: "rw_notes v = rw_notes w"
    using assms by (auto simp: untouched_def)
  show "jw_links (rw_job v) = jw_links (rw_job w)" using arg_cong[OF e, of jw_links] by simp
  show "jw_outbox (rw_job v) = jw_outbox (rw_job w)" using arg_cong[OF e, of jw_outbox] by simp
  show "jw_parts (rw_job v) = jw_parts (rw_job w)" using arg_cong[OF e, of jw_parts] by simp
  show "jw_obs (rw_job v) = jw_obs (rw_job w)" using arg_cong[OF e, of jw_obs] by simp
  show "jw_echoes (rw_job v) = jw_echoes (rw_job w)" using arg_cong[OF e, of jw_echoes] by simp
  show "rw_notes v = rw_notes w" by (rule n)
qed

text \<open>The message that reaches the claim.\<close>

lemma on_max_message_cases:
  assumes "rt_for_max_chat rt (im_chat_id m) = Some t" "on_max_message now rt m w = (r, v)"
  shows "untouched w v \<or> (\<exists>u m2. untouched w u \<and> im_chat_id m2 = im_chat_id m \<and> im_message_id m2 = im_message_id m
    \<and> andthen (claim_message now rt t m2) (\<lambda>link. case link of None \<Rightarrow> ret () | Some l \<Rightarrow> deliver_claimed now rt t l m2) u = (r, v))"
proof (cases "is_echo_of_our_own (im_chat_id m) (im_message_id m) (jw_links (rw_job w)) \<or> im_is_outgoing m \<and> \<not> rt_mirrors rt (jw_remote (rw_job w))")
  case True
  then have "v = w"
    using assms by (auto simp: on_max_message_def outside_def on_job_def on_remote_def andthen_def split: if_splits)
  then show ?thesis by simp
next
  case False
  let ?fin = "\<lambda>m2. andthen (claim_message now rt t m2) (\<lambda>link. case link of None \<Rightarrow> ret () | Some l \<Rightarrow> deliver_claimed now rt t l m2)"
  have run: "andthen (name_forward rt m) (\<lambda>m1. andthen (enrich_contact_avatar rt m1) ?fin) w = (r, v)"
    using assms False by (simp add: on_max_message_def outside_def on_job_def on_remote_def andthen_def[of "\<lambda>w. (Inr _, _ w)"])
      (auto simp: andthen_def outside_def on_job_def on_remote_def)
  obtain x u where n: "name_forward rt m w = (x, u)" by fastforce
  have u: "untouched w u" using name_forward_untouched[of w rt m] n by (auto simp: stays_def dest!: spec[of _ w])
  show ?thesis
  proof (cases x)
    case (Inl e)
    then show ?thesis using run n u by (simp add: andthen_def)
  next
    case (Inr m1)
    obtain y z where e: "enrich_contact_avatar rt m1 u = (y, z)" by fastforce
    have z: "untouched w z" using enrich_untouched[of w rt m1] e u by (auto simp: stays_def dest!: spec[of _ u])
    show ?thesis
    proof (cases y)
      case (Inl e')
      then show ?thesis using run n e z Inr by (simp add: andthen_def)
    next
      case (Inr m2)
      then show ?thesis
        using run n e z \<open>x = Inr m1\<close> same_message(1)[OF n[unfolded \<open>x = Inr m1\<close>]] same_message(2)[OF e[unfolded Inr]]
        by (intro disjI2 exI[of _ z] exI[of _ m2]) (simp add: andthen_def)
    qed
  qed
qed

definition known :: "bridge_target \<Rightarrow> incoming \<Rightarrow> 'm router_world \<Rightarrow> bool" where
  "known t m w \<longleftrightarrow> knows_max (jw_links (rw_job w)) (im_chat_id m, im_message_id m, bt_bot_id t)"

lemma claimed_is_filed:
  assumes "sound w" "rt_for_max_chat rt (im_chat_id m) = Some t" "\<not> known t m w"
    and "on_max_message now rt m w = (Inr (), v)" "known t m v"
  shows "filed (message_key m) v"
proof -
  from on_max_message_cases[OF assms(2,4)] show ?thesis
  proof (elim disjE exE conjE)
    assume "untouched w v"
    then have False using assms(3,5) by (simp add: known_def untouched_job)
    then show ?thesis ..
  next
    fix u m2
    assume u: "untouched w u" and ids: "im_chat_id m2 = im_chat_id m" "im_message_id m2 = im_message_id m"
      and run: "andthen (claim_message now rt t m2) (\<lambda>link. case link of None \<Rightarrow> ret () | Some l \<Rightarrow> deliver_claimed now rt t l m2) u
        = (Inr (), v)"
    obtain l mm where c: "claim_from_max now (bt_name t) (im_chat_id m) (im_message_id m) (bt_bot_id t) (rt_owner_chat rt)
        (echo_fingerprint rt m2) (jw_links (rw_job u)) = (l, mm)" by fastforce
    then have cl: "claim_message now rt t m2 u = (Inr l, u\<lparr>rw_job := (rw_job u)\<lparr>jw_links := mm\<rparr>\<rparr>)"
      by (simp add: claim_message_def on_job_def ids)
    have "l \<noteq> None"
      using claim_granted[of now "bt_name t" "im_chat_id m" "im_message_id m" "bt_bot_id t"] assms(3) c u
      by (metis fst_conv known_def untouched_job(1))
    then obtain link where l: "l = Some link" by blast
    have "deliver_claimed now rt t link m2 (u\<lparr>rw_job := (rw_job u)\<lparr>jw_links := mm\<rparr>\<rparr>) = (Inr (), v)"
      using run l by (simp add: andthen_def cl)
    moreover have "sound (u\<lparr>rw_job := (rw_job u)\<lparr>jw_links := mm\<rparr>\<rparr>)"
      using assms(1) untouched_job(2)[OF u] by (simp add: sound_def)
    moreover have "message_key m2 = message_key m" by (simp add: message_key_def ids)
    ultimately show ?thesis
      using tripleD(1)[OF deliver_claimed_files] by metis
  qed
qed

text \<open>C37. No claim without a job. When the router has finished with a message of MAX that it claimed, the queue holds a
  job under the message's own key - delivered, waiting, in question, failed with a reason, or accounted as nothing to
  deliver. A claim that nothing stands behind can only be left by an exception.\<close>

theorem claimed_message_has_a_job:
  assumes "queue_ok (jw_outbox (rw_job w))" "rt_for_max_chat rt (im_chat_id m) = Some t"
    and "\<not> knows_max (jw_links (rw_job w)) (im_chat_id m, im_message_id m, bt_bot_id t)"
    and "on_max_message now rt m w = (Inr (), v)"
    and "knows_max (jw_links (rw_job v)) (im_chat_id m, im_message_id m, bt_bot_id t)"
  shows "\<exists>r\<in>set (rows (jw_outbox (rw_job v))). ob_source_key r = Some (max_source_key (im_chat_id m) (im_message_id m))"
  using claimed_is_filed[of w rt m t now v] assms
  by (auto simp: sound_def known_def filed_def holds_key_def message_key_def)

text \<open>A small service: one bridge, a bot whose calls answer with numbers, MAX that answers 7.\<close>

definition sample_target :: bridge_target where
  "sample_target = \<lparr>bt_name = ''b'', bt_max_chat_id = 5, bt_bot_id = 9\<rparr>"

definition sample_router :: "nat job_ports \<Rightarrow> nat router_ports" where
  "sample_router po =
     \<lparr>rt_job = po\<lparr>jp_bot_text := (\<lambda>bid chat t reply es m. (Inr (Some (int m)), m + 1)),
                 jp_max_text := (\<lambda>chat t reply m. (Inr 7, m + 1))\<rparr>,
      rt_for_max_chat = (\<lambda>chat. Some sample_target), rt_for_bot = (\<lambda>bid. Some sample_target), rt_owner_chat = 100,
      rt_render = \<lparr>rc_clock = (\<lambda>t. None),
        rc_now = \<lparr>mo_at = 0, mo_year = 0, mo_month = 0, mo_day = 0, mo_hour = 0, mo_minute = 0\<rparr>, rc_style = STYLE_OFF\<rparr>,
      rt_sha = id, rt_mirrors = (\<lambda>m. True), rt_own_voice = (\<lambda>m. False), rt_own_media = False, rt_names = None,
      rt_unbridged = None, rt_observed = False\<rparr>"

definition idle_job :: "nat job_world" where
  "idle_job =
     \<lparr>jw_outbox = empty_tbl, jw_marked = False, jw_links = empty_tbl, jw_parts = empty_tbl, jw_obs = (\<lambda>b. None),
      jw_states = [], jw_reactions = [], jw_echoes = [], jw_remote = 1\<rparr>"

definition idle_router :: "nat router_world" where
  "idle_router = \<lparr>rw_job = idle_job, rw_names = [], rw_notes = []\<rparr>"

definition said :: "ucs \<Rightarrow> incoming" where
  "said t =
     \<lparr>im_chat_id = 5, im_message_id = 7, im_is_outgoing = False, im_text = t, im_timestamp = 0, im_attachments = [],
      im_forward = None, im_edited_at = None, im_elements = [], im_reply_to = None\<rparr>"

lemmas sample_defs = sample_target_def sample_router_def idle_job_def idle_router_def said_def

lemma said_renders: "render (rt_render (sample_router po)) (shown (said [104, 105])) True = [104, 105]"
  "edit_entities (prefix_of (rt_render (sample_router po)) (shown (said [104, 105]))) (shown (said [104, 105])) = Inr []"
  "mark_entities (rt_render (sample_router po)) (shown (said [104, 105])) [104, 105] = Inr []"
  by (simp_all add: render_def sample_defs shown_def prefix_of_def stamp_of_def format_stamp_def forward_line_def edit_mark_def
      format_edit_mark_def ustrip_def isspace_def edit_entities_def elements_to_entities_def forward_entities_def
      mark_entities_def List.map_filter_def)

definition said_payload :: json where
  "said_payload = JObj [(''bot_id'', JInt 9), (''chat_id'', JInt 100), (''text'', JStr ''hi''), (''entities'', JNull),
     (''reply_to'', JNull), (''link_id'', JInt 1)]"

lemma said_storable: "storable (text_payload (sample_router po) sample_target 1 [104, 105] [] None) = Some said_payload"
  by (simp add: storable_def text_payload_def entry_def entities_json_def opt_int_def sample_defs said_payload_def utf8_def utf8_char_def)
    code_simp

lemma said_submitted:
  "\<exists>ob. submit_in_order 0 ''b'' MAX_TO_TG KIND_MAX_TO_TG_TEXT (text_payload (sample_router po) sample_target 1 [104, 105] [] None) key empty_tbl
     = Some ((1, True), ob)"
  by (simp add: submit_in_order_def submit_behind_def said_storable enqueue_def by_source_key_def tbl_one_def empty_tbl_def
      tbl_insert_def older_undelivered_def new_item_def claim_for_attempt_def has_key_def Let_def)

lemma sample_ports [simp]:
  "jp_bot_text (rt_job (sample_router po)) = (\<lambda>bid chat t reply es m. (Inr (Some (int m)), m + 1))"
  "jp_max_text (rt_job (sample_router po)) = (\<lambda>chat t reply m. (Inr 7, m + 1))"
  "rt_for_max_chat (sample_router po) chat = Some sample_target" "rt_owner_chat (sample_router po) = 100"
  "rt_mirrors (sample_router po) n" "\<not> rt_own_voice (sample_router po) n" "rt_names (sample_router po) = None"
  "\<not> rt_observed (sample_router po)" "bt_name sample_target = ''b''" "bt_bot_id sample_target = 9"
  "bt_max_chat_id sample_target = 5"
  by (simp_all add: sample_router_def sample_target_def)

lemma said_simps [simp]:
  "im_chat_id (said t) = 5" "im_message_id (said t) = 7" "\<not> im_is_outgoing (said t)" "im_attachments (said t) = []"
  "im_forward (said t) = None" "im_reply_to (said t) = None"
  by (simp_all add: said_def)

lemma said_attempted:
  assumes "attach_telegram_message 1 (int (jw_remote (rw_job w))) (jw_links (rw_job w)) = Inr mm"
  shows "\<exists>s v. attempting 0 (sample_router po) 1 MAX_TO_TG KIND_MAX_TO_TG_TEXT (text_payload (sample_router po) sample_target 1 [104, 105] [] None) w
      = (Inr s, v) \<and> sr_remote_message_id s = Some (int (jw_remote (rw_job w))) \<and> jw_links (rw_job v) = mm"
  using assms
  by (simp add: attempting_def on_job_def said_storable send_job_kinds send_bot_text_def mark_hook_def andthen_def need_int_def
      need_str_def said_payload_def get_int_def get_str_def jget_def on_remote_def settle_telegram_mapping_def pipe_attempt_def
      not_delivered_def)

lemma said_is_sent:
  assumes "rw_job w = \<lparr>jw_outbox = empty_tbl, jw_marked = b, jw_links = empty_tbl, jw_parts = empty_tbl, jw_obs = obs,
      jw_states = [], jw_reactions = [], jw_echoes = [], jw_remote = n\<rparr>"
  shows "\<exists>v. on_max_message 0 (sample_router po) (said [104, 105]) w = (Inr (), v) \<and> known sample_target (said [104, 105]) v"
proof -
  let ?rt = "sample_router po" and ?m = "said [104, 105]"
  obtain mm where c: "claim_from_max 0 ''b'' 5 7 9 100 (echo_fingerprint ?rt ?m) empty_tbl = (Some 1, mm)"
    and at: "\<And>i. \<exists>mm'. attach_telegram_message 1 i mm = Inr mm' \<and> attach_telegram_message 1 i mm' = Inr mm' \<and> knows_max mm' (5, 7, 9)"
    by (simp add: claim_from_max_def tbl_try_insert_def tbl_insert_def empty_tbl_def attach_telegram_message_def
        tbl_try_update_def tbl_update_def no_clash_def knows_max_def)
  obtain ob where sub: "submit_in_order 0 ''b'' MAX_TO_TG KIND_MAX_TO_TG_TEXT
      (text_payload ?rt sample_target 1 [104, 105] [] None) (message_key ?m) empty_tbl = Some ((1, True), ob)"
    using said_submitted by blast
  obtain mm1 where at1: "attach_telegram_message 1 (int n) mm = Inr mm1" "attach_telegram_message 1 (int n) mm1 = Inr mm1"
      "knows_max mm1 (5, 7, 9)" using at by blast
  let ?u = "w\<lparr>rw_job := (rw_job w)\<lparr>jw_links := mm, jw_outbox := ob\<rparr>\<rparr>"
  obtain s v where att: "attempting 0 ?rt 1 MAX_TO_TG KIND_MAX_TO_TG_TEXT (text_payload ?rt sample_target 1 [104, 105] [] None) ?u
      = (Inr s, v)" "sr_remote_message_id s = Some (int n)" "jw_links (rw_job v) = mm1"
    using said_attempted[of ?u mm1 po] at1(1) assms by auto
  show ?thesis
    using assms c sub att at1 said_renders[of po]
    by (simp add: on_max_message_def andthen_def outside_def on_job_def on_remote_def name_forward_def
        enrich_contact_avatar_def claim_message_def deliver_claimed_def Let_def encoded_def telegram_reply_target_def
        deliver_as_owner_def goes_as_owner_def send_text_durably_def submitting_def attach_sent_def noting_def known_def
        is_echo_of_our_own_def tbl_one_def empty_tbl_def)
qed

theorem claimed_message_has_a_job_witness:
  "\<forall>po. list_ex (\<lambda>r. ob_source_key r = Some ''max:5:7'')
     (rows (jw_outbox (rw_job (snd (on_max_message 0 (sample_router po) (said [104, 105]) idle_router)))))"
proof
  fix po
  obtain v where v: "on_max_message 0 (sample_router po) (said [104, 105]) idle_router = (Inr (), v)"
      "known sample_target (said [104, 105]) v"
    using said_is_sent[of idle_router] by (auto simp: idle_router_def idle_job_def)
  have "\<exists>r\<in>set (rows (jw_outbox (rw_job v))). ob_source_key r = Some (max_source_key 5 7)"
    using claimed_message_has_a_job[of idle_router "sample_router po" "said [104, 105]" sample_target 0 v] v
    by (simp add: known_def idle_router_def idle_job_def knows_max_def, simp add: empty_tbl_def)
  moreover have "max_source_key 5 7 = ''max:5:7''" by code_simp
  ultimately show "list_ex (\<lambda>r. ob_source_key r = Some ''max:5:7'')
      (rows (jw_outbox (rw_job (snd (on_max_message 0 (sample_router po) (said [104, 105]) idle_router)))))"
    using v by (auto simp: list_ex_iff)
qed

text \<open>C38. A replay changes nothing. A message MAX sends again - after a reconnect, a backfill or a restart - finds its
  claim: no row, no job, no album part is written, and the observer hears nothing, whatever the ports do now.\<close>

theorem replayed_message_changes_nothing:
  assumes "rt_for_max_chat rt (im_chat_id m) = Some t"
    and "knows_max (jw_links (rw_job w)) (im_chat_id m, im_message_id m, bt_bot_id t)"
    and "v = snd (on_max_message now rt m w)"
  shows "jw_outbox (rw_job v) = jw_outbox (rw_job w) \<and> jw_links (rw_job v) = jw_links (rw_job w)
     \<and> jw_parts (rw_job v) = jw_parts (rw_job w) \<and> rw_notes v = rw_notes w"
proof -
  obtain r where "on_max_message now rt m w = (r, v)" using assms(3) by (metis surjective_pairing)
  from on_max_message_cases[OF assms(1) this] have "untouched w v"
  proof (elim disjE exE conjE)
    fix u m2
    assume u: "untouched w u" and ids: "im_chat_id m2 = im_chat_id m" "im_message_id m2 = im_message_id m"
      and run: "andthen (claim_message now rt t m2) (\<lambda>link. case link of None \<Rightarrow> ret () | Some l \<Rightarrow> deliver_claimed now rt t l m2) u
        = (r, v)"
    have "claim_message now rt t m2 u = (Inr None, u)"
      using assms(2) untouched_job(1)[OF u] by (simp add: claim_message_def on_job_def ids claim_refused)
    then show "untouched w v" using run u by (simp add: andthen_def)
  qed
  then show ?thesis by (simp add: untouched_job)
qed

definition claimed_router :: "nat router_world" where
  "claimed_router = idle_router\<lparr>rw_job := idle_job\<lparr>jw_links := snd (claim_from_max 0 ''b'' 5 7 9 100 None empty_tbl)\<rparr>\<rparr>"

theorem replayed_message_changes_nothing_witness:
  "\<forall>po. jw_outbox (rw_job (snd (on_max_message 3 (sample_router po) (said [104, 105]) claimed_router))) = empty_tbl"
proof
  fix po
  have "knows_max (jw_links (rw_job claimed_router)) (5, 7, 9)"
    by (simp add: claimed_router_def claim_from_max_def tbl_try_insert_def tbl_insert_def empty_tbl_def knows_max_def)
  then show "jw_outbox (rw_job (snd (on_max_message 3 (sample_router po) (said [104, 105]) claimed_router))) = empty_tbl"
    using replayed_message_changes_nothing[of "sample_router po" "said [104, 105]" sample_target claimed_router _ 3]
    by (simp add: claimed_router_def idle_job_def)
qed

subsection \<open>The bridge's own messages\<close>

lemma fan_out_none: "fan_out now payload chunks w \<noteq> (Inr (Some i), v)"
  by (auto simp: fan_out_def need_int_def andthen_def split: option.splits)

lemma sent_text_settled:
  assumes "send_job now po (mark_hook now j) KIND_TG_TO_MAX_TEXT payload w = (Inr (Some i), v)"
  shows "\<exists>u. settle_max_mapping payload i u = (Inr i, v) \<and> jw_links u = jw_links w"
proof -
  have r: "send_max_text now po (mark_hook now j) payload w = (Inr (Some i), v)"
    using assms by (simp add: send_job_kinds)
  obtain t where t: "get_str ''text'' payload = Some t"
    using r by (auto simp: send_max_text_def need_str_def split: option.splits)
  obtain chunks where c: "split_max_text MAX_TEXT_UTF16_LIMIT (decode t) = Inr chunks"
    using r by (auto simp: send_max_text_def need_str_def t split: sum.splits)
  have one: "\<not> length chunks > 1"
    using r by (auto simp: send_max_text_def need_str_def t c fan_out_none)
  obtain chat where chat: "get_int ''max_chat_id'' payload = Some chat"
    using r one by (cases "get_int ''max_chat_id'' payload")
      (auto simp: send_max_text_def need_str_def need_int_def t c mark_hook_def creating_send_def andthen_def split: if_splits)
  let ?w = "w\<lparr>jw_outbox := mark_sending now j (jw_outbox w), jw_marked := True\<rparr>"
  obtain x m where call: "jp_max_text po chat t (get_int ''reply_to'' payload) (jw_remote w) = (x, m)" by fastforce
  have run: "andthen (creating_send (on_remote (jp_max_text po chat t (get_int ''reply_to'' payload))))
      (\<lambda>sent. andthen (settle_max_mapping payload sent) (\<lambda>i. ret (Some i))) ?w = (Inr (Some i), v)"
    using r one by (simp add: send_max_text_def need_str_def need_int_def t c chat mark_hook_def del: One_nat_def)
  obtain sent where sent: "x = Inr sent"
    using run call by (cases x) (auto simp: andthen_def creating_send_def on_remote_def split: failure.splits)
  then have "andthen (settle_max_mapping payload sent) (\<lambda>i. ret (Some i)) (?w\<lparr>jw_remote := m\<rparr>) = (Inr (Some i), v)"
    using run call by (simp add: andthen_def creating_send_def on_remote_def)
  moreover have "settle_max_mapping payload sent u = (Inr k, z) \<Longrightarrow> k = sent" for u k and z :: "'a job_world"
    by (auto simp: settle_max_mapping_def settle_max_delivery_mapping_def split: sum.splits option.splits)
  ultimately have "settle_max_mapping payload i (?w\<lparr>jw_remote := m\<rparr>) = (Inr i, v)"
    by (auto simp: andthen_def split: prod.splits sum.splits)
  then show ?thesis by (intro exI[of _ "?w\<lparr>jw_remote := m\<rparr>"]) simp
qed

lemma settled_links:
  assumes "settle_max_mapping payload i u = (Inr i, v)"
  shows "jw_links v = (case get_int ''link_id'' payload of None \<Rightarrow> jw_links u
     | Some link \<Rightarrow> tbl_update (\<lambda>r. ml_id r = link \<and> (ml_max_message_id r = None \<or> ml_max_message_id r = Some i))
         (\<lambda>r. r\<lparr>ml_max_message_id := Some i\<rparr>) (jw_links u))"
  using assms
  by (auto simp: settle_max_mapping_def settle_max_delivery_mapping_def attach_max_message_def tbl_try_update_def Let_def
      split: option.splits sum.splits if_splits)

text \<open>C39. What the owner typed does not come back. A text carried into MAX with its mapping row settled is recognised when
  MAX echoes it: the router does nothing at all with it.\<close>

theorem own_message_does_not_come_back:
  assumes "send_job now po (mark_hook now j) KIND_TG_TO_MAX_TEXT payload (rw_job w) = (Inr (Some (im_message_id m)), done_job)"
    and "get_int ''link_id'' payload = Some (ml_id r)" "r \<in> set (rows (jw_links (rw_job w)))"
    and "ml_source_marker r = FROM_TG" "ml_max_chat_id r = im_chat_id m" "ml_max_message_id r = None"
    and "rt_for_max_chat rt (im_chat_id m) = Some t"
  shows "on_max_message later rt m (w\<lparr>rw_job := done_job\<rparr>) = (Inr (), w\<lparr>rw_job := done_job\<rparr>)"
proof -
  obtain u where u: "settle_max_mapping payload (im_message_id m) u = (Inr (im_message_id m), done_job)"
      "jw_links u = jw_links (rw_job w)"
    using sent_text_settled[OF assms(1)] by blast
  have "r\<lparr>ml_max_message_id := Some (im_message_id m)\<rparr> \<in> set (rows (jw_links done_job))"
    unfolding settled_links[OF u(1)] using assms(2,3,6) u(2) by (force simp: tbl_update_def)
  then have "is_echo_of_our_own (im_chat_id m) (im_message_id m) (jw_links done_job)"
    using assms(4,5) by (auto simp: is_echo_of_our_own_def tbl_one_None intro!: bexI[of _ "r\<lparr>ml_max_message_id := Some (im_message_id m)\<rparr>"])
  then show ?thesis using assms(7) by (simp add: on_max_message_def andthen_def)
qed

definition typed_payload :: "json" where
  "typed_payload = JObj [(''max_chat_id'', JInt 5), (''text'', JStr ''hi''), (''reply_to'', JNull), (''link_id'', JInt 1)]"

definition typed_link :: message_link where
  "typed_link =
     \<lparr>ml_id = 1, ml_bridge_name = ''b'', ml_max_chat_id = 5, ml_max_message_id = None, ml_telegram_bot_id = 9,
      ml_telegram_chat_id = 100, ml_telegram_message_id = Some 3, ml_direction = TG_TO_MAX, ml_source_marker = FROM_TG,
      ml_created_at = 0, ml_echo_fingerprint = None, ml_owner_message_id = None, ml_owner_account_id = None\<rparr>"

definition typed_router :: "nat router_world" where
  "typed_router = idle_router\<lparr>rw_job := idle_job\<lparr>jw_links := \<lparr>rows = [typed_link], seq = 1\<rparr>\<rparr>\<rparr>"

lemma decode_hi: "split_max_text MAX_TEXT_UTF16_LIMIT (decode ''hi'') = Inr [[104, 105]]"
proof -
  have "decode ''hi'' = [104, 105]" by (simp add: decode_def)
  then show ?thesis
    by (simp add: split_max_text_def utf16_units_def surrogate_def width_def MAX_TEXT_UTF16_LIMIT_def)
qed

lemma typed_sent:
  "fst (send_job 0 (rt_job (sample_router po)) (mark_hook 0 1) KIND_TG_TO_MAX_TEXT typed_payload (rw_job typed_router)) = Inr (Some 7)"
  by (simp add: send_job_kinds send_max_text_def need_str_def need_int_def typed_payload_def get_str_def get_int_def jget_def
      decode_hi mark_hook_def andthen_def creating_send_def on_remote_def settle_max_mapping_def settle_max_delivery_mapping_def
      attach_max_message_def typed_router_def idle_router_def idle_job_def tbl_try_update_def tbl_update_def no_clash_def typed_link_def
      link_by_id_def tbl_one_def)

theorem own_message_does_not_come_back_witness:
  "\<forall>po. let w = typed_router\<lparr>rw_job := snd (send_job 0 (rt_job (sample_router po)) (mark_hook 0 1) KIND_TG_TO_MAX_TEXT typed_payload (rw_job typed_router))\<rparr>
     in on_max_message 4 (sample_router po) (said [104, 105]) w = (Inr (), w)"
proof
  fix po
  let ?s = "send_job 0 (rt_job (sample_router po)) (mark_hook 0 1) KIND_TG_TO_MAX_TEXT typed_payload (rw_job typed_router)"
  have "?s = (Inr (Some (im_message_id (said [104, 105]))), snd ?s)" using typed_sent[of po] by (simp add: prod_eq_iff)
  from own_message_does_not_come_back[OF this, of typed_link "sample_router po" sample_target 4]
  show "let w = typed_router\<lparr>rw_job := snd ?s\<rparr> in on_max_message 4 (sample_router po) (said [104, 105]) w = (Inr (), w)"
    by (simp add: typed_payload_def get_int_def jget_def typed_link_def typed_router_def)
qed

lemma later_part_payload: "\<exists>p. storable (part_of_text t link reply (Suc k) c) = Some p \<and> get_int ''link_id'' p = None"
  by (simp add: storable_def part_of_text_def entry_def get_int_def jget_def)


lemma later_sent:
  "send_job 0 (rt_job (sample_router po)) (mark_hook 0 1) KIND_TG_TO_MAX_TEXT
      (the (storable (part_of_text sample_target 1 None (Suc 0) [104, 105]))) idle_job
    = (Inr (Some 7), idle_job\<lparr>jw_marked := True, jw_remote := 2\<rparr>)"
proof -
  have p: "the (storable (part_of_text sample_target 1 None (Suc 0) [104, 105]))
      = JObj [(''max_chat_id'', JInt 5), (''text'', JStr ''hi''), (''reply_to'', JNull)]"
    by (simp add: storable_def part_of_text_def entry_def opt_int_def utf8_def utf8_char_def) code_simp
  show ?thesis
    by (simp add: p send_job_kinds send_max_text_def need_str_def need_int_def get_str_def get_int_def jget_def decode_hi
        mark_hook_def andthen_def creating_send_def on_remote_def settle_max_mapping_def settle_max_delivery_mapping_def
        idle_job_def mark_sending_def on_id_def tbl_update_def empty_tbl_def)
qed


end
