(* ===== verification/Runner.thy ===== *)
theory Runner
  imports Telegram_Inbox
begin

section \<open>Polling one bot\<close>

text \<open>
  \<open>BotRunner\<close> of \<open>telegram/runner.py\<close>: the polling loop, the durable intake below it and the pass that hands stored
  updates to the dispatcher. One turn of a loop is a function of what the awaited calls answer: Telegram to
  \<open>getUpdates\<close>, the database to each write, the dispatcher to each update. The seconds of the backoff are whole.
\<close>

subsection \<open>The runner\<close>

definition INITIAL_BACKOFF_SECONDS :: int where "INITIAL_BACKOFF_SECONDS = 1"
definition MAX_BACKOFF_SECONDS :: int where "MAX_BACKOFF_SECONDS = 60"
definition MAX_INTAKE_ATTEMPTS :: int where "MAX_INTAKE_ATTEMPTS = 5"

text \<open>\<open>rn_bot_id\<close> is the id given to the constructor, \<open>rn_own_id\<close> that of the aiogram bot; \<open>rn_polling\<close> and
  \<open>rn_working\<close> say that the two tasks still run.\<close>

record runner =
  rn_bot_id :: "int option"
  rn_own_id :: int
  rn_bridge :: string
  rn_durable :: bool
  rn_offset :: "int option"
  rn_backoff :: int
  rn_polling :: bool
  rn_working :: bool

definition the_bot_id :: "runner \<Rightarrow> int" where
  "the_bot_id rn = (case rn_bot_id rn of Some i \<Rightarrow> i | None \<Rightarrow> rn_own_id rn)"

lemma the_bot_id_simps [simp]:
  "the_bot_id (rn\<lparr>rn_offset := o1\<rparr>) = the_bot_id rn" "the_bot_id (rn\<lparr>rn_backoff := b\<rparr>) = the_bot_id rn"
  "the_bot_id (rn\<lparr>rn_polling := p\<rparr>) = the_bot_id rn" "the_bot_id (rn\<lparr>rn_working := p\<rparr>) = the_bot_id rn"
  by (auto simp: the_bot_id_def split: option.split)

text \<open>The tables, and the updates handed to the dispatcher without an inbox.\<close>

record intake =
  ik_inbox :: inbox
  ik_offsets :: offsets
  ik_direct :: "int list"

text \<open>An update is its id and what \<open>storable_update\<close> makes of it: None when the dump raises.\<close>

type_synonym update = "int \<times> json option"

datatype polled =
    Updates "update list"
  | Rate_limited int
  | Token_revoked
  | Poll_failed

text \<open>An error of the read leaves the cursor unset.\<close>

definition resume_offset :: "bool \<Rightarrow> intake \<Rightarrow> runner \<Rightarrow> runner" where
  "resume_offset readable ik rn =
     (case rn_bot_id rn of
        None \<Rightarrow> rn
      | Some i \<Rightarrow>
          if \<not> rn_durable rn \<or> \<not> readable then rn
          else (case inbox_offset i (ik_offsets ik) of None \<Rightarrow> rn | Some n \<Rightarrow> rn\<lparr>rn_offset := Some n\<rparr>))"

definition start_runner :: "bool \<Rightarrow> intake \<Rightarrow> runner \<Rightarrow> runner" where
  "start_runner readable ik rn =
     (if rn_polling rn then rn
      else resume_offset readable ik
        (rn\<lparr>rn_backoff := INITIAL_BACKOFF_SECONDS, rn_polling := True, rn_working := rn_durable rn\<rparr>))"

definition new_runner :: "int option \<Rightarrow> int \<Rightarrow> string \<Rightarrow> bool \<Rightarrow> runner" where
  "new_runner given own bridge durable =
     \<lparr>rn_bot_id = given, rn_own_id = own, rn_bridge = bridge, rn_durable = durable, rn_offset = None,
      rn_backoff = INITIAL_BACKOFF_SECONDS, rn_polling = False, rn_working = False\<rparr>"

text \<open>\<open>db\<close> says which write of this turn the database refuses: an update's, or that of the cursor.\<close>

datatype db_fault = Db_ok | Db_store int | Db_offset

fun store_updates :: "int \<Rightarrow> db_fault \<Rightarrow> runner \<Rightarrow> update list \<Rightarrow> inbox \<Rightarrow> bool \<times> inbox" where
  "store_updates now db rn [] ib = (True, ib)"
| "store_updates now db rn ((i, payload) # us) ib =
     (case payload of
        None \<Rightarrow> (False, ib)
      | Some p \<Rightarrow>
          if db = Db_store i then (False, ib)
          else store_updates now db rn us (snd (inbox_store now (the_bot_id rn) i p (Some (rn_bridge rn)) ib)))"

fun dispatch_through :: "update list \<Rightarrow> runner \<times> intake \<Rightarrow> runner \<times> intake" where
  "dispatch_through [] s = s"
| "dispatch_through ((i, p) # us) (rn, ik) =
     dispatch_through us (rn\<lparr>rn_offset := Some (i + 1)\<rparr>, ik\<lparr>ik_direct := ik_direct ik @ [i]\<rparr>)"

definition take_updates :: "int \<Rightarrow> db_fault \<Rightarrow> update list \<Rightarrow> runner \<times> intake \<Rightarrow> bool \<times> runner \<times> intake" where
  "take_updates now db us = (\<lambda>(rn, ik).
     if \<not> rn_durable rn then (True, dispatch_through us (rn, ik))
     else
       (let (stored, ib) = store_updates now db rn us (ik_inbox ik);
            nxt = Max (set (map fst us)) + 1
        in if \<not> stored then (False, rn, ik\<lparr>ik_inbox := ib\<rparr>)
           else if db = Db_offset then (False, rn\<lparr>rn_offset := Some nxt\<rparr>, ik\<lparr>ik_inbox := ib\<rparr>)
           else (True, rn\<lparr>rn_offset := Some nxt\<rparr>,
                 ik\<lparr>ik_inbox := ib, ik_offsets := remember_offset now (the_bot_id rn) nxt (ik_offsets ik)\<rparr>)))"

definition back_off :: "runner \<Rightarrow> runner" where
  "back_off rn = rn\<lparr>rn_backoff := min (rn_backoff rn * 2) MAX_BACKOFF_SECONDS\<rparr>"

text \<open>One turn of \<open>_poll\<close>, with the seconds it sleeps before the next.\<close>

definition poll_turn :: "int \<Rightarrow> polled \<Rightarrow> db_fault \<Rightarrow> runner \<times> intake \<Rightarrow> int \<times> runner \<times> intake" where
  "poll_turn now answer db s =
     (case answer of
        Rate_limited seconds \<Rightarrow> (seconds, s)
      | Token_revoked \<Rightarrow> (0, (fst s)\<lparr>rn_polling := False\<rparr>, snd s)
      | Poll_failed \<Rightarrow> (rn_backoff (fst s), back_off (fst s), snd s)
      | Updates us \<Rightarrow>
          (let s1 = ((fst s)\<lparr>rn_backoff := INITIAL_BACKOFF_SECONDS\<rparr>, snd s)
           in if us = [] then (0, s1)
              else (let (taken, rn, ik) = take_updates now db us s1
                    in if taken then (0, rn, ik) else (rn_backoff rn, back_off rn, ik))))"

subsection \<open>The pass over the inbox\<close>

datatype handled =
    Unreadable string
  | Handled
  | Handler_cancelled
  | Handler_failed string

text \<open>What is written for an outcome; with \<open>written\<close> false the database refuses it and the error leaves the pass,
  as a cancellation does: the flag returned says whether the pass goes on.\<close>

definition outcome_write :: "int \<Rightarrow> handled \<Rightarrow> inbox_update \<Rightarrow> inbox \<Rightarrow> inbox" where
  "outcome_write now outcome stored =
     (case outcome of
        Unreadable e \<Rightarrow> inbox_mark_failed now (iu_id stored) (''unreadable: '' @ e)
      | Handled \<Rightarrow> inbox_mark_done now (iu_id stored)
      | Handler_cancelled \<Rightarrow> inbox_release now (iu_id stored) ''cancelled during shutdown''
      | Handler_failed e \<Rightarrow>
          if iu_attempts stored + 1 \<ge> MAX_INTAKE_ATTEMPTS then inbox_mark_failed now (iu_id stored) e
          else inbox_release now (iu_id stored) e)"

definition handle_stored :: "int \<Rightarrow> handled \<times> bool \<Rightarrow> inbox_update \<Rightarrow> inbox \<Rightarrow> bool \<times> inbox" where
  "handle_stored now = (\<lambda>(outcome, written) stored ib.
     if written then (outcome \<noteq> Handler_cancelled, outcome_write now outcome stored ib) else (False, ib))"

text \<open>The batch in turn, with the updates the dispatcher took to their end, in that order.\<close>

fun handle_batch ::
  "int \<Rightarrow> (inbox_update \<Rightarrow> handled \<times> bool) \<Rightarrow> inbox_update list \<Rightarrow> inbox \<Rightarrow> bool \<times> int list \<times> inbox" where
  "handle_batch now world [] ib = (True, [], ib)"
| "handle_batch now world (u # us) ib =
     (let done_one = (if fst (world u) = Handled then [iu_update_id u] else []);
          (alive, ib1) = handle_stored now (world u) u ib
      in if \<not> alive then (False, done_one, ib1)
         else (let (alive', log, ib2) = handle_batch now world us ib1 in (alive', done_one @ log, ib2)))"

datatype drained = Drained bool | Intake_ended

definition drain_inbox ::
  "int \<Rightarrow> int \<Rightarrow> bool \<Rightarrow> (inbox_update \<Rightarrow> handled \<times> bool) \<Rightarrow> runner \<Rightarrow> inbox \<Rightarrow> drained \<times> int list \<times> inbox" where
  "drain_inbox now lease readable world rn ib =
     (if \<not> readable then (Drained False, [], ib)
      else
        (let (pending, ib1) = claim_open now 10 lease (Some (the_bot_id rn)) ib;
             (alive, log, ib2) = handle_batch now world pending ib1
         in (if alive then Drained (pending \<noteq> []) else Intake_ended, log, ib2)))"

text \<open>One turn of \<open>_process_inbox\<close>: whether the loop goes on.\<close>

definition process_turn ::
  "bool \<Rightarrow> int \<Rightarrow> int \<Rightarrow> bool \<Rightarrow> (inbox_update \<Rightarrow> handled \<times> bool) \<Rightarrow> runner \<times> inbox \<Rightarrow> int list \<times> runner \<times> inbox" where
  "process_turn stopping now lease readable world = (\<lambda>(rn, ib).
     (let (d, log, ib1) = drain_inbox now lease readable world rn ib
      in (log, rn\<lparr>rn_working := (case d of Intake_ended \<Rightarrow> False | Drained some \<Rightarrow> some \<or> \<not> stopping)\<rparr>, ib1)))"

subsection \<open>One bot between Telegram and the dispatcher\<close>

text \<open>
  Telegram's side, as its Bot API documents it: the ids of updates rise, and \<open>getUpdates\<close> with an offset forgets those
  below it and answers with the first of the rest. \<open>bs_sent\<close> remembers every id Telegram ever had for the bot and
  \<open>bs_handled\<close> those the dispatcher took to their end. A restart is a new process: its runner starts over the tables it
  finds, after the service has taken the leases back.
\<close>

record bot_system =
  bs_sent :: "int set"
  bs_unconfirmed :: "update list"
  bs_runner :: runner
  bs_intake :: intake
  bs_handled :: "int list"

definition asked :: "runner \<Rightarrow> update list \<Rightarrow> update list" where
  "asked rn us = (case rn_offset rn of None \<Rightarrow> us | Some n \<Rightarrow> filter (\<lambda>u. n \<le> fst u) us)"

inductive bot_step :: "bot_system \<Rightarrow> bot_system \<Rightarrow> bool" where
  arrive:
    "\<forall>j\<in>bs_sent s. j < fst u
     \<Longrightarrow> bot_step s (s\<lparr>bs_sent := insert (fst u) (bs_sent s), bs_unconfirmed := bs_unconfirmed s @ [u]\<rparr>)"
| poll:
    "rn_polling (bs_runner s) \<Longrightarrow> rest = asked (bs_runner s) (bs_unconfirmed s)
     \<Longrightarrow> poll_turn now (Updates (take n rest)) db (bs_runner s, bs_intake s) = (seconds, rn, ik)
     \<Longrightarrow> bot_step s (s\<lparr>bs_unconfirmed := rest, bs_runner := rn, bs_intake := ik\<rparr>)"
| poll_lost:
    "rn_polling (bs_runner s) \<Longrightarrow> rest \<in> {bs_unconfirmed s, asked (bs_runner s) (bs_unconfirmed s)}
     \<Longrightarrow> answer \<in> {Rate_limited pause, Token_revoked, Poll_failed}
     \<Longrightarrow> poll_turn now answer db (bs_runner s, bs_intake s) = (seconds, rn, ik)
     \<Longrightarrow> bot_step s (s\<lparr>bs_unconfirmed := rest, bs_runner := rn, bs_intake := ik\<rparr>)"
| work:
    "rn_working (bs_runner s)
     \<Longrightarrow> process_turn stopping now lease readable world (bs_runner s, ik_inbox (bs_intake s)) = (log, rn, ib)
     \<Longrightarrow> bot_step s (s\<lparr>bs_runner := rn, bs_intake := (bs_intake s)\<lparr>ik_inbox := ib\<rparr>,
           bs_handled := bs_handled s @ log\<rparr>)"
| restart:
    "fresh = new_runner (rn_bot_id (bs_runner s)) (rn_own_id (bs_runner s)) (rn_bridge (bs_runner s)) (rn_durable (bs_runner s))
     \<Longrightarrow> ik = (bs_intake s)\<lparr>ik_inbox := snd (requeue_leased now (ik_inbox (bs_intake s)))\<rparr>
     \<Longrightarrow> bot_step s (s\<lparr>bs_runner := start_runner readable ik fresh, bs_intake := ik\<rparr>)"

definition fresh_bot :: "int option \<Rightarrow> int \<Rightarrow> string \<Rightarrow> bot_system" where
  "fresh_bot given own bridge =
     \<lparr>bs_sent = {}, bs_unconfirmed = [], bs_runner = new_runner given own bridge True,
      bs_intake = \<lparr>ik_inbox = empty_tbl, ik_offsets = (\<lambda>_. None), ik_direct = []\<rparr>, bs_handled = []\<rparr>"

inductive reachable_bot :: "int option \<Rightarrow> int \<Rightarrow> string \<Rightarrow> bot_system \<Rightarrow> bool" for given own bridge where
  boot: "reachable_bot given own bridge (fresh_bot given own bridge)"
| move: "reachable_bot given own bridge s \<Longrightarrow> bot_step s t \<Longrightarrow> reachable_bot given own bridge t"

subsection \<open>What a turn leaves of the inbox\<close>

text \<open>A row is finished only when the dispatcher took it, or it was given up after the last attempt or unread.\<close>

definition row_settled :: "int set \<Rightarrow> inbox_update \<Rightarrow> bool" where
  "row_settled H r \<longleftrightarrow>
     (iu_state r = IN_DONE \<longrightarrow> iu_update_id r \<in> H)
     \<and> (iu_state r = IN_FAILED \<longrightarrow> MAX_INTAKE_ATTEMPTS \<le> iu_attempts r
          \<or> (\<exists>e. iu_last_error r = Some (take 500 (''unreadable: '' @ e))))"

definition rows_settled :: "int set \<Rightarrow> inbox \<Rightarrow> bool" where
  "rows_settled H ib \<longleftrightarrow> inbox_ok ib \<and> (\<forall>r\<in>set (rows ib). row_settled H r)"

lemma rows_settled_mono: "rows_settled H ib \<Longrightarrow> H \<subseteq> H' \<Longrightarrow> rows_settled H' ib"
  by (auto simp: rows_settled_def row_settled_def)

lemma rows_settled_update:
  assumes "rows_settled H ib" "inbox_ok (tbl_update P f ib)"
    and "\<And>r. r \<in> set (rows ib) \<Longrightarrow> P r \<Longrightarrow> row_settled H r \<Longrightarrow> row_settled H (f r)"
  shows "rows_settled H (tbl_update P f ib)"
  using assms by (auto simp: rows_settled_def)

lemma knows_mark:
  assumes "\<And>r. iu_bot_id (f r) = iu_bot_id r \<and> iu_update_id (f r) = iu_update_id r"
  shows "knows_update (tbl_update P f ib) k = knows_update ib k"
proof -
  let ?key = "\<lambda>r. (iu_bot_id r, iu_update_id r)"
  have known: "knows_update ib k \<longleftrightarrow> k \<in> ?key ` set (rows ib)" for ib by (auto simp: knows_update_def)
  have "?key ` set (rows (tbl_update P f ib)) = ?key ` set (rows ib)"
    unfolding rows_update set_map image_image using assms by (intro image_cong) auto
  then show ?thesis unfolding known by simp
qed

lemma inbox_calls_keep:
  "knows_update (outcome_write now out u ib) k = knows_update ib k"
  "knows_update (snd (requeue_leased now ib)) k = knows_update ib k"
  "knows_update (snd (claim_open now n l b ib)) k = knows_update ib k"
  by (simp_all add: outcome_write_def inbox_mark_failed_def inbox_mark_done_def inbox_release_def requeue_leased_def
      claim_open_def Let_def knows_mark split: handled.split)

lemma knows_after_store:
  "knows_update (snd (inbox_store now b i p br ib)) k \<longleftrightarrow> k = (b, i) \<or> knows_update ib k"
  by (auto simp: inbox_store_cases knows_update_def)

lemma store_updates_keeps:
  "knows_update ib k \<Longrightarrow> knows_update (snd (store_updates now db rn us ib)) k"
  by (induction now db rn us ib rule: store_updates.induct) (auto simp: knows_after_store split: option.split)

lemma store_updates_all:
  "fst (store_updates now db rn us ib) \<Longrightarrow> u \<in> set us
   \<Longrightarrow> knows_update (snd (store_updates now db rn us ib)) (the_bot_id rn, fst u)"
proof (induction now db rn us ib rule: store_updates.induct)
  case (2 now db rn i payload us ib)
  let ?ib = "\<lambda>p. snd (inbox_store now (the_bot_id rn) i p (Some (rn_bridge rn)) ib)"
  obtain p where p: "payload = Some p" "db \<noteq> Db_store i" and ok: "fst (store_updates now db rn us (?ib p))"
    using 2(2) by (auto split: option.splits if_splits)
  have "knows_update (snd (store_updates now db rn us (?ib p))) (the_bot_id rn, i)"
    by (rule store_updates_keeps) (simp add: knows_after_store)
  with 2 p ok show ?case by auto
qed simp

lemma rows_settled_store:
  "rows_settled H ib \<Longrightarrow> rows_settled H (snd (inbox_store now b i p br ib))"
  using inbox_ok_store[of ib now b i p br] by (auto simp: rows_settled_def inbox_store_cases row_settled_def)

lemma store_updates_settled:
  "rows_settled H ib \<Longrightarrow> rows_settled H (snd (store_updates now db rn us ib))"
  by (induction now db rn us ib rule: store_updates.induct) (auto simp: rows_settled_store split: option.split)

text \<open>The batch works on what it read: its copies agree with the rows they were taken from.\<close>

definition agrees :: "inbox \<Rightarrow> inbox_update list \<Rightarrow> bool" where
  "agrees ib us \<longleftrightarrow> (\<forall>u\<in>set us. \<forall>r\<in>set (rows ib). iu_id r = iu_id u
     \<longrightarrow> iu_attempts r = iu_attempts u \<and> iu_update_id r = iu_update_id u)"

lemma outcome_write_ok: "inbox_ok ib \<Longrightarrow> inbox_ok (outcome_write now out u ib)"
  by (simp add: outcome_write_def inbox_ok_ops split: handled.split)

lemma outcome_write_other:
  "r \<in> set (rows (outcome_write now out u ib)) \<Longrightarrow> iu_id r \<noteq> iu_id u \<Longrightarrow> r \<in> set (rows ib)"
  by (auto simp: outcome_write_def inbox_mark_failed_def inbox_mark_done_def inbox_release_def
      split: handled.splits if_splits)

lemma outcome_write_settled:
  assumes "rows_settled H ib" "agrees ib (u # us)"
  shows "rows_settled (H \<union> set (if out = Handled then [iu_update_id u] else [])) (outcome_write now out u ib)"
proof -
  have row: "row_settled (insert (iu_update_id u) H) r" if "r \<in> set (rows ib)" for r
    using assms(1) that by (auto simp: rows_settled_def row_settled_def)
  have mem: "r \<in> set (rows ib) \<Longrightarrow> row_settled H r" for r using assms(1) by (simp add: rows_settled_def)
  have ok: "inbox_ok (outcome_write now out u ib)" using assms(1) by (simp add: rows_settled_def outcome_write_ok)
  show ?thesis
  proof (cases out)
    case (Handler_failed e)
    then show ?thesis using assms ok mem
      by (auto simp: rows_settled_def agrees_def outcome_write_def inbox_mark_failed_def inbox_release_def)
        (auto simp: row_settled_def)
  qed (use assms ok mem row in \<open>auto simp: rows_settled_def agrees_def outcome_write_def inbox_mark_failed_def
      inbox_mark_done_def inbox_release_def\<close>, auto simp: row_settled_def)
qed

lemma handle_batch_settled:
  assumes "rows_settled H ib" "agrees ib us" "distinct (map iu_id us)"
    "handle_batch now world us ib = (alive, log, ib')"
  shows "rows_settled (H \<union> set log) ib'"
  using assms
proof (induction us arbitrary: H ib alive log ib')
  case (Cons u us)
  obtain out written where w: "world u = (out, written)" by fastforce
  let ?one = "if out = Handled then [iu_update_id u] else []"
  show ?case
  proof (cases written)
    case True
    let ?ib = "outcome_write now out u ib"
    have one: "rows_settled (H \<union> set ?one) ?ib" using outcome_write_settled[OF Cons.prems(1,2)] .
    have "agrees ?ib us"
      using Cons.prems(2,3) outcome_write_other[of _ now out u ib] by (fastforce simp: agrees_def)
    note more = Cons.IH[OF one this]
    show ?thesis
      using Cons.prems(3,4) w True one more
      by (auto simp: handle_stored_def Let_def Un_assoc split: if_splits prod.splits)
  next
    case False
    then have "log = ?one" "ib' = ib" using Cons.prems(4) w by (auto simp: handle_stored_def Let_def)
    then show ?thesis using rows_settled_mono[OF Cons.prems(1), of "H \<union> set log"] by simp
  qed
qed simp

lemma handle_batch_knows:
  "knows_update (snd (snd (handle_batch now world us ib))) k = knows_update ib k"
proof (induction us arbitrary: ib)
  case (Cons u us)
  obtain out written where w: "world u = (out, written)" by fastforce
  show ?case using Cons.IH[of "outcome_write now out u ib"]
    by (simp add: w handle_stored_def Let_def split_beta inbox_calls_keep)
qed simp

lemma claim_open_settled:
  assumes "rows_settled H ib" "claim_open now n l b ib = (us, ib')"
  shows "rows_settled H ib'" "agrees ib' us" "distinct (map iu_id us)"
proof -
  have ok: "inbox_ok ib" using assms(1) by (simp add: rows_settled_def)
  let ?picked = "take n (sort_key iu_id (tbl_select (inbox_open now b) ib))"
  have us: "us = map (\<lambda>r. r\<lparr>iu_state := LEASED\<rparr>) ?picked" and ib': "ib' = (if ?picked = [] then ib
      else tbl_update (\<lambda>x. iu_id x \<in> set (map iu_id ?picked)) (\<lambda>x. x\<lparr>iu_state := LEASED,
        iu_lease_expires_at := Some (now + l), iu_updated_at := now\<rparr>) ib)"
    using assms(2) by (auto simp: claim_open_def Let_def)
  have sub: "set ?picked \<subseteq> set (rows ib)" by (auto simp: tbl_select_def dest!: in_set_takeD)
  have "rows_settled H ib'"
    using inbox_ok_claim_open[OF ok, of now n l b] assms
    by (auto simp: ib' rows_settled_def row_settled_def)
  then show "rows_settled H ib'" .
  have same: "r = p" if "r \<in> set (rows ib)" "p \<in> set ?picked" "iu_id r = iu_id p" for r p
    using inbox_id_unique[OF ok that(1) _ that(3)] sub that(2) by auto
  show "agrees ib' us"
    unfolding agrees_def us ib' by (auto split: if_splits dest: same)
  have "distinct (map iu_id (rows ib))" using tbl_ok_distinct[of iu_id iu_clash ib] ok by (simp add: inbox_ok_def)
  then have "distinct (map iu_id (sort_key iu_id (tbl_select (inbox_open now b) ib)))"
    by (simp add: distinct_map inj_on_def tbl_select_def)
  then show "distinct (map iu_id us)" by (simp add: us comp_def take_map[symmetric] distinct_take)
qed

subsection \<open>Nothing is acknowledged before it is on disk\<close>

text \<open>A cursor is covered when all that lies below it is on disk and something sent reaches up to it.\<close>

definition covered :: "int \<Rightarrow> int set \<Rightarrow> inbox \<Rightarrow> int \<Rightarrow> bool" where
  "covered bid sent ib n \<longleftrightarrow> (\<forall>i\<in>sent. i < n \<longrightarrow> knows_update ib (bid, i)) \<and> (\<exists>i\<in>sent. n \<le> i + 1)"

definition cursors :: "int \<Rightarrow> runner \<Rightarrow> intake \<Rightarrow> int set" where
  "cursors bid rn ik = set_option (rn_offset rn) \<union> set_option (inbox_offset bid (ik_offsets ik))"

definition bot_ok :: "int \<Rightarrow> bot_system \<Rightarrow> bool" where
  "bot_ok bid s \<longleftrightarrow>
     the_bot_id (bs_runner s) = bid \<and> rn_durable (bs_runner s)
     \<and> (\<forall>i\<in>bs_sent s. i \<in> fst ` set (bs_unconfirmed s) \<or> knows_update (ik_inbox (bs_intake s)) (bid, i))
     \<and> fst ` set (bs_unconfirmed s) \<subseteq> bs_sent s \<and> sorted_wrt (<) (map fst (bs_unconfirmed s))
     \<and> (\<forall>n\<in>cursors bid (bs_runner s) (bs_intake s). covered bid (bs_sent s) (ik_inbox (bs_intake s)) n)
     \<and> rows_settled (set (bs_handled s)) (ik_inbox (bs_intake s))"

lemma asked_simps:
  "set (asked rn us) = {u \<in> set us. \<forall>n. rn_offset rn = Some n \<longrightarrow> n \<le> fst u}"
  "sorted_wrt (<) (map fst us) \<Longrightarrow> sorted_wrt (<) (map fst (asked rn us))"
  by (auto simp: asked_def sorted_wrt_map sorted_wrt_filter split: option.split)

lemma bot_ok_asked:
  assumes "bot_ok bid s" "rest \<in> {bs_unconfirmed s, asked (bs_runner s) (bs_unconfirmed s)}"
  shows "bot_ok bid (s\<lparr>bs_unconfirmed := rest\<rparr>)"
proof -
  have "i \<in> fst ` set rest \<or> knows_update (ik_inbox (bs_intake s)) (bid, i)" if i: "i \<in> bs_sent s" for i
  proof (cases "\<exists>n. rn_offset (bs_runner s) = Some n \<and> i < n")
    case True
    then show ?thesis using assms(1) i by (auto simp: bot_ok_def covered_def cursors_def)
  next
    case False
    then show ?thesis using assms i by (force simp: bot_ok_def asked_simps)
  qed
  moreover have "set rest \<subseteq> set (bs_unconfirmed s)" using assms(2) by (auto simp: asked_simps)
  then have "fst ` set rest \<subseteq> bs_sent s" using assms(1) by (auto simp: bot_ok_def dest!: image_mono[of "set rest" _ fst])
  moreover have "sorted_wrt (<) (map fst rest)" using assms asked_simps(2) by (auto simp: bot_ok_def)
  ultimately show ?thesis using assms(1) by (auto simp: bot_ok_def)
qed

lemma poll_turn_frame:
  assumes "poll_turn now answer db (rn, ik) = (seconds, rn', ik')" "rn_durable rn"
  shows "the_bot_id rn' = the_bot_id rn \<and> rn_durable rn'"
    and "knows_update (ik_inbox ik) k \<Longrightarrow> knows_update (ik_inbox ik') k"
    and "rows_settled H (ik_inbox ik) \<Longrightarrow> rows_settled H (ik_inbox ik')"
proof -
  note d = poll_turn_def take_updates_def Let_def split_beta back_off_def
  show "the_bot_id rn' = the_bot_id rn \<and> rn_durable rn'"
    using assms by (auto simp: d split: polled.splits if_splits)
  show "knows_update (ik_inbox ik) k \<Longrightarrow> knows_update (ik_inbox ik') k"
    using assms by (auto simp: d store_updates_keeps split: polled.splits if_splits)
  show "rows_settled H (ik_inbox ik) \<Longrightarrow> rows_settled H (ik_inbox ik')"
    using assms by (auto simp: d store_updates_settled split: polled.splits if_splits)
qed

lemma poll_turn_cursors:
  assumes "poll_turn now answer db (rn, ik) = (seconds, rn', ik')" "rn_durable rn" "bid = the_bot_id rn"
    "n \<in> cursors bid rn' ik'"
  shows "n \<in> cursors bid rn ik
    \<or> (\<exists>us. answer = Updates us \<and> us \<noteq> [] \<and> n = Max (set (map fst us)) + 1
         \<and> (\<forall>u\<in>set us. knows_update (ik_inbox ik') (bid, fst u)))"
proof (cases answer)
  case (Updates us)
  let ?b = "rn\<lparr>rn_backoff := INITIAL_BACKOFF_SECONDS\<rparr>"
  obtain stored ib where st: "store_updates now db ?b us (ik_inbox ik) = (stored, ib)" by fastforce
  have b: "the_bot_id ?b = bid" using assms(3) by simp
  have all: "stored \<Longrightarrow> \<forall>u\<in>set us. knows_update ib (bid, fst u)"
    using store_updates_all[of now db ?b us "ik_inbox ik"] st b by auto
  show ?thesis
    using assms Updates st all b
    by (auto simp: poll_turn_def take_updates_def back_off_def Let_def cursors_def inbox_offset_def remember_offset_def
        max_def split: if_splits option.splits)
qed (use assms in \<open>auto simp: poll_turn_def cursors_def back_off_def\<close>)

text \<open>Taking a prefix of what is left moves the cursor over updates that are on disk.\<close>

lemma covered_after_prefix:
  assumes "sorted_wrt (<) (map fst rest)" "fst ` set rest \<subseteq> sent"
    and known: "\<forall>i\<in>sent. i \<in> fst ` set rest \<or> knows_update ib (bid, i)"
    and us: "us = take k rest" "us \<noteq> []" "\<forall>u\<in>set us. knows_update ib (bid, fst u)"
  shows "covered bid sent ib (Max (set (map fst us)) + 1)"
proof -
  let ?m = "Max (set (map fst us))"
  have m: "?m \<in> fst ` set us" using Max_in[of "set (map fst us)"] us(2) by simp
  define later where "later = drop k rest"
  have rest: "rest = us @ later" unfolding us(1) later_def by simp
  then have sub: "set us \<subseteq> set rest" by simp
  have order: "\<forall>x\<in>set us. \<forall>y\<in>set later. fst x < fst y" using assms(1) by (auto simp: rest sorted_wrt_append)
  have "knows_update ib (bid, i)" if i: "i \<in> sent" "i < ?m + 1" for i
  proof (cases "i \<in> fst ` set us")
    case False
    have "i \<notin> fst ` set later" using order m i(2) by force
    then show ?thesis using known i(1) False by (auto simp: rest)
  qed (use us(3) in auto)
  moreover have "?m \<in> sent" using m sub assms(2) by auto
  ultimately show ?thesis by (auto simp: covered_def intro!: bexI[of _ ?m])
qed

lemma covered_insert: "covered b S ib n \<Longrightarrow> \<forall>j\<in>S. j < i \<Longrightarrow> covered b (insert i S) ib n"
  by (fastforce simp: covered_def)

lemma bot_step_ok:
  assumes "bot_step s t" "bot_ok bid s"
  shows "bot_ok bid t"
  using assms
proof (induction rule: bot_step.induct)
  case (arrive s u)
  then show ?case
    by (auto simp: bot_ok_def sorted_wrt_append covered_insert)
next
  case (poll s rest now n db seconds rn ik)
  let ?r = "bs_runner s" and ?i = "bs_intake s"
  have s': "bot_ok bid (s\<lparr>bs_unconfirmed := rest\<rparr>)" using bot_ok_asked[OF poll(4)] poll(2) by simp
  have frame: "the_bot_id rn = bid" "rn_durable rn" "rows_settled (set (bs_handled s)) (ik_inbox ik)"
    "\<And>k. knows_update (ik_inbox ?i) k \<Longrightarrow> knows_update (ik_inbox ik) k"
    using poll_turn_frame[OF poll(3)] poll(4) by (auto simp: bot_ok_def)
  have known: "\<forall>i\<in>bs_sent s. i \<in> fst ` set rest \<or> knows_update (ik_inbox ik) (bid, i)"
    using s' frame(4) by (auto simp: bot_ok_def)
  have "covered bid (bs_sent s) (ik_inbox ik) m" if "m \<in> cursors bid rn ik" for m
  proof -
    have "rn_durable ?r" "bid = the_bot_id ?r" using poll(4) by (auto simp: bot_ok_def)
    note step = poll_turn_cursors[OF poll(3) this that]
    consider "m \<in> cursors bid ?r ?i"
      | "take n rest \<noteq> []" "m = Max (set (map fst (take n rest))) + 1"
        "\<forall>u\<in>set (take n rest). knows_update (ik_inbox ik) (bid, fst u)"
      using step by blast
    then show ?thesis
    proof cases
      case 1
      then show ?thesis using poll(4) frame(4) by (auto simp: bot_ok_def covered_def)
    next
      case 2
      show ?thesis unfolding 2(2)
        using covered_after_prefix[OF _ _ known refl 2(1,3)] s' by (auto simp: bot_ok_def)
    qed
  qed
  then show ?case using s' known frame by (auto simp: bot_ok_def)
next
  case (poll_lost s rest answer pause now db seconds rn ik)
  have s': "bot_ok bid (s\<lparr>bs_unconfirmed := rest\<rparr>)" using bot_ok_asked[OF poll_lost(5) poll_lost(2)] .
  have "ik = bs_intake s" "rn_offset rn = rn_offset (bs_runner s)" "rn_durable rn = rn_durable (bs_runner s)"
    "the_bot_id rn = the_bot_id (bs_runner s)"
    using poll_lost(3,4) by (auto simp: poll_turn_def back_off_def)
  then show ?case using s' by (auto simp: bot_ok_def cursors_def)
next
  case (work s stopping now lease readable world log rn ib)
  let ?ib = "ik_inbox (bs_intake s)"
  have rn: "the_bot_id rn = bid" "rn_durable rn" "rn_offset rn = rn_offset (bs_runner s)"
    using work(2) work(3) by (auto simp: process_turn_def Let_def bot_ok_def split: prod.splits)
  obtain pending ib1 where c: "claim_open now 10 lease (Some bid) ?ib = (pending, ib1)" by fastforce
  have st: "rows_settled (set (bs_handled s)) ?ib" using work(3) by (simp add: bot_ok_def)
  obtain alive log' ib2 where b: "handle_batch now world pending ib1 = (alive, log', ib2)" by (metis prod_cases3)
  have "ib = (if readable then ib2 else ?ib)" "log = (if readable then log' else [])"
    using work(2) work(3) c b by (auto simp: process_turn_def drain_inbox_def Let_def bot_ok_def split: if_splits)
  moreover have "rows_settled (set (bs_handled s) \<union> set log') ib2"
    using handle_batch_settled[OF claim_open_settled[OF st c] b] .
  moreover have "knows_update ib2 k = knows_update ?ib k" for k
    using handle_batch_knows[of now world pending ib1 k] inbox_calls_keep(3)[of now 10 lease "Some bid" ?ib k] b c by simp
  ultimately show ?case using work(3) rn st by (auto simp: bot_ok_def cursors_def covered_def)
next
  case (restart "fresh" s ik now readable)
  have "rn_durable fresh" "the_bot_id fresh = bid" "rn_offset fresh = None"
    using restart(1) restart(3) by (auto simp: new_runner_def the_bot_id_def bot_ok_def split: option.split)
  then have "cursors bid (start_runner readable ik fresh) ik \<subseteq> cursors bid (bs_runner s) (bs_intake s)"
    "rn_durable (start_runner readable ik fresh)" "the_bot_id (start_runner readable ik fresh) = bid"
    using restart(2) by (auto simp: start_runner_def resume_offset_def cursors_def the_bot_id_def split: option.splits if_splits)
  moreover have "rows_settled (set (bs_handled s)) (ik_inbox ik)"
    using restart(3) inbox_ok_marks(4)[of "ik_inbox (bs_intake s)" now] restart(2)
    by (auto simp: bot_ok_def rows_settled_def requeue_leased_def row_settled_def)
  ultimately show ?case using restart(3) restart(2)
    by (auto simp: bot_ok_def covered_def inbox_calls_keep)
qed

lemma reachable_bot_ok:
  "reachable_bot given own bridge s \<Longrightarrow> bot_ok (the_bot_id (new_runner given own bridge True)) s"
proof (induction rule: reachable_bot.induct)
  case boot
  then show ?case
    by (simp add: bot_ok_def fresh_bot_def the_bot_id_def new_runner_def cursors_def inbox_offset_def rows_settled_def)
      (simp add: empty_tbl_def)
qed (rule bot_step_ok)

text \<open>An update Telegram has been told to forget is on disk: in every state the bot can reach - through lost answers,
  refused writes, dying passes and restarts between any two steps - an update Telegram ever had is either still there
  to be fetched again or has its row in the inbox, and that row is open, or was handled by the dispatcher, or was given
  up after five attempts or as unreadable.\<close>

theorem acknowledged_update_is_stored:
  assumes "reachable_bot given own bridge s" "i \<in> bs_sent s"
  shows "i \<in> fst ` set (bs_unconfirmed s)
    \<or> (\<exists>r\<in>set (rows (ik_inbox (bs_intake s))).
          iu_bot_id r = the_bot_id (bs_runner s) \<and> iu_update_id r = i
          \<and> (iu_state r \<in> {RECEIVED, LEASED} \<or> iu_state r = IN_DONE \<and> i \<in> set (bs_handled s)
             \<or> iu_state r = IN_FAILED \<and> (MAX_INTAKE_ATTEMPTS \<le> iu_attempts r
                  \<or> (\<exists>e. iu_last_error r = Some (take 500 (''unreadable: '' @ e))))))"
proof -
  have ok: "bot_ok (the_bot_id (new_runner given own bridge True)) s" by (rule reachable_bot_ok[OF assms(1)])
  then have bid: "the_bot_id (bs_runner s) = the_bot_id (new_runner given own bridge True)" by (simp add: bot_ok_def)
  have "row_settled (set (bs_handled s)) r" if "r \<in> set (rows (ik_inbox (bs_intake s)))" for r
    using ok that by (simp add: bot_ok_def rows_settled_def)
  moreover have "iu_state r \<in> {RECEIVED, LEASED, IN_DONE, IN_FAILED}" for r by (cases "iu_state r") auto
  moreover have "i \<in> fst ` set (bs_unconfirmed s) \<or> knows_update (ik_inbox (bs_intake s)) (the_bot_id (bs_runner s), i)"
    using ok assms(2) unfolding bid by (auto simp: bot_ok_def)
  ultimately show ?thesis by (fastforce simp: knows_update_def row_settled_def)
qed

definition sample_bot :: bot_system where
  "sample_bot =
     (let up = start_runner True \<lparr>ik_inbox = empty_tbl, ik_offsets = (\<lambda>_. None), ik_direct = []\<rparr> (new_runner (Some 7) 7 ''b'' True);
          taken = snd (poll_turn 5 (Updates [(1, Some (JStr ''hello''))]) Db_ok
            (up, \<lparr>ik_inbox = empty_tbl, ik_offsets = (\<lambda>_. None), ik_direct = []\<rparr>))
      in \<lparr>bs_sent = {1}, bs_unconfirmed = [], bs_runner = fst taken, bs_intake = snd taken, bs_handled = []\<rparr>)"

lemma sample_bot_reached: "reachable_bot (Some 7) 7 ''b'' sample_bot"
proof -
  let ?u = "(1::int, Some (JStr ''hello''))" and ?s0 = "fresh_bot (Some 7) 7 ''b''"
  let ?s1 = "?s0\<lparr>bs_sent := {1}, bs_unconfirmed := [?u]\<rparr>"
  let ?ik = "\<lparr>ik_inbox = empty_tbl, ik_offsets = (\<lambda>_. None), ik_direct = []\<rparr>"
  let ?up = "start_runner True ?ik (new_runner (Some 7) 7 ''b'' True)"
  let ?s2 = "?s1\<lparr>bs_runner := ?up\<rparr>"
  define t where "t = snd (poll_turn 5 (Updates [?u]) Db_ok (?up, ?ik))"
  let ?s3 = "?s2\<lparr>bs_runner := fst t, bs_intake := snd t\<rparr>"
  have "bot_step ?s0 ?s1" using bot_step.arrive[of ?s0 ?u] by (simp add: fresh_bot_def)
  then have 1: "reachable_bot (Some 7) 7 ''b'' ?s1" using boot move by blast
  have "snd (requeue_leased 5 empty_tbl) = (empty_tbl :: inbox)" by (simp add: requeue_leased_def empty_tbl_def tbl_update_def)
  then have "bot_step ?s1 ?s2" using bot_step.restart[OF refl refl, of ?s1 5 True] by (simp add: fresh_bot_def new_runner_def)
  then have 2: "reachable_bot (Some 7) 7 ''b'' ?s2" using 1 move by blast
  have "bot_step ?s2 (?s2\<lparr>bs_unconfirmed := [?u], bs_runner := fst t, bs_intake := snd t\<rparr>)"
    by (rule bot_step.poll[of _ _ _ 10 Db_ok "fst (poll_turn 5 (Updates [?u]) Db_ok (?up, ?ik))"])
      (simp_all add: t_def start_runner_def resume_offset_def inbox_offset_def fresh_bot_def new_runner_def asked_def)
  then have 3: "reachable_bot (Some 7) 7 ''b'' ?s3" using 2 move by (simp add: fresh_bot_def)
  have off: "rn_polling (fst t)" "rn_offset (fst t) = Some 2"
    by (simp_all add: t_def poll_turn_def take_updates_def start_runner_def resume_offset_def inbox_offset_def new_runner_def Let_def split_beta)
  have "bot_step ?s3 (?s3\<lparr>bs_unconfirmed := [], bs_runner := (fst t)\<lparr>rn_backoff := INITIAL_BACKOFF_SECONDS\<rparr>, bs_intake := snd t\<rparr>)"
    by (rule bot_step.poll[of _ _ 6 0 Db_ok 0]) (simp_all add: off asked_def poll_turn_def Let_def fresh_bot_def)
  moreover have "(fst t)\<lparr>rn_backoff := INITIAL_BACKOFF_SECONDS\<rparr> = fst t"
    by (simp add: t_def poll_turn_def take_updates_def start_runner_def resume_offset_def inbox_offset_def new_runner_def Let_def split_beta)
  ultimately have "bot_step ?s3 sample_bot" by (simp add: t_def sample_bot_def Let_def fresh_bot_def)
  then show ?thesis using 3 move by blast
qed

theorem acknowledged_update_is_stored_witness:
  "\<exists>r\<in>set (rows (ik_inbox (bs_intake sample_bot))). iu_bot_id r = the_bot_id (bs_runner sample_bot) \<and> iu_update_id r = 1"
  using acknowledged_update_is_stored[OF sample_bot_reached, of 1] by (auto simp: sample_bot_def Let_def)

text \<open>The backoff is reset by the answer of \<open>getUpdates\<close>, so a batch that cannot be stored is fetched again every
  second, for as long as it is there: the doubling after a failed intake is never felt.\<close>

theorem failed_intake_never_backs_off:
  "rn_durable rn \<Longrightarrow> us \<noteq> [] \<Longrightarrow> db = Db_offset \<or> (\<exists>i. (i, None) \<in> set us)
   \<Longrightarrow> fst (poll_turn now (Updates us) db (rn, ik)) = INITIAL_BACKOFF_SECONDS"
proof -
  have "(i, None) \<in> set us \<Longrightarrow> \<not> fst (store_updates now db rn us ib)" for i ib rn
    by (induction now db rn us ib rule: store_updates.induct) (auto split: option.split)
  then show "rn_durable rn \<Longrightarrow> us \<noteq> [] \<Longrightarrow> db = Db_offset \<or> (\<exists>i. (i, None) \<in> set us)
   \<Longrightarrow> fst (poll_turn now (Updates us) db (rn, ik)) = INITIAL_BACKOFF_SECONDS"
    by (auto simp: poll_turn_def take_updates_def Let_def split_beta)
qed

definition two_stored :: inbox where
  "two_stored = snd (inbox_store 0 7 2 (JStr ''second'') None (snd (inbox_store 0 7 1 (JStr ''first'') None empty_tbl)))"

text \<open>An update whose handler fails once is released and overtaken by the rest of the batch that was claimed with
  it: the pass goes on, and the next one dispatches it after its successor.\<close>

theorem failed_update_is_overtaken:
  "let rn = new_runner (Some 7) 7 ''b'' True;
       flaky = (\<lambda>u. (if iu_update_id u = 1 \<and> iu_attempts u = 0 then Handler_failed ''network'' else Handled, True));
       (d1, first_pass, ib1) = drain_inbox 5 60 True flaky rn two_stored;
       (d2, second_pass, ib2) = drain_inbox 6 60 True flaky rn ib1
   in first_pass = [2] \<and> second_pass = [1]"
  by code_simp

text \<open>A write of an outcome that the database refuses ends the task: the update stays leased, the updates behind it
  stay leased, and the runner has no worker until it is started anew.\<close>

theorem refused_outcome_ends_the_intake:
  "let rn = (new_runner (Some 7) 7 ''b'' True)\<lparr>rn_polling := True, rn_working := True\<rparr>;
       (log, rn1, ib1) = process_turn False 5 60 True (\<lambda>u. (Handled, False)) (rn, two_stored)
   in \<not> rn_working rn1 \<and> rn_polling rn1 \<and> log = [1] \<and> map iu_state (rows ib1) = [LEASED, LEASED]
      \<and> start_runner True \<lparr>ik_inbox = ib1, ik_offsets = (\<lambda>_. None), ik_direct = []\<rparr> rn1 = rn1"
  by code_simp

end
