(* ===== verification/Onboarding_State.thy ===== *)
theory Onboarding_State
  imports Schema Presentation
begin

section \<open>Where onboarding is, written down\<close>

text \<open>
  \<open>onboarding/state.py\<close>: the record, the JSON file that holds it and the store with its cache;
  \<open>onboarding/tokens.py\<close>: the one-time link; \<open>phone.py\<close>: what counts as a phone number. Dataclass fields are
  not checked when the file is read, so every field but the three that are parsed holds whatever JSON value was
  there. SHA-256 is an argument.
\<close>

subsection \<open>The record\<close>

datatype stage = BOOTSTRAP_CONFIGURED | BOT_RUNNING | MAX_ONBOARDING_PENDING | MAX_SESSION_VALID | BRIDGE_RUNNING

datatype step =
    IDLE
  | WAITING_FOR_TIMEZONE
  | WAITING_FOR_PHONE_CHOICE
  | WAITING_FOR_PHONE
  | WAITING_FOR_CODE
  | WAITING_FOR_2FA
  | VALIDATING
  | SAVING
  | STARTING_BRIDGE
  | COMPLETED

fun stage_value :: "stage \<Rightarrow> string" where
  "stage_value BOOTSTRAP_CONFIGURED = ''bootstrap_configured''"
| "stage_value BOT_RUNNING = ''bot_running''"
| "stage_value MAX_ONBOARDING_PENDING = ''max_onboarding_pending''"
| "stage_value MAX_SESSION_VALID = ''max_session_valid''"
| "stage_value BRIDGE_RUNNING = ''bridge_running''"

fun step_value :: "step \<Rightarrow> string" where
  "step_value IDLE = ''idle''"
| "step_value WAITING_FOR_TIMEZONE = ''waiting_for_timezone''"
| "step_value WAITING_FOR_PHONE_CHOICE = ''waiting_for_phone_choice''"
| "step_value WAITING_FOR_PHONE = ''waiting_for_phone''"
| "step_value WAITING_FOR_CODE = ''waiting_for_code''"
| "step_value WAITING_FOR_2FA = ''waiting_for_2fa''"
| "step_value VALIDATING = ''validating''"
| "step_value SAVING = ''saving''"
| "step_value STARTING_BRIDGE = ''starting_bridge''"
| "step_value COMPLETED = ''completed''"

definition all_stages :: "stage list" where
  "all_stages = [BOOTSTRAP_CONFIGURED, BOT_RUNNING, MAX_ONBOARDING_PENDING, MAX_SESSION_VALID, BRIDGE_RUNNING]"

definition all_steps :: "step list" where
  "all_steps = [IDLE, WAITING_FOR_TIMEZONE, WAITING_FOR_PHONE_CHOICE, WAITING_FOR_PHONE, WAITING_FOR_CODE, WAITING_FOR_2FA,
     VALIDATING, SAVING, STARTING_BRIDGE, COMPLETED]"

text \<open>The rank in which a deployment goes through the stages.\<close>

fun stage_rank :: "stage \<Rightarrow> nat" where
  "stage_rank BOOTSTRAP_CONFIGURED = 0"
| "stage_rank BOT_RUNNING = 1"
| "stage_rank MAX_ONBOARDING_PENDING = 2"
| "stage_rank MAX_SESSION_VALID = 3"
| "stage_rank BRIDGE_RUNNING = 4"

definition EPHEMERAL_STEPS :: "step set" where
  "EPHEMERAL_STEPS = {WAITING_FOR_CODE, WAITING_FOR_2FA, VALIDATING, SAVING}"

record onboarding =
  og_stage :: stage
  og_step :: step
  og_owner :: json
  og_guardian :: json
  og_phone_mode :: json
  og_mirror :: json
  og_naming :: json
  og_token :: json
  og_token_expires :: json
  og_token_used :: json
  og_chat :: json
  og_message :: json
  og_notifications :: "(string \<times> int) list"
  og_revision :: json
  og_updated :: json

definition new_onboarding :: onboarding where
  "new_onboarding =
     \<lparr>og_stage = BOOTSTRAP_CONFIGURED, og_step = IDLE, og_owner = JInt 0, og_guardian = JNull, og_phone_mode = JNull,
      og_mirror = JNull, og_naming = JNull, og_token = JNull, og_token_expires = JNull, og_token_used = JNull,
      og_chat = JNull, og_message = JNull, og_notifications = [], og_revision = JInt 0, og_updated = JInt 0\<rparr>"

definition max_ready :: "onboarding \<Rightarrow> bool" where
  "max_ready r \<longleftrightarrow> og_stage r \<in> {MAX_SESSION_VALID, BRIDGE_RUNNING}"

subsection \<open>The file\<close>

datatype disk = No_file | Unreadable_file | Holds json

definition onboarding_json :: "onboarding \<Rightarrow> json" where
  "onboarding_json r = JObj
     [(''stage'', JStr (stage_value (og_stage r))), (''step'', JStr (step_value (og_step r))),
      (''owner_user_id'', og_owner r), (''guardian_username'', og_guardian r), (''max_phone_mode'', og_phone_mode r),
      (''mirror_own_messages'', og_mirror r), (''guardian_naming'', og_naming r), (''token_digest'', og_token r),
      (''token_expires_at'', og_token_expires r), (''token_used_at'', og_token_used r), (''status_chat_id'', og_chat r),
      (''status_message_id'', og_message r),
      (''notifications'', JObj (map (\<lambda>(k, i). (k, JInt i)) (og_notifications r))),
      (''screen_revision'', og_revision r), (''updated_at'', og_updated r)]"

text \<open>The last of two equal keys wins in a parsed object; a missing key leaves the default.\<close>

definition jfield :: "(string \<times> json) list \<Rightarrow> string \<Rightarrow> json \<Rightarrow> json" where
  "jfield kvs k d = (case map_of (rev kvs) k of None \<Rightarrow> d | Some v \<Rightarrow> v)"

definition parse_enum :: "('e \<Rightarrow> string) \<Rightarrow> 'e list \<Rightarrow> json \<Rightarrow> 'e option" where
  "parse_enum val xs j = (case j of JStr s \<Rightarrow> find (\<lambda>x. val x = s) xs | _ \<Rightarrow> None)"

fun int_entries :: "(string \<times> json) list \<Rightarrow> (string \<times> int) list" where
  "int_entries [] = []"
| "int_entries ((k, JInt i) # d) = (k, i) # int_entries d"
| "int_entries ((k, JBool b) # d) = (k, if b then 1 else 0) # int_entries d"
| "int_entries ((k, v) # d) = int_entries d"

definition parse_notifications :: "json \<Rightarrow> (string \<times> int) list" where
  "parse_notifications j = (case j of JObj d \<Rightarrow> int_entries d | _ \<Rightarrow> [])"

definition parse_onboarding :: "json \<Rightarrow> onboarding" where
  "parse_onboarding raw =
     (case raw of
        JObj kvs \<Rightarrow>
          (case (parse_enum stage_value all_stages (jfield kvs ''stage'' (JStr (stage_value BOOTSTRAP_CONFIGURED))),
                 parse_enum step_value all_steps (jfield kvs ''step'' (JStr (step_value IDLE)))) of
             (Some stg, Some stp) \<Rightarrow>
               \<lparr>og_stage = stg, og_step = stp, og_owner = jfield kvs ''owner_user_id'' (JInt 0),
                og_guardian = jfield kvs ''guardian_username'' JNull, og_phone_mode = jfield kvs ''max_phone_mode'' JNull,
                og_mirror = jfield kvs ''mirror_own_messages'' JNull, og_naming = jfield kvs ''guardian_naming'' JNull,
                og_token = jfield kvs ''token_digest'' JNull, og_token_expires = jfield kvs ''token_expires_at'' JNull,
                og_token_used = jfield kvs ''token_used_at'' JNull, og_chat = jfield kvs ''status_chat_id'' JNull,
                og_message = jfield kvs ''status_message_id'' JNull,
                og_notifications = parse_notifications (jfield kvs ''notifications'' (JObj [])),
                og_revision = jfield kvs ''screen_revision'' (JInt 0), og_updated = jfield kvs ''updated_at'' (JInt 0)\<rparr>
           | _ \<Rightarrow> new_onboarding)
      | _ \<Rightarrow> new_onboarding)"

definition read_disk :: "disk \<Rightarrow> onboarding" where
  "read_disk d = (case d of Holds j \<Rightarrow> parse_onboarding j | _ \<Rightarrow> new_onboarding)"

subsection \<open>The store\<close>

record state_store =
  ss_disk :: disk
  ss_cached :: "onboarding option"

definition rewound :: "onboarding \<Rightarrow> onboarding" where
  "rewound r = (if og_step r \<in> EPHEMERAL_STEPS then r\<lparr>og_step := WAITING_FOR_PHONE\<rparr> else r)"

definition load_record :: "state_store \<Rightarrow> onboarding \<times> state_store" where
  "load_record s =
     (case ss_cached s of
        Some r \<Rightarrow> (r, s)
      | None \<Rightarrow> (let r = rewound (read_disk (ss_disk s)) in (r, s\<lparr>ss_cached := Some r\<rparr>)))"

definition save_record :: "int \<Rightarrow> onboarding \<Rightarrow> state_store \<Rightarrow> state_store" where
  "save_record now r s =
     (let stamped = r\<lparr>og_updated := JInt now\<rparr>
      in s\<lparr>ss_disk := Holds (onboarding_json stamped), ss_cached := Some stamped\<rparr>)"

text \<open>The changes of a call are a function on the record; the base is what the file holds.\<close>

definition update_record :: "int \<Rightarrow> (onboarding \<Rightarrow> onboarding) \<Rightarrow> state_store \<Rightarrow> state_store" where
  "update_record now changes s = save_record now (changes (rewound (read_disk (ss_disk s)))) s"

abbreviation loaded :: "state_store \<Rightarrow> onboarding" where
  "loaded s \<equiv> fst (load_record s)"

subsection \<open>The one-time link\<close>

datatype verdict_of_link = LINK_OK | LINK_UNKNOWN | LINK_EXPIRED | LINK_USED | LINK_WRONG_OWNER

definition issue_token :: "(string \<Rightarrow> string) \<Rightarrow> int \<Rightarrow> int \<Rightarrow> string \<Rightarrow> string \<times> string \<times> int" where
  "issue_token digest ttl now plaintext = (plaintext, digest plaintext, now + ttl)"

definition verify_token ::
  "(string \<Rightarrow> string) \<Rightarrow> string \<Rightarrow> json \<Rightarrow> json \<Rightarrow> json \<Rightarrow> int \<Rightarrow> int \<Rightarrow> int \<Rightarrow> verdict_of_link" where
  "verify_token digest presented expected expires used owner sender now =
     (if sender \<noteq> owner then LINK_WRONG_OWNER
      else if expected \<in> {JNull, JStr []} then LINK_UNKNOWN
      else if expected \<noteq> JStr (digest presented) then LINK_UNKNOWN
      else if used \<noteq> JNull then LINK_USED
      else (case expires of JInt e \<Rightarrow> if now > e then LINK_EXPIRED else LINK_OK | _ \<Rightarrow> LINK_OK))"

text \<open>\<open>/start\<close> of the guardian's router: who may speak, the link it carries, and the mark of its use.\<close>

definition start_command ::
  "(string \<Rightarrow> string) \<Rightarrow> int \<Rightarrow> int \<Rightarrow> string \<Rightarrow> int \<Rightarrow> state_store \<Rightarrow> verdict_of_link option \<times> state_store" where
  "start_command digest owner sender payload now s =
     (if sender \<noteq> owner then (Some LINK_WRONG_OWNER, s)
      else
        (let (r, s1) = load_record s
         in if payload = [] then (None, s1)
            else (let v = verify_token digest payload (og_token r) (og_token_expires r) (og_token_used r) owner sender now
                  in (Some v, if v = LINK_OK then update_record now (\<lambda>r. r\<lparr>og_token_used := JInt now\<rparr>) s1 else s1))))"

text \<open>The handoff writes the digest and never the token.\<close>

definition hand_off_record :: "(string \<Rightarrow> string) \<Rightarrow> int \<Rightarrow> int \<Rightarrow> int \<Rightarrow> string \<Rightarrow> string \<Rightarrow> state_store \<Rightarrow> state_store" where
  "hand_off_record digest now ttl owner username plaintext s =
     (case issue_token digest ttl now plaintext of (_, d, e) \<Rightarrow>
        update_record now (\<lambda>r. r\<lparr>og_stage := MAX_ONBOARDING_PENDING, og_owner := JInt owner, og_guardian := JStr username,
          og_token := JStr d, og_token_expires := JInt e, og_token_used := JNull\<rparr>) s)"

text \<open>Confirmation screens carry the revision; drawing one and honouring one both move it on.\<close>

definition bump_revision :: "int \<Rightarrow> state_store \<Rightarrow> int \<times> state_store" where
  "bump_revision now s =
     (let revision = (case og_revision (loaded s) of JInt i \<Rightarrow> i | _ \<Rightarrow> 0) + 1
      in (revision, update_record now (\<lambda>r. r\<lparr>og_revision := JInt revision\<rparr>) (snd (load_record s))))"

definition honour_restart :: "int \<Rightarrow> int option \<Rightarrow> state_store \<Rightarrow> bool \<times> state_store" where
  "honour_restart now presented s =
     (if presented = None \<or> map_option JInt presented \<noteq> Some (og_revision (loaded s)) then (False, snd (load_record s))
      else (True, snd (bump_revision now s)))"

subsection \<open>Phone numbers\<close>

definition SEPARATORS :: "nat set" where "SEPARATORS = {32, 45, 40, 41, 160}"

text \<open>\<open>^\+\d{7,15}$\<close>; the dollar also stands before a final newline.\<close>

definition phone_match :: "ucs \<Rightarrow> bool" where
  "phone_match t \<longleftrightarrow>
     (case t of [] \<Rightarrow> False
      | c # ds \<Rightarrow> c = 43 \<and>
          (let body = (if ds \<noteq> [] \<and> last ds = 10 then butlast ds else ds)
           in 7 \<le> length body \<and> length body \<le> 15 \<and> list_all is_digit body))"

definition normalize_phone :: "ucs \<Rightarrow> ucs option" where
  "normalize_phone value =
     (let t0 = filter (\<lambda>c. c \<notin> SEPARATORS) (ustrip value);
          t1 = (if take 1 t0 = [56] \<and> length t0 = 11 then [43, 55] @ drop 1 t0 else t0);
          t2 = (if take 1 t1 = [43] then t1 else 43 # t1)
      in if phone_match t2 then Some t2 else None)"

subsection \<open>What is written is what is read\<close>

lemma parse_stage [simp]: "parse_enum stage_value all_stages (JStr (stage_value x)) = Some x"
  by (cases x) (simp_all add: parse_enum_def all_stages_def)

lemma parse_step [simp]: "parse_enum step_value all_steps (JStr (step_value x)) = Some x"
  by (cases x) (simp_all add: parse_enum_def all_steps_def)

lemma int_entries_map [simp]: "int_entries (map (\<lambda>(k, i). (k, JInt i)) d) = d"
  by (induction d) auto

lemma read_written: "read_disk (Holds (onboarding_json r)) = r"
  by (simp add: read_disk_def onboarding_json_def parse_onboarding_def jfield_def parse_notifications_def)

lemma rewound_idem [simp]: "rewound (rewound r) = rewound r"
  by (simp add: rewound_def EPHEMERAL_STEPS_def)

lemma rewound_fields [simp]:
  "og_stage (rewound r) = og_stage r" "og_token (rewound r) = og_token r" "og_token_used (rewound r) = og_token_used r"
  "og_token_expires (rewound r) = og_token_expires r" "og_notifications (rewound r) = og_notifications r"
  "og_revision (rewound r) = og_revision r" "og_chat (rewound r) = og_chat r" "og_message (rewound r) = og_message r"
  by (simp_all add: rewound_def)

lemma loaded_simps [simp]:
  "loaded \<lparr>ss_disk = d, ss_cached = None\<rparr> = rewound (read_disk d)"
  "loaded \<lparr>ss_disk = d, ss_cached = Some r\<rparr> = r"
  by (simp_all add: load_record_def Let_def)

lemma read_no_file [simp]: "read_disk No_file = new_onboarding"
  by (simp add: read_disk_def)

lemma update_record_disk:
  "read_disk (ss_disk (update_record now f s)) = (f (rewound (read_disk (ss_disk s))))\<lparr>og_updated := JInt now\<rparr>"
  by (simp add: update_record_def save_record_def Let_def read_written)

lemma update_record_cached:
  "ss_cached (update_record now f s) = Some ((f (rewound (read_disk (ss_disk s))))\<lparr>og_updated := JInt now\<rparr>)"
  by (simp add: update_record_def save_record_def Let_def)

lemma loaded_updated [simp]:
  "loaded (update_record now f s) = (f (rewound (read_disk (ss_disk s))))\<lparr>og_updated := JInt now\<rparr>"
  by (simp add: load_record_def update_record_cached)

text \<open>The stage and every other field survive a restart as they were saved; of the step, what the process that died
  was waiting for becomes the question for a phone number, whatever was being typed.\<close>

theorem record_survives_a_restart:
  "loaded \<lparr>ss_disk = ss_disk (save_record now r s), ss_cached = None\<rparr> = rewound (r\<lparr>og_updated := JInt now\<rparr>)"
  by (simp add: load_record_def save_record_def Let_def read_written)

text \<open>A second store over the same file, whatever it has cached, rolls nothing back: its update starts from what the
  first one wrote.\<close>

theorem no_update_is_rolled_back:
  assumes "ss_disk stale = ss_disk (update_record now f s)"
  shows "read_disk (ss_disk (update_record now' g stale))
    = (g (rewound ((f (rewound (read_disk (ss_disk s))))\<lparr>og_updated := JInt now\<rparr>)))\<lparr>og_updated := JInt now'\<rparr>"
  using update_record_disk[of now' g stale] by (simp add: assms update_record_disk)

theorem no_update_is_rolled_back_witness:
  "let s = \<lparr>ss_disk = No_file, ss_cached = None\<rparr>;
       t = update_record 1 (\<lambda>r. r\<lparr>og_notifications := [(''max'', 5)]\<rparr>) s;
       stale = \<lparr>ss_disk = ss_disk t, ss_cached = Some new_onboarding\<rparr>
   in og_notifications (read_disk (ss_disk (update_record 2 (\<lambda>r. r\<lparr>og_revision := JInt 1\<rparr>) stale))) = [(''max'', 5)]"
proof -
  let ?s = "\<lparr>ss_disk = No_file, ss_cached = None\<rparr>" and ?f = "\<lambda>r. r\<lparr>og_notifications := [(''max'', 5)]\<rparr>"
  have "ss_disk \<lparr>ss_disk = ss_disk (update_record 1 ?f ?s), ss_cached = Some new_onboarding\<rparr> = ss_disk (update_record 1 ?f ?s)"
    by simp
  from no_update_is_rolled_back[OF this, of 2 "\<lambda>r. r\<lparr>og_revision := JInt 1\<rparr>"] show ?thesis by (simp add: Let_def)
qed

text \<open>The same rewinding makes every write an end to the question that is outstanding: a counter saved while a code is
  awaited leaves the store waiting for a phone number.\<close>

theorem any_write_ends_the_question:
  assumes "og_step (read_disk (ss_disk s)) \<in> {WAITING_FOR_CODE, WAITING_FOR_2FA}" "\<And>r. og_step (f r) = og_step r"
  shows "og_step (loaded (update_record now f s)) = WAITING_FOR_PHONE"
  using assms by (auto simp: rewound_def EPHEMERAL_STEPS_def)

theorem any_write_ends_the_question_witness:
  "let s = update_record 1 (\<lambda>r. r\<lparr>og_step := WAITING_FOR_CODE\<rparr>) \<lparr>ss_disk = No_file, ss_cached = None\<rparr>
   in og_step (loaded s) = WAITING_FOR_CODE
      \<and> og_step (loaded (update_record 2 (\<lambda>r. r\<lparr>og_notifications := []\<rparr>) s)) = WAITING_FOR_PHONE"
proof -
  have "og_step (read_disk (ss_disk (update_record 1 (\<lambda>r. r\<lparr>og_step := WAITING_FOR_CODE\<rparr>) \<lparr>ss_disk = No_file, ss_cached = None\<rparr>)))
      \<in> {WAITING_FOR_CODE, WAITING_FOR_2FA}" by (simp add: update_record_disk)
  then have "og_step (loaded (update_record 2 (\<lambda>r. r\<lparr>og_notifications := []\<rparr>)
      (update_record 1 (\<lambda>r. r\<lparr>og_step := WAITING_FOR_CODE\<rparr>) \<lparr>ss_disk = No_file, ss_cached = None\<rparr>))) = WAITING_FOR_PHONE"
    by (rule any_write_ends_the_question) simp
  then show ?thesis by simp
qed

text \<open>A link opens once: after the start that accepted it, no start is accepted, of any sender, with any payload, at
  any time, by this process or by the next one.\<close>

theorem link_opens_once:
  assumes "start_command digest owner sender payload now s = (Some LINK_OK, s')"
  shows "fst (start_command digest owner sender' payload' now' s') \<noteq> Some LINK_OK"
    "fst (start_command digest owner sender' payload' now' \<lparr>ss_disk = ss_disk s', ss_cached = None\<rparr>) \<noteq> Some LINK_OK"
proof -
  obtain t where s': "s' = update_record now (\<lambda>r. r\<lparr>og_token_used := JInt now\<rparr>) t"
    using assms by (auto simp: start_command_def Let_def split_beta split: if_splits)
  have used: "og_token_used (loaded s') = JInt now"
    "og_token_used (loaded \<lparr>ss_disk = ss_disk s', ss_cached = None\<rparr>) = JInt now"
    by (simp_all add: s' update_record_disk)
  have never: "fst (start_command digest owner sender' payload' now' v) \<noteq> Some LINK_OK"
    if "og_token_used (loaded v) = JInt now" for v
    using that by (auto simp: start_command_def verify_token_def Let_def split_beta)
  show "fst (start_command digest owner sender' payload' now' s') \<noteq> Some LINK_OK" by (rule never[OF used(1)])
  show "fst (start_command digest owner sender' payload' now' \<lparr>ss_disk = ss_disk s', ss_cached = None\<rparr>) \<noteq> Some LINK_OK"
    by (rule never[OF used(2)])
qed

definition handed_off :: state_store where
  "handed_off = hand_off_record rev 3600 1000 7 ''guard'' ''key'' \<lparr>ss_disk = No_file, ss_cached = None\<rparr>"

theorem link_opens_once_witness:
  "start_command rev 7 7 ''key'' 2000 handed_off = (Some LINK_OK, snd (start_command rev 7 7 ''key'' 2000 handed_off))
   \<and> fst (start_command rev 7 7 ''key'' 2001 (snd (start_command rev 7 7 ''key'' 2000 handed_off))) \<noteq> Some LINK_OK"
proof -
  have "fst (start_command rev 7 7 ''key'' 2000 handed_off) = Some LINK_OK"
    by (simp add: start_command_def handed_off_def hand_off_record_def issue_token_def verify_token_def Let_def split_beta)
  then have "start_command rev 7 7 ''key'' 2000 handed_off = (Some LINK_OK, snd (start_command rev 7 7 ''key'' 2000 handed_off))"
    by (simp add: prod_eq_iff)
  from this link_opens_once(1)[OF this, of 7 "''key''" 2001] show ?thesis by blast
qed

text \<open>A confirmation is honoured once, and a screen drawn after it makes it stale.\<close>

theorem confirmation_honoured_once:
  assumes "honour_restart now p s = (True, s')"
  shows "fst (honour_restart now' p s') = False" "fst (honour_restart now' p (snd (bump_revision now' s))) = False"
proof -
  obtain i where i: "p = Some i" using assms by (cases p) (auto simp: honour_restart_def)
  then have s': "og_revision (loaded s) = JInt i" "s' = snd (bump_revision now s)"
    using assms by (auto simp: honour_restart_def split: if_splits)
  have next_one: "og_revision (loaded (snd (bump_revision t s))) = JInt (i + 1)" for t
    by (simp add: bump_revision_def Let_def s')
  show "fst (honour_restart now' p s') = False" "fst (honour_restart now' p (snd (bump_revision now' s))) = False"
    using next_one by (simp_all add: honour_restart_def s' i)
qed

theorem confirmation_honoured_once_witness:
  "let s = snd (bump_revision 1 \<lparr>ss_disk = No_file, ss_cached = None\<rparr>)
   in fst (honour_restart 2 (Some 1) s) \<and> \<not> fst (honour_restart 3 (Some 1) (snd (honour_restart 2 (Some 1) s)))"
proof -
  let ?s = "snd (bump_revision 1 \<lparr>ss_disk = No_file, ss_cached = None\<rparr>)"
  have "og_revision (loaded ?s) = JInt 1"
    by (simp add: bump_revision_def Let_def new_onboarding_def)
  then have "honour_restart 2 (Some 1) ?s = (True, snd (honour_restart 2 (Some 1) ?s))" by (simp add: honour_restart_def)
  from confirmation_honoured_once(1)[OF this, of 3] this show ?thesis by (simp add: Let_def prod_eq_iff)
qed

text \<open>A number that is accepted is a plus and seven to fifteen digits, and is accepted again as it is - unless a line
  break stood between its last digit and a separator.\<close>

lemma digits_not_separators:
  assumes "list_all is_digit ds"
  shows "filter (\<lambda>c. c \<notin> SEPARATORS) ds = ds"
proof -
  have "\<not> is_digit 32" "\<not> is_digit 45" "\<not> is_digit 40" "\<not> is_digit 41" "\<not> is_digit 160"
    by (simp_all add: is_digit_def digit_starts_def)
  then show ?thesis using assms by (intro filter_True) (auto simp: SEPARATORS_def list_all_iff)
qed

lemma ascii_digit: "48 \<le> c \<Longrightarrow> c \<le> 57 \<Longrightarrow> is_digit c"
  by (simp add: is_digit_def digit_starts_def)

lemmas number_simps = normalize_phone_def ustrip_def asc_def isspace_def SEPARATORS_def phone_match_def ascii_digit Let_def

lemma digit_not_space: "is_digit c \<Longrightarrow> \<not> isspace c"
  by (auto simp: is_digit_def digit_starts_def isspace_def)

theorem phone_number_is_settled:
  assumes "normalize_phone value = Some p" "10 \<notin> set p"
  shows "normalize_phone p = Some p \<and> hd p = 43 \<and> list_all is_digit (tl p) \<and> length (tl p) \<in> {7..15}"
proof -
  have m: "phone_match p" using assms(1) by (auto simp: normalize_phone_def Let_def split: if_splits)
  obtain ds where p: "p = 43 # ds" using m by (cases p) (auto simp: phone_match_def)
  have "\<not> (ds \<noteq> [] \<and> last ds = 10)" using assms(2) last_in_set[of ds] unfolding p by force
  then have ds: "list_all is_digit ds" "7 \<le> length ds" "length ds \<le> 15" using m by (auto simp: p phone_match_def)
  have "\<forall>c\<in>set ds. \<not> isspace c" using ds(1) digit_not_space by (auto simp: list_all_iff)
  moreover have "ds \<noteq> []" using ds(2) by auto
  ultimately have "\<not> isspace (last ds)" "ds \<noteq> []" by auto
  then have "dropWhile isspace (rev (43 # ds)) = rev (43 # ds)" by (cases ds rule: rev_cases) auto
  then have "ustrip p = p" by (simp add: ustrip_def p isspace_def del: rev.simps)
  then have "normalize_phone p = Some p"
    using m digits_not_separators[OF ds(1)] by (simp add: normalize_phone_def p SEPARATORS_def Let_def)
  then show ?thesis using ds by (simp add: p)
qed

theorem phone_number_is_settled_witness:
  "normalize_phone (asc ''8 (900) 123-45-67'') = Some (asc ''+79001234567'')
   \<and> normalize_phone (asc ''+79001234567'') = Some (asc ''+79001234567'')"
proof -
  have 1: "normalize_phone (asc ''8 (900) 123-45-67'') = Some (asc ''+79001234567'')" by (simp add: number_simps)
  have 2: "10 \<notin> set (asc ''+79001234567'')" by (simp add: asc_def)
  show ?thesis using phone_number_is_settled[OF 1 2] 1 by blast
qed

theorem line_break_is_kept_in_a_number:
  "normalize_phone (asc ''+79001234567'' @ [10, 40]) = Some (asc ''+79001234567'' @ [10])"
  by (simp add: number_simps)

end
