(* ===== verification/Onboarding_Flow.thy ===== *)
theory Onboarding_Flow
  imports Onboarding_State
begin

section \<open>Connecting MAX\<close>

text \<open>
  \<open>onboarding/fsm.py\<close>, \<open>onboarding/maxauth.py\<close>, \<open>onboarding/board.py\<close> and what \<open>service/telemax.py\<close> gives them:
  the conversation that logs the owner in to MAX, and the worker it starts. A handler is a function of the machine and
  of the answers it gets (\<open>ports\<close>): Telegram to the guardian's message, the configuration, the phone the console
  logged in with. A login is a task; what happens to it - a question, an answer that does not come, its end - is an
  event of its own. Texts of the owner are code points; a screen is its name with what is drawn into it.
\<close>

subsection \<open>The gateway of a login\<close>

datatype question = Q_CODE | Q_PASSWORD

record gateway =
  gw_pending :: bool
  gw_question :: "question option"
  gw_asked :: "question \<Rightarrow> nat"
  gw_answer :: "ucs option"

definition new_gateway :: gateway where
  "new_gateway = \<lparr>gw_pending = False, gw_question = None, gw_asked = (\<lambda>_. 0), gw_answer = None\<rparr>"

text \<open>\<open>submit\<close>, \<open>abandon\<close> and the opening of \<open>_collect\<close>; the answer is what the awaiting login gets.\<close>

definition gateway_submit :: "ucs \<Rightarrow> gateway \<Rightarrow> bool \<times> gateway" where
  "gateway_submit value g =
     (let g' = g\<lparr>gw_pending := False, gw_question := None\<rparr>
      in if gw_pending g then (True, g'\<lparr>gw_answer := Some (ustrip value)\<rparr>) else (False, g'))"

definition gateway_abandon :: "gateway \<Rightarrow> gateway" where
  "gateway_abandon g = g\<lparr>gw_pending := False, gw_question := None\<rparr>"

definition gateway_collect :: "question \<Rightarrow> gateway \<Rightarrow> nat \<times> gateway" where
  "gateway_collect q g =
     (let n = gw_asked g q + 1
      in (n, g\<lparr>gw_asked := (gw_asked g)(q := n), gw_pending := True, gw_question := Some q, gw_answer := None\<rparr>))"

subsection \<open>The machine\<close>

datatype sentence = MAX_REFUSED_IT | MAX_DID_NOT_ANSWER | MAX_IS_AWAY | ATTEMPT_INTERRUPTED | Says string

datatype screen =
    S_ready "string option"
  | S_resume_offer
  | S_welcome
  | S_timezone_offer
  | S_timezone_undetectable
  | S_confirm_timezone string
  | S_timezone_list
  | S_launch_failed sentence
  | S_ask_max_phone
  | S_offer_telegram_phone ucs
  | S_cancelled
  | S_login_failed sentence
  | S_validating
  | S_sending_code
  | S_ask_code bool
  | S_ask_password bool "ucs option"
  | S_saving
  | S_starting
  | S_other string

record login =
  lg_phone :: ucs
  lg_gateway :: gateway
  lg_live :: bool

definition no_login :: login where
  "no_login = \<lparr>lg_phone = [], lg_gateway = new_gateway, lg_live = False\<rparr>"

record machine =
  mc_store :: state_store
  mc_timezone :: "string option"
  mc_gateway :: "nat option"
  mc_attempt :: "nat option"
  mc_logins :: "login list"
  mc_last :: "screen option"
  mc_drawn :: "screen list"
  mc_worker :: bool
  mc_phone_env :: "ucs option"

text \<open>An error is its text, stripped, and the name of its type; the sentences \<open>_sanitise\<close> makes of them are named.\<close>

record ports =
  pt_now :: int
  pt_chat :: int
  pt_edits :: bool
  pt_posts :: "json option"
  pt_phone :: "ucs option"
  pt_system_zone :: "string option"
  pt_known_zone :: "string \<Rightarrow> bool"
  pt_zone_error :: "string option"
  pt_persist_error :: "string option"
  pt_launch_error :: "string option"

definition sanitise :: "string \<Rightarrow> string \<Rightarrow> sentence" where
  "sanitise message type_name =
     (let lowered = lower (if message \<noteq> [] then message else type_name)
      in if substring ''no token received'' lowered \<or> substring ''authentication failed'' lowered then MAX_REFUSED_IT
         else if substring ''timed out'' lowered \<or> substring ''timeout'' lowered then MAX_DID_NOT_ANSWER
         else if substring ''connect'' lowered \<or> substring ''network'' lowered \<or> substring ''socket'' lowered then MAX_IS_AWAY
         else Says (take 120 (if message \<noteq> [] then message else type_name)))"

text \<open>The login with a number, and a change of it.\<close>

definition login_of :: "machine \<Rightarrow> nat \<Rightarrow> login" where
  "login_of m k = (if k < length (mc_logins m) then mc_logins m ! k else no_login)"

definition on_login :: "nat \<Rightarrow> (login \<Rightarrow> login) \<Rightarrow> machine \<Rightarrow> machine" where
  "on_login k f m = m\<lparr>mc_logins := (mc_logins m)[k := f (login_of m k)]\<rparr>"

definition stored :: "machine \<Rightarrow> onboarding" where
  "stored m = loaded (mc_store m)"

definition writes_state :: "ports \<Rightarrow> (onboarding \<Rightarrow> onboarding) \<Rightarrow> machine \<Rightarrow> machine" where
  "writes_state po f m = m\<lparr>mc_store := update_record (pt_now po) f (mc_store m)\<rparr>"

subsection \<open>The board\<close>

text \<open>\<open>StatusBoard.show\<close>: the guardian's one message is edited, or posted anew and remembered.\<close>

definition post_screen :: "ports \<Rightarrow> screen \<Rightarrow> machine \<Rightarrow> machine" where
  "post_screen po scr m =
     (case pt_posts po of
        None \<Rightarrow> m
      | Some i \<Rightarrow>
          (writes_state po (\<lambda>r. r\<lparr>og_chat := JInt (pt_chat po), og_message := i\<rparr>) m)
            \<lparr>mc_last := Some scr, mc_drawn := mc_drawn m @ [scr]\<rparr>)"

definition show_screen :: "ports \<Rightarrow> screen \<Rightarrow> machine \<Rightarrow> machine" where
  "show_screen po scr m =
     (if og_message (stored m) \<noteq> JNull \<and> og_chat (stored m) = JInt (pt_chat po)
      then if mc_last m = Some scr then m
           else if pt_edits po then m\<lparr>mc_last := Some scr, mc_drawn := mc_drawn m @ [scr]\<rparr>
           else post_screen po scr m
      else post_screen po scr m)"

subsection \<open>The worker\<close>

text \<open>\<open>_start_worker\<close> answers with its error; a worker that runs is left alone.\<close>

definition start_worker :: "ports \<Rightarrow> machine \<Rightarrow> string option \<times> machine" where
  "start_worker po m =
     (if mc_worker m then (None, m)
      else (case pt_launch_error po of
          Some e \<Rightarrow> (Some e, m)
        | None \<Rightarrow> (None, writes_state po (\<lambda>r. r\<lparr>og_stage := BRIDGE_RUNNING\<rparr>) (m\<lparr>mc_worker := True\<rparr>))))"

definition restart_bridge :: "ports \<Rightarrow> machine \<Rightarrow> bool \<times> machine" where
  "restart_bridge po m = (case start_worker po (m\<lparr>mc_worker := False\<rparr>) of (e, m') \<Rightarrow> (e = None, m'))"

definition write_timezone :: "ports \<Rightarrow> string \<Rightarrow> machine \<Rightarrow> string option \<times> machine" where
  "write_timezone po zone m =
     (case pt_zone_error po of
        Some e \<Rightarrow> (Some e, m)
      | None \<Rightarrow> (None, if mc_worker m then snd (restart_bridge po (m\<lparr>mc_timezone := Some zone\<rparr>)) else m\<lparr>mc_timezone := Some zone\<rparr>))"

definition persist_phone :: "ports \<Rightarrow> ucs \<Rightarrow> machine \<Rightarrow> string option \<times> machine" where
  "persist_phone po phone m =
     (case pt_persist_error po of
        Some e \<Rightarrow> (Some e, m)
      | None \<Rightarrow> (None, writes_state po (\<lambda>r. r\<lparr>og_stage := MAX_SESSION_VALID\<rparr>) (m\<lparr>mc_phone_env := Some phone\<rparr>)))"

subsection \<open>The conversation\<close>

definition ask_timezone :: "ports \<Rightarrow> machine \<Rightarrow> machine" where
  "ask_timezone po m =
     show_screen po S_timezone_offer
       (if og_stage (stored m) \<noteq> BRIDGE_RUNNING
        then writes_state po (\<lambda>r. r\<lparr>og_stage := MAX_ONBOARDING_PENDING, og_step := WAITING_FOR_TIMEZONE\<rparr>) m
        else writes_state po (\<lambda>r. r\<lparr>og_step := WAITING_FOR_TIMEZONE\<rparr>) m)"

definition offer :: "ports \<Rightarrow> machine \<Rightarrow> machine" where
  "offer po m =
     (if mc_timezone m = None then ask_timezone po m
      else if og_stage (stored m) = BRIDGE_RUNNING then show_screen po (S_ready (mc_timezone m)) m
      else if og_step (stored m) \<in> {WAITING_FOR_PHONE, WAITING_FOR_CODE, WAITING_FOR_2FA} then show_screen po S_resume_offer m
      else show_screen po S_welcome m)"

definition abandon_attempt :: "machine \<Rightarrow> machine" where
  "abandon_attempt m =
     (let m1 = (case mc_gateway m of
            None \<Rightarrow> m
          | Some k \<Rightarrow> on_login k (\<lambda>l. l\<lparr>lg_gateway := gateway_abandon (lg_gateway l)\<rparr>) (m\<lparr>mc_gateway := None\<rparr>))
      in (case mc_attempt m1 of
            None \<Rightarrow> m1
          | Some k \<Rightarrow> on_login k (\<lambda>l. l\<lparr>lg_live := False\<rparr>) (m1\<lparr>mc_attempt := None\<rparr>)))"

definition ask_for_a_number :: "ports \<Rightarrow> machine \<Rightarrow> machine" where
  "ask_for_a_number po m =
     (case pt_phone po of
        None \<Rightarrow> show_screen po S_ask_max_phone
          (writes_state po (\<lambda>r. r\<lparr>og_stage := MAX_ONBOARDING_PENDING, og_step := WAITING_FOR_PHONE\<rparr>) m)
      | Some p \<Rightarrow> show_screen po (S_offer_telegram_phone p)
          (writes_state po (\<lambda>r. r\<lparr>og_stage := MAX_ONBOARDING_PENDING, og_step := WAITING_FOR_PHONE_CHOICE\<rparr>) m))"

definition begin_connecting :: "ports \<Rightarrow> machine \<Rightarrow> machine" where
  "begin_connecting po m =
     (let m1 = abandon_attempt m in if mc_timezone m1 = None then ask_timezone po m1 else ask_for_a_number po m1)"

definition detect_timezone :: "ports \<Rightarrow> machine \<Rightarrow> machine" where
  "detect_timezone po m =
     (case pt_system_zone po of
        None \<Rightarrow> show_screen po S_timezone_undetectable m
      | Some z \<Rightarrow> show_screen po (S_confirm_timezone z) m)"

definition set_timezone :: "ports \<Rightarrow> string \<Rightarrow> machine \<Rightarrow> bool \<times> machine" where
  "set_timezone po zone m =
     (if \<not> pt_known_zone po zone then (False, show_screen po S_timezone_undetectable m)
      else (case write_timezone po zone m of
          (Some e, m1) \<Rightarrow> (False, show_screen po (S_launch_failed (sanitise e ''RuntimeError'')) m1)
        | (None, m1) \<Rightarrow>
            (True, if og_stage (stored m1) = BRIDGE_RUNNING then show_screen po (S_ready (Some zone)) m1
                   else ask_for_a_number po m1)))"

definition start_login :: "ports \<Rightarrow> ucs \<Rightarrow> machine \<Rightarrow> machine" where
  "start_login po phone m =
     (let k = length (mc_logins m);
          m1 = show_screen po S_sending_code (m\<lparr>mc_gateway := Some k\<rparr>)
      in m1\<lparr>mc_attempt := Some k,
            mc_logins := mc_logins m1 @ [\<lparr>lg_phone = phone, lg_gateway = new_gateway, lg_live = True\<rparr>]\<rparr>)"

definition use_telegram_phone :: "ports \<Rightarrow> machine \<Rightarrow> bool \<times> machine" where
  "use_telegram_phone po m =
     (case normalize_phone (case pt_phone po of None \<Rightarrow> [] | Some p \<Rightarrow> p) of
        None \<Rightarrow> (False, show_screen po S_ask_max_phone (writes_state po (\<lambda>r. r\<lparr>og_step := WAITING_FOR_PHONE\<rparr>) m))
      | Some phone \<Rightarrow> (True, start_login po phone (writes_state po (\<lambda>r. r\<lparr>og_phone_mode := JStr ''same''\<rparr>) m)))"

definition ask_other_phone :: "ports \<Rightarrow> machine \<Rightarrow> machine" where
  "ask_other_phone po m =
     show_screen po S_ask_max_phone
       (writes_state po (\<lambda>r. r\<lparr>og_step := WAITING_FOR_PHONE, og_phone_mode := JStr ''other''\<rparr>) m)"

definition cancel_connecting :: "ports \<Rightarrow> machine \<Rightarrow> machine" where
  "cancel_connecting po m =
     show_screen po S_cancelled (writes_state po (\<lambda>r. r\<lparr>og_step := IDLE\<rparr>) (abandon_attempt m))"

definition finish_connecting :: "ports \<Rightarrow> machine \<Rightarrow> machine" where
  "finish_connecting po m =
     (let m1 = show_screen po S_starting (writes_state po (\<lambda>r. r\<lparr>og_step := STARTING_BRIDGE\<rparr>) m)
      in (case start_worker po m1 of
            (Some e, m2) \<Rightarrow> show_screen po (S_launch_failed (sanitise e ''RuntimeError'')) m2
          | (None, m2) \<Rightarrow> show_screen po (S_ready (mc_timezone m2))
              (writes_state po (\<lambda>r. r\<lparr>og_stage := BRIDGE_RUNNING, og_step := COMPLETED\<rparr>) m2)))"

definition submit_phone :: "ports \<Rightarrow> ucs \<Rightarrow> machine \<Rightarrow> machine" where
  "submit_phone po words m =
     (case normalize_phone words of None \<Rightarrow> show_screen po S_ask_max_phone m | Some phone \<Rightarrow> start_login po phone m)"

definition submit_answer :: "ports \<Rightarrow> ucs \<Rightarrow> machine \<Rightarrow> bool \<times> machine" where
  "submit_answer po words m =
     (if og_step (stored m) = WAITING_FOR_PHONE then (True, submit_phone po words m)
      else if og_step (stored m) \<in> {WAITING_FOR_CODE, WAITING_FOR_2FA} then
        (case mc_gateway m of
           None \<Rightarrow> (True, show_screen po (S_login_failed ATTEMPT_INTERRUPTED) m)
         | Some k \<Rightarrow>
             (case gateway_submit words (lg_gateway (login_of m k)) of
                (ok, g) \<Rightarrow>
                  (let m1 = on_login k (\<lambda>l. l\<lparr>lg_gateway := g\<rparr>) m
                   in if \<not> ok then (False, m1)
                      else (True, show_screen po S_validating (writes_state po (\<lambda>r. r\<lparr>og_step := VALIDATING\<rparr>) m1)))))
      else (False, m))"

definition expects_text :: "machine \<Rightarrow> bool" where
  "expects_text m \<longleftrightarrow> og_step (stored m) \<in> {WAITING_FOR_PHONE, WAITING_FOR_CODE, WAITING_FOR_2FA}"

subsection \<open>What happens to a login\<close>

definition on_prompt :: "ports \<Rightarrow> question \<Rightarrow> nat \<Rightarrow> ucs option \<Rightarrow> machine \<Rightarrow> machine" where
  "on_prompt po q n hint m =
     (if q = Q_CODE
      then show_screen po (S_ask_code (n > 1)) (writes_state po (\<lambda>r. r\<lparr>og_step := WAITING_FOR_CODE\<rparr>) m)
      else show_screen po (S_ask_password (n > 1) hint) (writes_state po (\<lambda>r. r\<lparr>og_step := WAITING_FOR_2FA\<rparr>) m))"

definition login_asks :: "ports \<Rightarrow> nat \<Rightarrow> question \<Rightarrow> ucs option \<Rightarrow> machine \<Rightarrow> machine" where
  "login_asks po k q hint m =
     (case gateway_collect q (lg_gateway (login_of m k)) of
        (n, g) \<Rightarrow> on_prompt po q n hint (on_login k (\<lambda>l. l\<lparr>lg_gateway := g\<rparr>) m))"

text \<open>\<open>finally\<close>: the machine's gateway is dropped, whichever login ended.\<close>

definition login_over :: "nat \<Rightarrow> machine \<Rightarrow> machine" where
  "login_over k m = on_login k (\<lambda>l. l\<lparr>lg_live := False\<rparr>) (m\<lparr>mc_gateway := None\<rparr>)"

definition login_abandoned :: "nat \<Rightarrow> machine \<Rightarrow> machine" where
  "login_abandoned k m =
     login_over k (on_login k (\<lambda>l. l\<lparr>lg_gateway := gateway_abandon (lg_gateway l)\<rparr>) m)"

definition login_failed :: "ports \<Rightarrow> nat \<Rightarrow> string \<Rightarrow> string \<Rightarrow> machine \<Rightarrow> machine" where
  "login_failed po k message type_name m =
     login_over k (show_screen po (S_login_failed (sanitise message type_name))
       (writes_state po (\<lambda>r. r\<lparr>og_step := WAITING_FOR_PHONE\<rparr>) m))"

definition login_succeeded :: "ports \<Rightarrow> nat \<Rightarrow> machine \<Rightarrow> machine" where
  "login_succeeded po k m =
     (let m1 = show_screen po S_saving
            (writes_state po (\<lambda>r. r\<lparr>og_stage := MAX_SESSION_VALID, og_step := SAVING\<rparr>) (login_over k m))
      in (case persist_phone po (lg_phone (login_of m k)) m1 of
            (Some e, m2) \<Rightarrow> show_screen po (S_launch_failed (sanitise e ''RuntimeError'')) m2
          | (None, m2) \<Rightarrow> finish_connecting po m2))"

subsection \<open>The process\<close>

definition can_serve :: "bool \<Rightarrow> bool \<Rightarrow> machine \<Rightarrow> bool" where
  "can_serve provisioned session_exists m \<longleftrightarrow> provisioned \<and> mc_phone_env m \<noteq> None \<and> session_exists"

definition resume_process :: "ports \<Rightarrow> bool \<Rightarrow> bool \<Rightarrow> machine \<Rightarrow> machine" where
  "resume_process po provisioned session_exists m =
     (if can_serve provisioned session_exists m then
        (case start_worker po m of
           (Some e, m1) \<Rightarrow> show_screen po (S_launch_failed (Says (take 160 e))) m1
         | (None, m1) \<Rightarrow> if mc_timezone m1 = None then offer po m1 else show_screen po (S_other ''home'') m1)
      else if og_message (stored m) \<noteq> JNull then offer po m
      else m)"

definition start_process :: "ports \<Rightarrow> bool \<Rightarrow> bool \<Rightarrow> machine \<Rightarrow> machine" where
  "start_process po provisioned session_exists m =
     (let fresh = m\<lparr>mc_store := (mc_store m)\<lparr>ss_cached := None\<rparr>, mc_gateway := None, mc_attempt := None, mc_logins := [],
            mc_last := None, mc_worker := False\<rparr>;
          up = (if og_stage (stored fresh) = BOOTSTRAP_CONFIGURED then writes_state po (\<lambda>r. r\<lparr>og_stage := BOT_RUNNING\<rparr>) fresh
                else fresh)
      in resume_process po provisioned session_exists up)"

text \<open>What else writes the file while a login runs: a notification, the owner's switch, a confirmation screen.\<close>

definition set_own_messages :: "ports \<Rightarrow> bool \<Rightarrow> machine \<Rightarrow> machine" where
  "set_own_messages po b = writes_state po (\<lambda>r. r\<lparr>og_mirror := JBool b\<rparr>)"

definition write_notifications :: "ports \<Rightarrow> (string \<times> int) list \<Rightarrow> machine \<Rightarrow> machine" where
  "write_notifications po d = writes_state po (\<lambda>r. r\<lparr>og_notifications := d\<rparr>)"

definition own_messages_mirror :: "bool \<Rightarrow> machine \<Rightarrow> bool" where
  "own_messages_mirror config_default m = (case og_mirror (stored m) of JBool b \<Rightarrow> b | _ \<Rightarrow> config_default)"

subsection \<open>Events\<close>

datatype event =
    E_offer
  | E_begin
  | E_detect_zone
  | E_zone string
  | E_telegram_phone
  | E_other_phone
  | E_cancel
  | E_launch
  | E_words ucs
  | E_asks nat question "ucs option"
  | E_abandoned nat
  | E_failed nat string string
  | E_succeeded nat
  | E_mirror bool
  | E_notifications "(string \<times> int) list"
  | E_start bool bool

fun happens :: "ports \<Rightarrow> event \<Rightarrow> machine \<Rightarrow> machine" where
  "happens po E_offer m = offer po m"
| "happens po E_begin m = begin_connecting po m"
| "happens po E_detect_zone m = detect_timezone po m"
| "happens po (E_zone z) m = snd (set_timezone po z m)"
| "happens po E_telegram_phone m = snd (use_telegram_phone po m)"
| "happens po E_other_phone m = ask_other_phone po m"
| "happens po E_cancel m = cancel_connecting po m"
| "happens po E_launch m = finish_connecting po m"
| "happens po (E_words w) m = snd (submit_answer po w m)"
| "happens po (E_asks k q hint) m = (if lg_live (login_of m k) then login_asks po k q hint m else m)"
| "happens po (E_abandoned k) m = (if lg_live (login_of m k) then login_abandoned k m else m)"
| "happens po (E_failed k e t) m = (if lg_live (login_of m k) then login_failed po k e t m else m)"
| "happens po (E_succeeded k) m = (if lg_live (login_of m k) then login_succeeded po k m else m)"
| "happens po (E_mirror b) m = set_own_messages po b m"
| "happens po (E_notifications d) m = write_notifications po d m"
| "happens po (E_start p e) m = start_process po p e m"

fun happen :: "(ports \<times> event) list \<Rightarrow> machine \<Rightarrow> machine" where
  "happen [] m = m"
| "happen ((po, e) # es) m = happen es (happens po e m)"

subsection \<open>Credentials stay out of the file\<close>

text \<open>A machine without what the owner typed: numbers, codes and passwords.\<close>

definition wipe :: "login \<Rightarrow> login" where
  "wipe l = l\<lparr>lg_phone := [], lg_gateway := (lg_gateway l)\<lparr>gw_answer := None\<rparr>\<rparr>"

definition blank :: "machine \<Rightarrow> machine" where
  "blank m = m\<lparr>mc_logins := map wipe (mc_logins m), mc_phone_env := map_option (\<lambda>_. []) (mc_phone_env m)\<rparr>"

lemma blank_simps [simp]:
  "mc_store (blank m) = mc_store m" "mc_timezone (blank m) = mc_timezone m" "mc_gateway (blank m) = mc_gateway m"
  "mc_attempt (blank m) = mc_attempt m" "mc_last (blank m) = mc_last m" "mc_drawn (blank m) = mc_drawn m"
  "mc_worker (blank m) = mc_worker m" "length (mc_logins (blank m)) = length (mc_logins m)"
  "stored (blank m) = stored m" "blank (blank m) = blank m" "mc_phone_env (blank m) = None \<longleftrightarrow> mc_phone_env m = None"
  by (simp_all add: blank_def stored_def wipe_def comp_def option.map_comp)

lemma login_of_blank [simp]: "login_of (blank m) k = wipe (login_of m k)"
  by (simp add: login_of_def blank_def wipe_def no_login_def new_gateway_def)

lemma wipe_simps [simp]:
  "lg_live (wipe l) = lg_live l" "lg_phone (wipe l) = []" "gw_pending (lg_gateway (wipe l)) = gw_pending (lg_gateway l)"
  "gw_asked (lg_gateway (wipe l)) = gw_asked (lg_gateway l)" "wipe (wipe l) = wipe l"
  by (simp_all add: wipe_def)

lemma blank_updates [simp]:
  "blank (m\<lparr>mc_store := s\<rparr>) = (blank m)\<lparr>mc_store := s\<rparr>" "blank (m\<lparr>mc_gateway := g\<rparr>) = (blank m)\<lparr>mc_gateway := g\<rparr>"
  "blank (m\<lparr>mc_attempt := g\<rparr>) = (blank m)\<lparr>mc_attempt := g\<rparr>" "blank (m\<lparr>mc_last := x\<rparr>) = (blank m)\<lparr>mc_last := x\<rparr>"
  "blank (m\<lparr>mc_drawn := d\<rparr>) = (blank m)\<lparr>mc_drawn := d\<rparr>" "blank (m\<lparr>mc_worker := b\<rparr>) = (blank m)\<lparr>mc_worker := b\<rparr>"
  "blank (m\<lparr>mc_timezone := z\<rparr>) = (blank m)\<lparr>mc_timezone := z\<rparr>"
  by (simp_all add: blank_def)

lemma blank_writes [simp]: "blank (writes_state po f m) = writes_state po f (blank m)"
  by (simp add: writes_state_def)

lemma blank_show [simp]: "blank (show_screen po scr m) = show_screen po scr (blank m)"
  by (simp add: show_screen_def post_screen_def split: option.split)

lemma blank_on_login:
  assumes "\<And>l. wipe (f l) = wipe (g (wipe l))"
  shows "blank (on_login k f m) = blank (on_login k g (blank m))"
  using assms[of "login_of m k"] by (simp add: on_login_def) (simp add: blank_def map_update comp_def option.map_comp)

lemma blank_start_worker: "start_worker po (blank m) = (fst (start_worker po m), blank (snd (start_worker po m)))"
  by (simp add: start_worker_def split: option.split)

lemma blank_finish [simp]: "blank (finish_connecting po m) = finish_connecting po (blank m)"
  by (simp add: finish_connecting_def Let_def blank_start_worker split_beta flip: blank_writes blank_show split: option.split)

lemma blank_asks:
  "blank (ask_timezone po m) = ask_timezone po (blank m)" "blank (offer po m) = offer po (blank m)"
  "blank (ask_for_a_number po m) = ask_for_a_number po (blank m)" "blank (detect_timezone po m) = detect_timezone po (blank m)"
  "blank (ask_other_phone po m) = ask_other_phone po (blank m)" "blank (on_prompt po q n h m) = on_prompt po q n h (blank m)"
  by (simp_all add: ask_timezone_def offer_def ask_for_a_number_def detect_timezone_def ask_other_phone_def on_prompt_def
      split: option.split)

text \<open>A handler that looks at no secret does to the blanked machine what it does to the machine.\<close>

definition discreet :: "(machine \<Rightarrow> machine) \<Rightarrow> bool" where
  "discreet h \<longleftrightarrow> (\<forall>m. blank (h m) = blank (h (blank m)))"

lemma discreetI: "(\<And>m. blank (h m) = blank (h (blank m))) \<Longrightarrow> discreet h"
  by (simp add: discreet_def)

lemma discreetD: "discreet h \<Longrightarrow> blank (h m) = blank (h (blank m))"
  by (simp add: discreet_def)

lemma discreet_on_login: "(\<And>l. wipe (f l) = wipe (f (wipe l))) \<Longrightarrow> discreet (on_login k f)"
  using blank_on_login[of f f k] by (simp add: discreet_def)

lemma wipe_updates [simp]:
  "wipe (l\<lparr>lg_live := b\<rparr>) = (wipe l)\<lparr>lg_live := b\<rparr>"
  "wipe (l\<lparr>lg_gateway := gateway_abandon (lg_gateway l)\<rparr>) = wipe ((wipe l)\<lparr>lg_gateway := gateway_abandon (lg_gateway (wipe l))\<rparr>)"
  by (simp_all add: wipe_def gateway_abandon_def)

lemma discreet_live: "discreet (on_login k (\<lambda>l. l\<lparr>lg_live := False\<rparr>))"
  by (rule discreet_on_login) simp

lemma discreet_abandon_gateway: "discreet (on_login k (\<lambda>l. l\<lparr>lg_gateway := gateway_abandon (lg_gateway l)\<rparr>))"
  by (rule discreet_on_login) (simp add: wipe_def gateway_abandon_def)

lemma discreet_comp: "discreet g \<Longrightarrow> discreet h \<Longrightarrow> discreet (\<lambda>m. g (h m))"
  by (metis discreet_def)

lemma discreet_commute: "(\<And>m. blank (h m) = h (blank m)) \<Longrightarrow> discreet h"
  by (simp add: discreet_def)

lemma discreet_if: "discreet g \<Longrightarrow> discreet h \<Longrightarrow> (\<And>m. P (blank m) = P m) \<Longrightarrow> discreet (\<lambda>m. if P m then g m else h m)"
  by (simp add: discreet_def)

lemma discreet_id: "discreet (\<lambda>m. m)"
  by (simp add: discreet_def)

lemma discreet_gateway: "discreet (\<lambda>m. m\<lparr>mc_gateway := g\<rparr>)"
  by (simp add: discreet_def)

lemma discreet_attempt: "discreet (\<lambda>m. m\<lparr>mc_attempt := g\<rparr>)"
  by (simp add: discreet_def)

lemma discreet_abandon: "discreet abandon_attempt"
proof (rule discreetI)
  fix m
  define h where "h = (\<lambda>m. case mc_gateway m of None \<Rightarrow> m
    | Some k \<Rightarrow> on_login k (\<lambda>l. l\<lparr>lg_gateway := gateway_abandon (lg_gateway l)\<rparr>) (m\<lparr>mc_gateway := None\<rparr>))"
  have split: "abandon_attempt m = (case mc_attempt m of None \<Rightarrow> h m
      | Some k \<Rightarrow> on_login k (\<lambda>l. l\<lparr>lg_live := False\<rparr>) ((h m)\<lparr>mc_attempt := None\<rparr>))" for m
    by (simp add: abandon_attempt_def h_def on_login_def split: option.split)
  have h: "discreet h"
    using discreet_comp[OF discreet_abandon_gateway discreet_gateway] by (auto simp: discreet_def h_def split: option.split)
  have "discreet (\<lambda>m. on_login k (\<lambda>l. l\<lparr>lg_live := False\<rparr>) ((h m)\<lparr>mc_attempt := None\<rparr>))" for k
    using discreet_comp[OF discreet_live discreet_comp[OF discreet_attempt h]] .
  then show "blank (abandon_attempt m) = blank (abandon_attempt (blank m))"
    using h by (cases "mc_attempt m") (auto simp: split discreet_def)
qed

lemma abandon_keeps [simp]:
  "mc_store (abandon_attempt m) = mc_store m" "mc_timezone (abandon_attempt m) = mc_timezone m"
  by (simp_all add: abandon_attempt_def on_login_def Let_def split: option.split)

lemma discreet_begin: "discreet (begin_connecting po)"
  unfolding begin_connecting_def Let_def
  by (rule discreet_if) (simp_all add: discreet_comp[OF discreet_commute discreet_abandon] blank_asks)

lemma discreet_cancel: "discreet (cancel_connecting po)"
  unfolding cancel_connecting_def by (rule discreet_comp[OF discreet_commute discreet_abandon]) simp

lemma blank_write_timezone:
  "write_timezone po z (blank m) = (fst (write_timezone po z m), blank (snd (write_timezone po z m)))"
proof -
  have "restart_bridge po (blank m) = (fst (restart_bridge po m), blank (snd (restart_bridge po m)))" for m
    using blank_start_worker[of po "m\<lparr>mc_worker := False\<rparr>"] by (simp add: restart_bridge_def split_beta)
  from this[of "m\<lparr>mc_timezone := Some z\<rparr>"] show ?thesis by (simp add: write_timezone_def split: option.split)
qed

lemma discreet_zone: "discreet (\<lambda>m. snd (set_timezone po z m))"
  by (rule discreet_commute)
    (simp add: set_timezone_def blank_write_timezone split_beta blank_asks split: option.split)

lemma blank_start_login: "blank (start_login po p m) = blank (start_login po q (blank m))"
proof -
  have "blank (m\<lparr>mc_attempt := a, mc_logins := mc_logins m @ [\<lparr>lg_phone = p, lg_gateway = g, lg_live = b\<rparr>]\<rparr>)
      = blank ((blank m)\<lparr>mc_attempt := a, mc_logins := mc_logins (blank m) @ [\<lparr>lg_phone = q, lg_gateway = g, lg_live = b\<rparr>]\<rparr>)" for m a g b
    by (simp add: blank_def wipe_def comp_def option.map_comp)
  from this[of "show_screen po S_sending_code (m\<lparr>mc_gateway := Some (length (mc_logins m))\<rparr>)"]
  show ?thesis by (simp add: start_login_def Let_def)
qed

lemma discreet_telegram_phone: "discreet (\<lambda>m. snd (use_telegram_phone po m))"
proof (rule discreetI)
  fix m
  show "blank (snd (use_telegram_phone po m)) = blank (snd (use_telegram_phone po (blank m)))"
    using blank_start_login[of po _ "writes_state po (\<lambda>r. r\<lparr>og_phone_mode := JStr ''same''\<rparr>) m"]
    by (simp add: use_telegram_phone_def split: option.split)
qed

lemma discreet_over: "discreet (login_over k)"
  unfolding login_over_def by (rule discreet_comp[OF discreet_live discreet_gateway])

lemma discreet_abandoned: "discreet (login_abandoned k)"
  unfolding login_abandoned_def by (rule discreet_comp[OF discreet_over discreet_abandon_gateway])

lemma discreet_failed: "discreet (login_failed po k e t)"
  unfolding login_failed_def by (rule discreet_comp[OF discreet_over discreet_commute]) simp

lemma blank_persist: "fst (persist_phone po p m) = fst (persist_phone po q (blank m))
    \<and> blank (snd (persist_phone po p m)) = blank (snd (persist_phone po q (blank m)))"
proof -
  have "blank (m\<lparr>mc_phone_env := Some p\<rparr>) = blank ((blank m)\<lparr>mc_phone_env := Some q\<rparr>)"
    by (simp add: blank_def wipe_def comp_def)
  then show ?thesis by (simp add: persist_phone_def split: option.split)
qed

lemma discreet_succeeded: "discreet (login_succeeded po k)"
proof (rule discreetI)
  fix m
  let ?saved = "\<lambda>m. show_screen po S_saving (writes_state po (\<lambda>r. r\<lparr>og_stage := MAX_SESSION_VALID, og_step := SAVING\<rparr>) (login_over k m))"
  have "discreet ?saved" by (rule discreet_comp[OF discreet_commute discreet_over]) simp
  then have s: "blank (?saved m) = blank (?saved (blank m))" by (simp add: discreet_def)
  have e: "fst (persist_phone po p (?saved m)) = fst (persist_phone po q (?saved (blank m)))" for p q
    by (simp add: persist_phone_def split: option.split)
  have b: "blank (snd (persist_phone po p (?saved m))) = blank (snd (persist_phone po q (?saved (blank m))))" for p q
    using blank_persist[of po p "?saved m" q] blank_persist[of po q "?saved (blank m)" q] s by simp
  show "blank (login_succeeded po k m) = blank (login_succeeded po k (blank m))"
    unfolding login_succeeded_def Let_def split_beta
    using b[of "lg_phone (login_of m k)" "lg_phone (login_of (blank m) k)"] e[of "lg_phone (login_of m k)" "lg_phone (login_of (blank m) k)"]
    by (simp split: option.split)
qed

lemma discreet_asks: "discreet (login_asks po k q hint)"
proof -
  have on: "discreet (on_login k (\<lambda>l. l\<lparr>lg_gateway := snd (gateway_collect q (lg_gateway l))\<rparr>))"
    by (rule discreet_on_login) (simp add: wipe_def gateway_collect_def Let_def)
  have "login_asks po k q hint m = on_prompt po q (fst (gateway_collect q (lg_gateway (login_of m k)))) hint
      (on_login k (\<lambda>l. l\<lparr>lg_gateway := snd (gateway_collect q (lg_gateway l))\<rparr>) m)" for m
    by (simp add: login_asks_def split_beta on_login_def)
  moreover have "fst (gateway_collect q (lg_gateway (wipe l))) = fst (gateway_collect q (lg_gateway l))" for l
    by (simp add: gateway_collect_def Let_def)
  ultimately show ?thesis using on by (simp add: discreet_def blank_asks)
qed

lemma discreet_start: "discreet (start_process po p e)"
proof (rule discreet_commute)
  fix m
  have resume: "blank (resume_process po p e m) = resume_process po p e (blank m)" for m
  proof -
    have "can_serve p e (blank m) = can_serve p e m" by (simp add: can_serve_def)
    then show ?thesis
      by (cases "fst (start_worker po m)") (simp_all add: resume_process_def blank_start_worker split_beta blank_asks)
  qed
  let ?fresh = "\<lambda>m. m\<lparr>mc_store := (mc_store m)\<lparr>ss_cached := None\<rparr>, mc_gateway := None, mc_attempt := None, mc_logins := [],
            mc_last := None, mc_worker := False\<rparr>"
  have "blank (?fresh m) = ?fresh (blank m)" by (simp add: blank_def)
  then show "blank (start_process po p e m) = start_process po p e (blank m)"
    by (simp add: start_process_def Let_def resume) (simp add: stored_def)
qed

text \<open>Of what the owner types, only whether it looks like a number is looked at.\<close>

definition looks_alike :: "event \<Rightarrow> event \<Rightarrow> bool" where
  "looks_alike e f \<longleftrightarrow> (case (e, f) of
      (E_words v, E_words w) \<Rightarrow> (normalize_phone v = None) = (normalize_phone w = None)
    | _ \<Rightarrow> e = f)"

lemma blank_eq:
  "blank m = blank m' \<longleftrightarrow> mc_store m = mc_store m' \<and> mc_timezone m = mc_timezone m' \<and> mc_gateway m = mc_gateway m'
     \<and> mc_attempt m = mc_attempt m' \<and> map wipe (mc_logins m) = map wipe (mc_logins m') \<and> mc_last m = mc_last m'
     \<and> mc_drawn m = mc_drawn m' \<and> mc_worker m = mc_worker m'
     \<and> map_option (\<lambda>_. []) (mc_phone_env m) = (map_option (\<lambda>_. []) (mc_phone_env m') :: ucs option)"
  by (cases m, cases m') (auto simp: blank_def)

lemma wipe_submit:
  "wipe (l\<lparr>lg_gateway := snd (gateway_submit v (lg_gateway l))\<rparr>)
   = (wipe l)\<lparr>lg_gateway := (lg_gateway (wipe l))\<lparr>gw_pending := False, gw_question := None\<rparr>\<rparr>"
  by (simp add: wipe_def gateway_submit_def Let_def)

lemma blank_submit:
  assumes "blank m = blank m'" "(normalize_phone v = None) = (normalize_phone w = None)"
  shows "blank (snd (submit_answer po v m)) = blank (snd (submit_answer po w m'))"
proof -
  have same: "stored m = stored m'" "mc_gateway m = mc_gateway m'"
    using assms(1) by (metis blank_simps)+
  have l: "wipe (login_of m k) = wipe (login_of m' k)" for k using assms(1) by (metis login_of_blank)
  have show_alike: "blank (show_screen po scr m) = blank (show_screen po scr m')" for scr using assms(1) by simp
  have any: "blank (start_login po p m) = blank (start_login po q m')" for p q
    using assms(1) by (metis blank_start_login)
  have phone: "blank (submit_phone po v m) = blank (submit_phone po w m')"
    using assms any by (auto simp: submit_phone_def split: option.split)
  have pending: "gw_pending (lg_gateway (login_of m k)) = gw_pending (lg_gateway (login_of m' k))" for k
    using l[of k] by (metis wipe_simps(3))
  have on: "blank (on_login k (\<lambda>l. l\<lparr>lg_gateway := snd (gateway_submit v (lg_gateway (login_of m k)))\<rparr>) m)
      = blank (on_login k (\<lambda>l. l\<lparr>lg_gateway := snd (gateway_submit w (lg_gateway (login_of m' k)))\<rparr>) m')" for k
  proof -
    have "wipe ((login_of m k)\<lparr>lg_gateway := snd (gateway_submit v (lg_gateway (login_of m k)))\<rparr>)
        = wipe ((login_of m' k)\<lparr>lg_gateway := snd (gateway_submit w (lg_gateway (login_of m' k)))\<rparr>)"
      unfolding wipe_submit l ..
    then show ?thesis using assms(1) by (simp add: on_login_def blank_eq map_update)
  qed
  have ok: "fst (gateway_submit v (lg_gateway (login_of m k))) = fst (gateway_submit w (lg_gateway (login_of m' k)))" for k
    using pending[of k] by (simp add: gateway_submit_def Let_def)
  show ?thesis
    unfolding submit_answer_def same using phone show_alike assms(1) on ok
    by (simp add: split_beta Let_def split: option.split)
qed

lemma happens_are:
  "happens po E_offer = offer po" "happens po E_begin = begin_connecting po" "happens po E_detect_zone = detect_timezone po"
  "happens po (E_zone z) = (\<lambda>m. snd (set_timezone po z m))" "happens po E_telegram_phone = (\<lambda>m. snd (use_telegram_phone po m))"
  "happens po E_other_phone = ask_other_phone po" "happens po E_cancel = cancel_connecting po"
  "happens po E_launch = finish_connecting po" "happens po (E_start p b) = start_process po p b"
  "happens po (E_asks k q h) = (\<lambda>m. if lg_live (login_of m k) then login_asks po k q h m else m)"
  "happens po (E_abandoned k) = (\<lambda>m. if lg_live (login_of m k) then login_abandoned k m else m)"
  "happens po (E_failed k x t) = (\<lambda>m. if lg_live (login_of m k) then login_failed po k x t m else m)"
  "happens po (E_succeeded k) = (\<lambda>m. if lg_live (login_of m k) then login_succeeded po k m else m)"
  by (simp_all add: fun_eq_iff)

lemma happens_alike:
  assumes "blank m = blank m'" "looks_alike e f"
  shows "blank (happens po e m) = blank (happens po f m')"
proof (cases "\<exists>v w. e = E_words v \<and> f = E_words w")
  case True
  then obtain v w where w: "e = E_words v" "f = E_words w" by blast
  then have "(normalize_phone v = None) = (normalize_phone w = None)" using assms(2) by (simp add: looks_alike_def)
  from blank_submit[OF assms(1) this] show ?thesis by (simp add: w)
next
  case False
  then have f: "f = e" using assms(2) by (auto simp: looks_alike_def split: event.splits)
  have "discreet (\<lambda>m. if lg_live (login_of m k) then h m else m)" if "discreet h" for h k
    using that by (simp add: discreet_def)
  note live = this[OF discreet_asks] this[OF discreet_abandoned] this[OF discreet_failed] this[OF discreet_succeeded]
  have "discreet (happens po e)" if "\<And>w. e \<noteq> E_words w"
  proof (cases e)
    case (E_mirror b)
    then show ?thesis by (intro discreet_commute) (simp add: set_own_messages_def)
  next
    case (E_notifications d)
    then show ?thesis by (intro discreet_commute) (simp add: write_notifications_def)
  qed (use that in \<open>simp_all add: happens_are live discreet_begin discreet_zone discreet_telegram_phone discreet_cancel
      discreet_start discreet_commute blank_asks\<close>)
  moreover have "\<And>w. e \<noteq> E_words w" using False f by auto
  ultimately have d: "discreet (happens po e)" by blast
  show ?thesis unfolding f using discreetD[OF d, of m] discreetD[OF d, of m'] assms(1) by simp
qed

text \<open>Nothing the owner types reaches the state file: two runs of the machine that differ only in the numbers, codes
  and passwords that were typed, each looking like a number where the other does, leave the same file, the same cached
  record and the same screens, whatever else happens in between, restarts included.\<close>

theorem secrets_never_stored:
  assumes "list_all2 (\<lambda>(p, e) (q, f). p = q \<and> looks_alike e f) es fs"
  shows "mc_store (happen es m) = mc_store (happen fs m) \<and> mc_drawn (happen es m) = mc_drawn (happen fs m)"
proof -
  have "blank (happen es m) = blank (happen fs m')" if "blank m = blank m'" for m m'
    using assms that
  proof (induction es fs arbitrary: m m' rule: list_all2_induct)
    case (Cons x xs y ys)
    obtain po e f where xy: "x = (po, e)" "y = (po, f)" "looks_alike e f" using Cons.hyps(1) by (cases x; cases y) auto
    show ?case using Cons.IH[OF happens_alike[OF Cons.prems xy(3)]] by (simp add: xy)
  qed simp
  from this[OF refl] show ?thesis by (metis blank_simps(1,6))
qed

definition sample_ports :: ports where
  "sample_ports =
     \<lparr>pt_now = 5, pt_chat = 7, pt_edits = True, pt_posts = Some (JInt 1), pt_phone = None, pt_system_zone = None,
      pt_known_zone = (\<lambda>_. True), pt_zone_error = None, pt_persist_error = None, pt_launch_error = None\<rparr>"

definition sample_machine :: machine where
  "sample_machine =
     \<lparr>mc_store = update_record 1 (\<lambda>r. r\<lparr>og_chat := JInt 7, og_message := JInt 1\<rparr>) \<lparr>ss_disk = No_file, ss_cached = None\<rparr>,
      mc_timezone = Some ''Europe/Moscow'', mc_gateway = None, mc_attempt = None, mc_logins = [], mc_last = None,
      mc_drawn = [], mc_worker = False, mc_phone_env = None\<rparr>"

theorem secrets_never_stored_witness:
  "let typed = (\<lambda>code. [(sample_ports, E_begin), (sample_ports, E_words (asc ''+79001234567'')), (sample_ports, E_asks 0 Q_CODE None),
       (sample_ports, E_words code), (sample_ports, E_succeeded 0)])
   in mc_store (happen (typed (asc ''1111'')) sample_machine) = mc_store (happen (typed (asc ''2222'')) sample_machine)"
proof -
  have "looks_alike (E_words (asc ''1111'')) (E_words (asc ''2222''))"
    by (simp add: looks_alike_def number_simps)
  then have "list_all2 (\<lambda>(p, e) (q, f). p = q \<and> looks_alike e f)
     [(sample_ports, E_begin), (sample_ports, E_words (asc ''+79001234567'')), (sample_ports, E_asks 0 Q_CODE None),
       (sample_ports, E_words (asc ''1111'')), (sample_ports, E_succeeded 0)]
     [(sample_ports, E_begin), (sample_ports, E_words (asc ''+79001234567'')), (sample_ports, E_asks 0 Q_CODE None),
       (sample_ports, E_words (asc ''2222'')), (sample_ports, E_succeeded 0)]"
    by (simp add: looks_alike_def)
  from secrets_never_stored[OF this, of sample_machine] show ?thesis unfolding Let_def by blast
qed

subsection \<open>A valid session is the confirmation\<close>

lemma stored_writes [simp]: "stored (writes_state po f m) = (f (rewound (read_disk (ss_disk (mc_store m)))))\<lparr>og_updated := JInt (pt_now po)\<rparr>"
  by (simp add: stored_def writes_state_def)

lemma disk_writes [simp]:
  "read_disk (ss_disk (mc_store (writes_state po f m))) = (f (rewound (read_disk (ss_disk (mc_store m)))))\<lparr>og_updated := JInt (pt_now po)\<rparr>"
  by (simp add: writes_state_def update_record_disk)

lemma show_keeps [simp]:
  "mc_timezone (show_screen po scr m) = mc_timezone m" "mc_gateway (show_screen po scr m) = mc_gateway m"
  "mc_logins (show_screen po scr m) = mc_logins m" "mc_worker (show_screen po scr m) = mc_worker m"
  "mc_phone_env (show_screen po scr m) = mc_phone_env m" "mc_attempt (show_screen po scr m) = mc_attempt m"
  by (simp_all add: show_screen_def post_screen_def writes_state_def split: option.split)

lemma writes_keeps [simp]:
  "mc_timezone (writes_state po f m) = mc_timezone m" "mc_gateway (writes_state po f m) = mc_gateway m"
  "mc_logins (writes_state po f m) = mc_logins m" "mc_worker (writes_state po f m) = mc_worker m"
  "mc_phone_env (writes_state po f m) = mc_phone_env m" "mc_attempt (writes_state po f m) = mc_attempt m"
  "mc_drawn (writes_state po f m) = mc_drawn m"
  by (simp_all add: writes_state_def)

lemma disk_show:
  "og_stage (read_disk (ss_disk (mc_store (show_screen po scr m)))) = og_stage (read_disk (ss_disk (mc_store m)))"
  by (simp add: show_screen_def post_screen_def split: option.split)

text \<open>Drawing a screen leaves the stage, and the step as it was or - when it had to post the message anew while
  something was outstanding - at the question for a number.\<close>

lemma stored_show:
  assumes "stored m = read_disk (ss_disk (mc_store m))"
  shows "og_stage (stored (show_screen po scr m)) = og_stage (stored m)"
    "og_step (stored m) \<notin> EPHEMERAL_STEPS \<Longrightarrow> og_step (stored (show_screen po scr m)) = og_step (stored m)"
    "stored (show_screen po scr m) = read_disk (ss_disk (mc_store (show_screen po scr m)))"
  using assms by (auto simp: show_screen_def post_screen_def rewound_def stored_def[of "_\<lparr>mc_last := _\<rparr>"] stored_def[of "_\<lparr>mc_drawn := _\<rparr>"]
      simp flip: stored_def split: option.split)

text \<open>What a handler may draw.\<close>

definition draws :: "screen set \<Rightarrow> machine \<Rightarrow> machine \<Rightarrow> bool" where
  "draws S m m' \<longleftrightarrow> (\<exists>ds. mc_drawn m' = mc_drawn m @ ds \<and> set ds \<subseteq> S)"

lemma draws_trans: "draws S m m' \<Longrightarrow> draws S m' m'' \<Longrightarrow> draws S m m''"
  by (fastforce simp: draws_def)

lemma draws_writes [simp]: "draws S m (writes_state po f m') = draws S m m'" "draws S (writes_state po f m) m' = draws S m m'"
  by (simp_all add: draws_def writes_state_def)

lemma draws_show: "scr \<in> S \<Longrightarrow> draws S m (show_screen po scr m)"
  by (auto simp: draws_def show_screen_def post_screen_def writes_state_def split: option.split)

lemma finish_runs:
  assumes "mc_worker m \<or> pt_launch_error po = None"
  shows "og_stage (stored (finish_connecting po m)) = BRIDGE_RUNNING" "og_step (stored (finish_connecting po m)) = COMPLETED"
    "mc_worker (finish_connecting po m)" "mc_phone_env (finish_connecting po m) = mc_phone_env m"
    "draws {S_saving, S_starting, S_ready (mc_timezone m)} m (finish_connecting po m)"
proof -
  let ?m1 = "show_screen po S_starting (writes_state po (\<lambda>r. r\<lparr>og_step := STARTING_BRIDGE\<rparr>) m)"
  obtain m2 where m2: "start_worker po ?m1 = (None, m2)" and w: "mc_worker m2" "mc_timezone m2 = mc_timezone m"
      "mc_phone_env m2 = mc_phone_env m" and d2: "mc_drawn m2 = mc_drawn ?m1"
    using assms by (cases "mc_worker m") (auto simp: start_worker_def)
  let ?m3 = "writes_state po (\<lambda>r. r\<lparr>og_stage := BRIDGE_RUNNING, og_step := COMPLETED\<rparr>) m2"
  have f: "finish_connecting po m = show_screen po (S_ready (mc_timezone m2)) ?m3"
    by (simp add: finish_connecting_def Let_def m2)
  have synced: "stored ?m3 = read_disk (ss_disk (mc_store ?m3))" by simp
  have calm: "og_step (stored ?m3) \<notin> EPHEMERAL_STEPS" by (simp add: EPHEMERAL_STEPS_def)
  show "og_stage (stored (finish_connecting po m)) = BRIDGE_RUNNING" "og_step (stored (finish_connecting po m)) = COMPLETED"
    unfolding f stored_show(1)[OF synced] stored_show(2)[OF synced calm] by simp_all
  show "mc_worker (finish_connecting po m)" "mc_phone_env (finish_connecting po m) = mc_phone_env m"
    using w by (simp_all add: f)
  let ?S = "{S_saving, S_starting, S_ready (mc_timezone m)}"
  have "draws ?S m ?m1" using draws_show[of S_starting ?S "writes_state po (\<lambda>r. r\<lparr>og_step := STARTING_BRIDGE\<rparr>) m" po] by simp
  then have "draws ?S m m2" using d2 by (simp add: draws_def)
  moreover have "draws ?S m2 (finish_connecting po m)"
    using draws_show[of "S_ready (mc_timezone m2)" ?S ?m3 po] w(2) by (simp add: f)
  ultimately show "draws ?S m (finish_connecting po m)" by (rule draws_trans)
qed

text \<open>A session that MAX accepted is the confirmation: the number is written, the worker runs, the stage is
  \<open>BRIDGE_RUNNING\<close>, and no screen drawn on the way asks for anything. When the worker does not start, the session
  is kept as it is and \<open>LAUNCH\<close> alone ends in the same state, without a login.\<close>

theorem valid_session_is_the_confirmation:
  assumes "pt_persist_error po = None"
  shows "pt_launch_error po = None \<Longrightarrow> og_stage (stored (login_succeeded po k m)) = BRIDGE_RUNNING
      \<and> og_step (stored (login_succeeded po k m)) = COMPLETED \<and> mc_worker (login_succeeded po k m)
      \<and> mc_phone_env (login_succeeded po k m) = Some (lg_phone (login_of m k))
      \<and> draws {S_saving, S_starting, S_ready (mc_timezone m)} m (login_succeeded po k m)"
    and "\<not> mc_worker m \<Longrightarrow> pt_launch_error po = Some e \<Longrightarrow> pt_launch_error po' = None
      \<Longrightarrow> og_stage (stored (login_succeeded po k m)) = MAX_SESSION_VALID \<and> \<not> mc_worker (login_succeeded po k m)
      \<and> og_stage (stored (finish_connecting po' (login_succeeded po k m))) = BRIDGE_RUNNING
      \<and> mc_phone_env (finish_connecting po' (login_succeeded po k m)) = Some (lg_phone (login_of m k))"
proof -
  let ?m0 = "writes_state po (\<lambda>r. r\<lparr>og_stage := MAX_SESSION_VALID, og_step := SAVING\<rparr>) (login_over k m)"
  let ?p = "lg_phone (login_of m k)"
  let ?m1 = "writes_state po (\<lambda>r. r\<lparr>og_stage := MAX_SESSION_VALID\<rparr>) ((show_screen po S_saving ?m0)\<lparr>mc_phone_env := Some ?p\<rparr>)"
  let ?S = "{S_saving, S_starting, S_ready (mc_timezone m)}"
  have s: "login_succeeded po k m = finish_connecting po ?m1"
    using assms by (simp add: login_succeeded_def persist_phone_def Let_def)
  have tz: "mc_timezone ?m1 = mc_timezone m" "mc_worker ?m1 = mc_worker m" "mc_phone_env ?m1 = Some ?p"
    by (simp_all add: writes_state_def) (simp_all add: login_over_def on_login_def)
  have "draws ?S ?m0 (show_screen po S_saving ?m0)" by (rule draws_show) simp
  then have d: "draws ?S m ?m1" by (simp add: draws_def writes_state_def login_over_def on_login_def)
  show "pt_launch_error po = None \<Longrightarrow> og_stage (stored (login_succeeded po k m)) = BRIDGE_RUNNING
      \<and> og_step (stored (login_succeeded po k m)) = COMPLETED \<and> mc_worker (login_succeeded po k m)
      \<and> mc_phone_env (login_succeeded po k m) = Some ?p \<and> draws ?S m (login_succeeded po k m)"
    using finish_runs[of ?m1 po] tz draws_trans[OF d] unfolding s by simp
  assume w: "\<not> mc_worker m" and e: "pt_launch_error po = Some e" and e': "pt_launch_error po' = None"
  let ?m2 = "writes_state po (\<lambda>r. r\<lparr>og_step := STARTING_BRIDGE\<rparr>) ?m1"
  let ?m3 = "show_screen po S_starting ?m2"
  have f: "login_succeeded po k m = show_screen po (S_launch_failed (sanitise e ''RuntimeError'')) ?m3"
  proof -
    have "\<not> mc_worker ?m3" using w tz(2) by (simp add: writes_state_def)
    then show ?thesis unfolding s by (simp add: finish_connecting_def start_worker_def e Let_def)
  qed
  have synced: "stored ?m2 = read_disk (ss_disk (mc_store ?m2))" by simp
  have "og_stage (stored (login_succeeded po k m)) = MAX_SESSION_VALID"
    unfolding f stored_show(1)[OF stored_show(3)[OF synced]] stored_show(1)[OF synced] by simp
  moreover have "\<not> mc_worker (login_succeeded po k m)" "mc_phone_env (login_succeeded po k m) = Some ?p"
    using w tz by (simp_all add: f writes_state_def)
  ultimately show "og_stage (stored (login_succeeded po k m)) = MAX_SESSION_VALID \<and> \<not> mc_worker (login_succeeded po k m)
      \<and> og_stage (stored (finish_connecting po' (login_succeeded po k m))) = BRIDGE_RUNNING
      \<and> mc_phone_env (finish_connecting po' (login_succeeded po k m)) = Some ?p"
    using finish_runs[of "login_succeeded po k m" po'] e' by simp
qed

theorem valid_session_is_the_confirmation_witness:
  "og_stage (stored (login_succeeded sample_ports 0 sample_machine)) = BRIDGE_RUNNING"
  "og_stage (stored (login_succeeded (sample_ports\<lparr>pt_launch_error := Some ''no''\<rparr>) 0 sample_machine)) = MAX_SESSION_VALID"
  using valid_session_is_the_confirmation(1)[of sample_ports 0 sample_machine]
    valid_session_is_the_confirmation(2)[of "sample_ports\<lparr>pt_launch_error := Some ''no''\<rparr>" sample_machine "''no''" sample_ports 0]
  by (simp_all add: sample_ports_def sample_machine_def)

subsection \<open>Where the conversation loses its thread\<close>

text \<open>While a password is outstanding, any write of the file - here a notification - turns the question back into the
  one for a number; a password of digits is then taken for a number, and a second login starts with it.\<close>

theorem password_is_taken_for_a_number:
  assumes "og_step (read_disk (ss_disk (mc_store m))) = WAITING_FOR_2FA" "normalize_phone w = Some p"
  shows "\<exists>m'. submit_answer po w (write_notifications po' d m) = (True, m') \<and> lg_phone (last (mc_logins m')) = p
      \<and> length (mc_logins m') = length (mc_logins m) + 1 \<and> mc_gateway m' = Some (length (mc_logins m))"
proof -
  have "og_step (stored (write_notifications po' d m)) = WAITING_FOR_PHONE"
    using assms(1) by (simp add: write_notifications_def rewound_def EPHEMERAL_STEPS_def)
  moreover have "mc_logins (write_notifications po' d m) = mc_logins m" by (simp add: write_notifications_def writes_state_def)
  ultimately show ?thesis
    using assms(2) by (auto simp: submit_answer_def submit_phone_def start_login_def Let_def)
qed

theorem password_is_taken_for_a_number_witness:
  "let m = writes_state sample_ports (\<lambda>r. r\<lparr>og_step := WAITING_FOR_2FA\<rparr>) sample_machine
   in \<exists>m'. submit_answer sample_ports (asc ''12345678'') (write_notifications sample_ports [] m) = (True, m')
        \<and> lg_phone (last (mc_logins m')) = asc ''+12345678''"
proof -
  have 1: "og_step (read_disk (ss_disk (mc_store (writes_state sample_ports (\<lambda>r. r\<lparr>og_step := WAITING_FOR_2FA\<rparr>) sample_machine))))
      = WAITING_FOR_2FA" by simp
  have 2: "normalize_phone (asc ''12345678'') = Some (asc ''+12345678'')" by (simp add: number_simps)
  show ?thesis using password_is_taken_for_a_number[OF 1 2, of sample_ports sample_ports "[]"] by (auto simp: Let_def)
qed

text \<open>A running bridge is put back: the button of an old screen that starts the connection again sets the stage to
  \<open>MAX_ONBOARDING_PENDING\<close>.\<close>

theorem stage_moves_back:
  assumes "mc_timezone m \<noteq> None"
  shows "og_stage (stored (begin_connecting po m)) = MAX_ONBOARDING_PENDING"
proof -
  have "og_stage (stored (show_screen po scr (writes_state po f m'))) = og_stage (stored (writes_state po f m'))" for scr f m'
    by (rule stored_show) simp
  then show ?thesis using assms by (auto simp: begin_connecting_def ask_for_a_number_def Let_def split: option.split)
qed

theorem stage_moves_back_witness:
  "og_stage (stored (finish_connecting sample_ports sample_machine)) = BRIDGE_RUNNING
   \<and> og_stage (stored (begin_connecting sample_ports (finish_connecting sample_ports sample_machine))) = MAX_ONBOARDING_PENDING"
proof -
  have "mc_timezone (finish_connecting sample_ports sample_machine) \<noteq> None"
    by (simp add: finish_connecting_def start_worker_def sample_machine_def sample_ports_def writes_state_def Let_def)
  from stage_moves_back[OF this] finish_runs(1) show ?thesis by (simp add: sample_ports_def)
qed

text \<open>The number is offered once and tapped twice: two logins run, and when the first one ends it drops the gateway of
  the second, whose code is then refused although it waits for one.\<close>

theorem second_login_loses_its_gateway:
  assumes "mc_logins m = []" "pt_edits po" "stored m = read_disk (ss_disk (mc_store m))"
    "og_message (stored m) \<noteq> JNull" "og_chat (stored m) = JInt (pt_chat po)"
  shows "let m1 = start_login po p (start_login po p m);
       m2 = login_asks po 1 Q_CODE None (login_abandoned 0 m1)
   in lg_live (login_of m2 1) \<and> gw_pending (lg_gateway (login_of m2 1)) \<and> og_step (stored m2) = WAITING_FOR_CODE
      \<and> submit_answer po w m2 = (True, show_screen po (S_login_failed ATTEMPT_INTERRUPTED) m2)"
proof -
  let ?m1 = "start_login po p (start_login po p m)" and ?f = "\<lambda>r. r\<lparr>og_step := WAITING_FOR_CODE\<rparr>"
  have kept: "mc_store (show_screen po scr v) = mc_store v"
    if "og_message (stored v) \<noteq> JNull" "og_chat (stored v) = JInt (pt_chat po)" for scr v
    using that assms(2) by (simp add: show_screen_def)
  have start: "mc_store (start_login po p v) = mc_store v" "mc_gateway (start_login po p v) = Some (length (mc_logins v))"
      "mc_logins (start_login po p v) = mc_logins v @ [\<lparr>lg_phone = p, lg_gateway = new_gateway, lg_live = True\<rparr>]"
    if "og_message (stored v) \<noteq> JNull" "og_chat (stored v) = JInt (pt_chat po)" for v
    using that kept[of "v\<lparr>mc_gateway := g\<rparr>" for g] by (simp_all add: start_login_def Let_def stored_def)
  have 1: "mc_store (start_login po p m) = mc_store m" using start assms by simp
  then have s1: "stored (start_login po p m) = stored m" by (simp add: stored_def)
  then have m1: "mc_store ?m1 = mc_store m"
      "mc_logins ?m1 = [\<lparr>lg_phone = p, lg_gateway = new_gateway, lg_live = True\<rparr>, \<lparr>lg_phone = p, lg_gateway = new_gateway, lg_live = True\<rparr>]"
    using start[of "start_login po p m"] start[of m] assms 1 by simp_all
  let ?a = "login_abandoned 0 ?m1"
  have a: "mc_store ?a = mc_store m" "mc_gateway ?a = None" "length (mc_logins ?a) = 2" "login_of ?a 1 = \<lparr>lg_phone = p, lg_gateway = new_gateway, lg_live = True\<rparr>"
    using m1 by (simp_all add: login_abandoned_def login_over_def on_login_def login_of_def)
  let ?b = "on_login 1 (\<lambda>l. l\<lparr>lg_gateway := snd (gateway_collect Q_CODE new_gateway)\<rparr>) ?a"
  have m2: "login_asks po 1 Q_CODE None ?a = show_screen po (S_ask_code False) (writes_state po ?f ?b)"
    using a(4) by (simp add: login_asks_def split_beta on_prompt_def gateway_collect_def Let_def new_gateway_def on_login_def)
  have disk: "mc_store ?b = mc_store m" "mc_gateway ?b = None" using a by (simp_all add: on_login_def)
  let ?w = "writes_state po ?f ?b"
  have sw: "stored ?w = (?f (rewound (stored m)))\<lparr>og_updated := JInt (pt_now po)\<rparr>" using disk(1) assms(3) by simp
  have st: "mc_store (show_screen po (S_ask_code False) ?w) = mc_store ?w" using sw assms(4,5) by (intro kept) simp_all
  then have step: "og_step (stored (login_asks po 1 Q_CODE None ?a)) = WAITING_FOR_CODE"
    unfolding m2 stored_def[of "show_screen po _ _"] by (simp add: sw flip: stored_def)
  have "login_of (login_asks po 1 Q_CODE None ?a) 1 = \<lparr>lg_phone = p, lg_gateway = snd (gateway_collect Q_CODE new_gateway), lg_live = True\<rparr>"
    unfolding m2 using a(3,4) by (simp add: login_of_def on_login_def)
  then have "lg_live (login_of (login_asks po 1 Q_CODE None ?a) 1)" "gw_pending (lg_gateway (login_of (login_asks po 1 Q_CODE None ?a) 1))"
    by (simp_all add: gateway_collect_def Let_def)
  moreover have "mc_gateway (login_asks po 1 Q_CODE None ?a) = None" unfolding m2 by (simp add: disk del: One_nat_def)
  ultimately show ?thesis using step by (simp add: submit_answer_def Let_def)
qed

theorem second_login_loses_its_gateway_witness:
  "let m2 = login_asks sample_ports 1 Q_CODE None (login_abandoned 0 (start_login sample_ports [43] (start_login sample_ports [43] sample_machine)))
   in gw_pending (lg_gateway (login_of m2 1))
      \<and> submit_answer sample_ports (asc ''1234'') m2 = (True, show_screen sample_ports (S_login_failed ATTEMPT_INTERRUPTED) m2)"
  using second_login_loses_its_gateway[of sample_machine sample_ports "[43]" "asc ''1234''"]
  by (simp add: sample_machine_def sample_ports_def stored_def update_record_disk Let_def)

end
