(* ===== verification/Spec2Isabelle.thy ===== *)
theory Spec2Isabelle
  imports Outbox_Laws Telegram_Inbox Album_Laws Owner_Echo Pipe Text_Chunks Registry Contact_State Owner_Updates
    Rendering_Laws Max_Mutation Delivery_Laws Media_Senders Router_Laws Runner Onboarding_Flow
begin

text \<open>
  Telemax carries one person's MAX messenger account into Telegram: every MAX contact is a Telegram
  bot, every message that arrives in MAX is drawn in the chat with that bot, and what the owner writes
  there goes back to MAX. This library models the part of it that decides \<open>what is sent, how often,
  and what is remembered about it\<close>: the SQLite repositories, the delivery queue with its two senders,
  the settlement of failures, the binding of ids between the two sides, edits and deletions, and the
  drawing of a message. Paths are relative to \<open>bridge/\<close>.

  \<^bold>\<open>How the parts interact.\<close> An event of either side gets a source key (\<open>SourceKeys\<close>) and is claimed in
  the message map (\<open>Message_Map\<close>) and enqueued (\<open>Outbox\<close>); a second sight of the event finds the claim
  or the job. The job is attempted at once (\<open>Pipe\<close>) or by the worker (\<open>Worker\<close>): lease, remote call with
  its send mark, and then the failure vocabulary (\<open>Failures\<close>) says whether the attempt is repeated,
  given up, or put to the owner as a question. The remote id is written to the message map, or to the
  album parts (\<open>Media_Groups\<close>); the copy Telegram shows to the owner's session is recognised and bound
  (\<open>Owner_Echo\<close>). Later events about the same message are jobs of their own whose resolvers read the
  state of the send they depend on (\<open>Owner_Mutation\<close>, \<open>Max_Mutation\<close>, \<open>Owner_Updates\<close>).

  \<^bold>\<open>Theories.\<close>
  \<^item> \<open>Prelude\<close>, \<open>Keyed_Tables\<close>: SQL tables with a row id and with a key of their own, unique indexes,
    text helpers, the simp collections. \<open>Interfaces\<close>: the contracts \<open>claim_once\<close>, \<open>leasing\<close>,
    \<open>fill_once\<close>, \<open>watermark\<close> as locales; each is interpreted in the theory that provides it.
  \<^item> \<open>Schema\<close>: \<open>storage/models.py\<close> and the indexes of \<open>storage/migrations.py\<close>, a record per row.
  \<^item> \<open>Outbox\<close>, \<open>Outbox_Laws\<close>: \<open>OutboxRepository\<close>, its invariant, and the laws of claims, recovery,
    expiry and order.
  \<^item> \<open>Telegram_Inbox\<close>, \<open>Owner_Inbox\<close>, \<open>Message_Map\<close>, \<open>Media_Groups\<close>, \<open>Album_Laws\<close>, \<open>Bridge_State\<close>,
    \<open>Registry\<close>, \<open>Contact_State\<close>: the other repositories of \<open>storage/repositories.py\<close>.
  \<^item> \<open>SourceKeys\<close>: every function that builds a source key, and their joint injectivity.
  \<^item> \<open>Failures\<close>: \<open>telegram/errors.py\<close>, \<open>max_client/max_errors.py\<close>, \<open>routing/refusals.py\<close>,
    \<open>routing/settlement.py\<close>. \<open>Worker\<close>: \<open>retry/backoff.py\<close>, \<open>retry/worker.py\<close>. \<open>Pipe\<close>:
    \<open>routing/delivery.py\<close>.
  \<^item> \<open>Owner_Echo\<close>: \<open>routing/owner_echo.py\<close>, \<open>routing/owner_binding.py\<close>. \<open>Owner_Updates\<close>:
    \<open>routing/owner_updates.py\<close>.
  \<^item> \<open>Text_Chunks\<close>, \<open>Presentation\<close>, \<open>Rendering\<close>, \<open>Rendering_Laws\<close>: \<open>routing/text_chunks.py\<close>, the
    directory \<open>formatting\<close> and the renderers of \<open>routing/router.py\<close>.
  \<^item> \<open>Owner_Mutation\<close>, \<open>Owner_Mutation_Laws\<close>, \<open>Max_Mutation\<close>: \<open>routing/owner_mutation.py\<close>,
    \<open>routing/max_mutation.py\<close>, the handlers of \<open>routing/router.py\<close> that enqueue them, and the album
    sweep of \<open>service/runtime.py\<close>.
  \<^item> \<open>Delivery_System\<close>, \<open>Delivery_Laws\<close>: both senders, the sweep of \<open>service/runtime.py\<close> and a crash as
    interleaved steps over one queue.
  \<^item> \<open>Effects\<close>: coroutines that may raise, with triples. \<open>Media_Delivery\<close>, \<open>Media_Laws\<close>: \<open>media/delivery.py\<close>.
    \<open>Media_Senders\<close>: \<open>routing/media_adapter.py\<close>, \<open>routing/owner_voice.py\<close>. \<open>Own_Echoes\<close>: \<open>routing/echo.py\<close>.
    \<open>Send_Job\<close>, \<open>Send_Laws\<close>: \<open>send_job\<close> of \<open>service/runtime.py\<close> and what it calls there.
  \<^item> \<open>Router\<close>, \<open>Router_Intake\<close>, \<open>Router_Laws\<close>: the handlers of \<open>routing/router.py\<close>, MAX into Telegram and Telegram into
    MAX, and what the claim, the job and the echo guarantee together.

  \<^bold>\<open>State and operations.\<close> A table is a list of records in insertion order with its last row id, or a
  list with a unique key; a repository method is a function of the table and of the clock it reads, and
  one transaction is one function. A handler takes the tables it touches as a record and answers with
  them; what it raises is the left side of a sum. Remote services are arguments: a function from a call
  and the state of the world outside to the failure, if any, and the new state. Python integers are
  \<open>int\<close> (they do not wrap), texts whose code points matter are lists of numbers, other texts are strings,
  a JSON value is the datatype \<open>json\<close>.

  \<^bold>\<open>What the lemmas show.\<close> Per component: an invariant that every operation keeps (\<open>queue_ok\<close>,
  \<open>map_ok\<close>, \<open>inbox_ok\<close>, \<open>groups_ok\<close>, \<open>reg_ok\<close>, \<open>pending_ok\<close>), then its laws. Across components: a
  failure that may have created a message is never repeated by the code (\<open>Failures\<close>, \<open>Worker\<close>, \<open>Pipe\<close>);
  the inline sender and the worker settle alike (refinement, \<open>Pipe\<close>); an event is claimed once and its
  job enqueued once; a deleted message does not arrive and is not edited back; what the renderer draws
  can be taken off again; a split text is the text.

  \<^bold>\<open>Bounds.\<close> No definition uses fuel: the recursions are structural or have a measure (the text splitter
  drops at least one code point per part; a payload is cut at \<open>MAX_RAW_DEPTH\<close>). Floats of the backoff
  policy are rationals.

  \<^bold>\<open>Not modelled.\<close> The client libraries (aiogram, Telethon, PyMax) and what only drives them: sessions,
  media transfer, provisioning conversations with @BotFather, the onboarding screens, the command line,
  configuration files, logging. Hashes are arguments, so nothing rests on their being collision free.
  The asyncio scheduler is not modelled; the order in which operations of different tasks meet is a list
  of calls or a step relation, and a method that awaits between two statements outside a transaction is
  said to do so where it matters (\<open>expire_overdue\<close>). Rounding of floats and the physical layer of SQLite
  are left out.
\<close>

end
